(* ===== verification/Py_Monad.thy ===== *)
theory Py_Monad
  imports Prelude
begin

text \<open>
  Stateful Python code with exceptions: a computation takes the state and returns either the
  exception raised (\<open>Inl\<close>) or the value returned (\<open>Inr\<close>), together with the new state.  State
  changes made before an exception persist, as in Python.  \<open>valid P m Q E\<close> is the Hoare triple
  with postcondition \<open>Q\<close> for a normal return and \<open>E\<close> for an exception.
\<close>

type_synonym ('s, 'e, 'a) prog = "'s \<Rightarrow> ('e + 'a) \<times> 's"

definition ret :: "'a \<Rightarrow> ('s, 'e, 'a) prog" where
  "ret x = (\<lambda>s. (Inr x, s))"

definition raise :: "'e \<Rightarrow> ('s, 'e, 'a) prog" where
  "raise e = (\<lambda>s. (Inl e, s))"

definition bnd :: "('s, 'e, 'a) prog \<Rightarrow> ('a \<Rightarrow> ('s, 'e, 'b) prog) \<Rightarrow> ('s, 'e, 'b) prog" where
  "bnd m f = (\<lambda>s. case m s of (Inl e, s') \<Rightarrow> (Inl e, s') | (Inr x, s') \<Rightarrow> f x s')"

definition andthen :: "('s, 'e, 'a) prog \<Rightarrow> ('s, 'e, 'b) prog \<Rightarrow> ('s, 'e, 'b) prog" where
  "andthen m n = bnd m (\<lambda>_. n)"

text \<open>\<open>try: m except e: h e\<close>; the handler may re-raise.\<close>

definition catch :: "('s, 'e, 'a) prog \<Rightarrow> ('e \<Rightarrow> ('s, 'f, 'a) prog) \<Rightarrow> ('s, 'f, 'a) prog" where
  "catch m h = (\<lambda>s. case m s of (Inl e, s') \<Rightarrow> h e s' | (Inr x, s') \<Rightarrow> (Inr x, s'))"

definition lift_exn :: "('e \<Rightarrow> 'f) \<Rightarrow> ('s, 'e, 'a) prog \<Rightarrow> ('s, 'f, 'a) prog" where
  "lift_exn g m = catch m (\<lambda>e. raise (g e))"

text \<open>\<open>try: m finally: f\<close> for a clean-up that raises nothing itself.\<close>

definition finally_do :: "('s, 'e, 'a) prog \<Rightarrow> ('s \<Rightarrow> 's) \<Rightarrow> ('s, 'e, 'a) prog" where
  "finally_do m f = (\<lambda>s. case m s of (r, s') \<Rightarrow> (r, f s'))"

text \<open>\<open>try: m finally: c\<close> for a clean-up that may itself raise (its exception then wins).\<close>

definition try_finally :: "('s, 'e, 'a) prog \<Rightarrow> ('s, 'e, unit) prog \<Rightarrow> ('s, 'e, 'a) prog" where
  "try_finally m c = (\<lambda>s. case m s of (r, s') \<Rightarrow>
     (case c s' of (Inl e, s'') \<Rightarrow> (Inl e, s'') | (Inr _, s'') \<Rightarrow> (r, s'')))"

definition gets :: "('s \<Rightarrow> 'a) \<Rightarrow> ('s, 'e, 'a) prog" where
  "gets f = (\<lambda>s. (Inr (f s), s))"

definition modify :: "('s \<Rightarrow> 's) \<Rightarrow> ('s, 'e, unit) prog" where
  "modify f = (\<lambda>s. (Inr (), f s))"

definition guard_raise :: "bool \<Rightarrow> 'e \<Rightarrow> ('s, 'e, unit) prog" where
  "guard_raise b e = (if b then raise e else ret ())"

definition when_do :: "bool \<Rightarrow> ('s, 'e, unit) prog \<Rightarrow> ('s, 'e, unit) prog" where
  "when_do b m = (if b then m else ret ())"

text \<open>\<open>for x in xs: f x\<close> with an accumulator.\<close>

fun fold_prog :: "('a \<Rightarrow> 'b \<Rightarrow> ('s, 'e, 'b) prog) \<Rightarrow> 'a list \<Rightarrow> 'b \<Rightarrow> ('s, 'e, 'b) prog" where
  "fold_prog f [] b = ret b"
| "fold_prog f (x # xs) b = bnd (f x b) (fold_prog f xs)"

definition for_each :: "'a list \<Rightarrow> ('a \<Rightarrow> ('s, 'e, unit) prog) \<Rightarrow> ('s, 'e, unit) prog" where
  "for_each xs f = fold_prog (\<lambda>x _. f x) xs ()"

text \<open>A sum value (a pure function that may raise) as a computation.\<close>

definition of_sum :: "'e + 'a \<Rightarrow> ('s, 'e, 'a) prog" where
  "of_sum r = (\<lambda>s. (r, s))"

subsection \<open>Evaluation\<close>

lemma ret_app [simp]: "ret x s = (Inr x, s)" by (simp add: ret_def)
lemma raise_app [simp]: "raise e s = (Inl e, s)" by (simp add: raise_def)
lemma gets_app [simp]: "gets f s = (Inr (f s), s)" by (simp add: gets_def)
lemma modify_app [simp]: "modify f s = (Inr (), f s)" by (simp add: modify_def)
lemma of_sum_app [simp]: "of_sum r s = (r, s)" by (simp add: of_sum_def)

lemma bnd_app:
  "bnd m f s = (case m s of (Inl e, s') \<Rightarrow> (Inl e, s') | (Inr x, s') \<Rightarrow> f x s')"
  by (simp add: bnd_def)

lemma catch_app:
  "catch m h s = (case m s of (Inl e, s') \<Rightarrow> h e s' | (Inr x, s') \<Rightarrow> (Inr x, s'))"
  by (simp add: catch_def)

lemma lift_exn_app:
  "lift_exn g m s = (case m s of (Inl e, s') \<Rightarrow> (Inl (g e), s') | (Inr x, s') \<Rightarrow> (Inr x, s'))"
  by (simp add: lift_exn_def catch_def split: sum.splits prod.splits)

lemma guard_raise_simps [simp]:
  "guard_raise True e = raise e" "guard_raise False e = ret ()"
  by (simp_all add: guard_raise_def)

lemma when_do_simps [simp]: "when_do True m = m" "when_do False m = ret ()"
  by (simp_all add: when_do_def)

lemma for_each_simps [simp]:
  "for_each [] f = ret ()"
  "for_each (x # xs) f = bnd (f x) (\<lambda>_. for_each xs f)"
  by (auto simp: for_each_def bnd_def fun_eq_iff split: sum.splits prod.splits)

lemma bnd_ret [simp]: "bnd (ret x) f = f x" and bnd_raise [simp]: "bnd (raise e) f = raise e"
  by (auto simp: bnd_def fun_eq_iff)

lemma bnd_assoc: "bnd (bnd m f) g = bnd m (\<lambda>x. bnd (f x) g)"
  by (auto simp: bnd_def fun_eq_iff split: sum.splits prod.splits)

lemmas prog_simps = bnd_app catch_app lift_exn_app finally_do_def try_finally_def andthen_def guard_raise_def when_do_def

lemma bnd_Inr: "bnd m f s = (Inr y, t) \<longleftrightarrow> (\<exists>x s'. m s = (Inr x, s') \<and> f x s' = (Inr y, t))"
  by (auto simp: bnd_def split: sum.splits prod.splits)

lemma bnd_Inl:
  "bnd m f s = (Inl e, t) \<longleftrightarrow> m s = (Inl e, t) \<or> (\<exists>x s'. m s = (Inr x, s') \<and> f x s' = (Inl e, t))"
  by (auto simp: bnd_def split: sum.splits prod.splits)

subsection \<open>Hoare triples\<close>

definition valid ::
  "('s \<Rightarrow> bool) \<Rightarrow> ('s, 'e, 'a) prog \<Rightarrow> ('a \<Rightarrow> 's \<Rightarrow> bool) \<Rightarrow> ('e \<Rightarrow> 's \<Rightarrow> bool) \<Rightarrow> bool" where
  "valid P m Q E \<longleftrightarrow>
     (\<forall>s. P s \<longrightarrow> (case m s of (Inl e, s') \<Rightarrow> E e s' | (Inr x, s') \<Rightarrow> Q x s'))"

text \<open>An invariant of a computation: kept whether it returns or raises.\<close>

abbreviation keeps :: "('s \<Rightarrow> bool) \<Rightarrow> ('s, 'e, 'a) prog \<Rightarrow> bool" where
  "keeps I m \<equiv> valid I m (\<lambda>_. I) (\<lambda>_. I)"

lemma validI:
  "(\<And>s e s'. P s \<Longrightarrow> m s = (Inl e, s') \<Longrightarrow> E e s') \<Longrightarrow>
   (\<And>s x s'. P s \<Longrightarrow> m s = (Inr x, s') \<Longrightarrow> Q x s') \<Longrightarrow> valid P m Q E"
  by (auto simp: valid_def split: sum.splits prod.splits)

lemma valid_Inr: "valid P m Q E \<Longrightarrow> P s \<Longrightarrow> m s = (Inr x, s') \<Longrightarrow> Q x s'"
  by (auto simp: valid_def dest: spec [of _ s])

lemma valid_Inl: "valid P m Q E \<Longrightarrow> P s \<Longrightarrow> m s = (Inl e, s') \<Longrightarrow> E e s'"
  by (auto simp: valid_def dest: spec [of _ s])

lemma keepsD: "keeps I m \<Longrightarrow> I s \<Longrightarrow> m s = (r, s') \<Longrightarrow> I s'"
  by (cases r) (auto dest: valid_Inr valid_Inl)

lemma keeps_snd: "keeps I m \<Longrightarrow> I s \<Longrightarrow> I (snd (m s))"
  by (cases "m s") (auto dest: keepsD)

lemma valid_weaken:
  "valid P m Q E \<Longrightarrow> (\<And>s. P' s \<Longrightarrow> P s) \<Longrightarrow> (\<And>x s. Q x s \<Longrightarrow> Q' x s) \<Longrightarrow>
   (\<And>e s. E e s \<Longrightarrow> E' e s) \<Longrightarrow> valid P' m Q' E'"
  by (fastforce simp: valid_def split: sum.splits prod.splits)

lemma valid_exn: "valid P m Q E \<Longrightarrow> (\<And>e s. E e s \<Longrightarrow> E' e s) \<Longrightarrow> valid P m Q E'"
  by (erule valid_weaken)

lemma valid_ret [wp]: "(\<And>s. P s \<Longrightarrow> Q x s) \<Longrightarrow> valid P (ret x) Q E"
  by (simp add: valid_def)

lemma valid_raise [wp]: "(\<And>s. P s \<Longrightarrow> E e s) \<Longrightarrow> valid P (raise e) Q E"
  by (simp add: valid_def)

lemma valid_bnd [wp]:
  "valid P m R E \<Longrightarrow> (\<And>x. valid (R x) (f x) Q E) \<Longrightarrow> valid P (bnd m f) Q E"
  by (fastforce simp: valid_def bnd_def split: sum.splits prod.splits)

lemma valid_andthen [wp]:
  "valid P m (\<lambda>_. R) E \<Longrightarrow> valid R n Q E \<Longrightarrow> valid P (andthen m n) Q E"
  unfolding andthen_def by (rule valid_bnd)

lemma valid_catch [wp]:
  "valid P m Q E' \<Longrightarrow> (\<And>e. valid (E' e) (h e) Q E) \<Longrightarrow> valid P (catch m h) Q E"
  by (fastforce simp: valid_def catch_def split: sum.splits prod.splits)

lemma valid_lift_exn [wp]:
  "valid P m Q (\<lambda>e. E (g e)) \<Longrightarrow> valid P (lift_exn g m) Q E"
  unfolding lift_exn_def by (rule valid_catch) (auto intro: valid_raise)

lemma valid_finally [wp]:
  "valid P m (\<lambda>x s. Q x (f s)) (\<lambda>e s. E e (f s)) \<Longrightarrow> valid P (finally_do m f) Q E"
  by (fastforce simp: valid_def finally_do_def split: sum.splits prod.splits)

lemma valid_try_finally [wp]:
  "valid P m R F \<Longrightarrow> (\<And>x. valid (R x) c (\<lambda>_. Q x) E) \<Longrightarrow> (\<And>e. valid (F e) c (\<lambda>_. E e) E) \<Longrightarrow>
   valid P (try_finally m c) Q E"
proof (rule validI)
  assume m: "valid P m R F" and c: "\<And>x. valid (R x) c (\<lambda>_. Q x) E"
    and c': "\<And>e. valid (F e) c (\<lambda>_. E e) E"
  fix s assume P: "P s"
  obtain r t where r: "m s = (r, t)" by (cases "m s") auto
  obtain q u where q: "c t = (q, u)" by (cases "c t") auto
  have r': "r = Inl a \<Longrightarrow> F a t" "r = Inr x \<Longrightarrow> R x t" for a x
    using valid_Inl [OF m P] valid_Inr [OF m P] r by simp_all
  have q': "R x t \<Longrightarrow> q = Inl b \<Longrightarrow> E b u" "R x t \<Longrightarrow> q = Inr y \<Longrightarrow> Q x u"
    "F a t \<Longrightarrow> q = Inl b \<Longrightarrow> E b u" "F a t \<Longrightarrow> q = Inr y \<Longrightarrow> E a u" for x a b y
    using valid_Inl [OF c] valid_Inr [OF c] valid_Inl [OF c'] valid_Inr [OF c'] q by blast+
  show "E e s'" if "try_finally m c s = (Inl e, s')" for e s'
    using that r q r' q' by (cases r; cases q) (auto simp: try_finally_def)
  show "Q x s'" if "try_finally m c s = (Inr x, s')" for x s'
    using that r q r' q' by (cases r; cases q) (auto simp: try_finally_def)
qed

lemma valid_if [wp]:
  "(b \<Longrightarrow> valid P m Q E) \<Longrightarrow> (\<not> b \<Longrightarrow> valid P n Q E) \<Longrightarrow> valid P (if b then m else n) Q E"
  by simp

lemma valid_gets [wp]: "(\<And>s. P s \<Longrightarrow> Q (f s) s) \<Longrightarrow> valid P (gets f) Q E"
  by (simp add: valid_def)

lemma valid_modify [wp]: "(\<And>s. P s \<Longrightarrow> Q () (f s)) \<Longrightarrow> valid P (modify f) Q E"
  by (simp add: valid_def)

lemma valid_of_sum [wp]:
  "(\<And>s x. r = Inr x \<Longrightarrow> P s \<Longrightarrow> Q x s) \<Longrightarrow> (\<And>s e. r = Inl e \<Longrightarrow> P s \<Longrightarrow> E e s) \<Longrightarrow>
   valid P (of_sum r) Q E"
  by (auto simp: valid_def split: sum.splits)

lemma valid_guard [wp]:
  "(\<And>s. b \<Longrightarrow> P s \<Longrightarrow> E e s) \<Longrightarrow> (\<And>s. \<not> b \<Longrightarrow> P s \<Longrightarrow> Q () s) \<Longrightarrow> valid P (guard_raise b e) Q E"
  by (simp add: valid_def guard_raise_def)

lemma valid_when [wp]:
  "(b \<Longrightarrow> valid P m Q E) \<Longrightarrow> (\<And>s. \<not> b \<Longrightarrow> P s \<Longrightarrow> Q () s) \<Longrightarrow> valid P (when_do b m) Q E"
  by (simp add: valid_def when_do_def)

lemma valid_fold_prog:
  "(\<And>x b. x \<in> set xs \<Longrightarrow> valid (I b) (f x b) I E) \<Longrightarrow> valid (I b) (fold_prog f xs b) I E"
proof (induction xs arbitrary: b)
  case Nil
  then show ?case by (simp add: valid_def)
next
  case (Cons x xs)
  have "valid (I b) (f x b) I E" by (rule Cons.prems) simp
  moreover have "valid (I b') (fold_prog f xs b') I E" for b'
    by (rule Cons.IH) (rule Cons.prems, simp)
  ultimately show ?case by (auto intro: valid_bnd)
qed

lemma valid_for_each [wp]:
  "(\<And>x. x \<in> set xs \<Longrightarrow> valid I (f x) (\<lambda>_. I) E) \<Longrightarrow> valid I (for_each xs f) (\<lambda>_. I) E"
  unfolding for_each_def by (rule valid_fold_prog [where I = "\<lambda>_. I"]) simp

end
