(* ===== verification/Py_Os.thy ===== *)
theory Py_Os
  imports Py_Monad
begin

text \<open>
  The operating-system calls the program makes through \<open>os\<close>, \<open>pathlib\<close> and \<open>tempfile\<close>.  A file
  system maps absolute paths (component lists) to directories, regular files with their mode, and
  symbolic links.  Path lookup follows links and treats \<open>..\<close> and \<open>.\<close> as the kernel does, so a
  theorem that a path stays below a directory says something.  Any call may fail: the fault script
  of the state says which calls raise \<open>OSError\<close>.  The trace records the file system after every
  successful call: a crash leaves one of its elements behind.
\<close>

type_synonym path = "string list"

datatype node = NDir | NFile bytes nat | NLink path

type_synonym fs = "(path \<times> node) list"

datatype oserr = ENOENT | EEXIST | ENOTDIR | EISDIR | ENOTEMPTY | ELOOP | EIO

record os =
  fsys :: fs
  faults :: "bool list"
  rnd :: "string list"
  trace :: "fs list"

text \<open>\<open>pathlib\<close> on absolute paths: empty and \<open>.\<close> components vanish; \<open>str(path)\<close>.\<close>

definition to_path :: "string \<Rightarrow> path" where
  "to_path s = filter (\<lambda>x. x \<noteq> [] \<and> x \<noteq> ''.'') (split_on CHR ''/'' s)"

definition path_str :: "path \<Rightarrow> string" where
  "path_str p = CHR ''/'' # join ''/'' p"

section \<open>Path lookup\<close>

definition node_at :: "fs \<Rightarrow> path \<Rightarrow> node option" where
  "node_at f p = (if p = [] then Some NDir else dget f p)"

definition is_dir :: "fs \<Rightarrow> path \<Rightarrow> bool" where
  "is_dir f p \<longleftrightarrow> node_at f p = Some NDir"

text \<open>
  \<open>resolve k f follow d xs\<close>: the location of \<open>xs\<close> relative to the real directory \<open>d\<close>; at most \<open>k\<close>
  links are followed (Linux: 40), the last component only when \<open>follow\<close> is set.
\<close>

function resolve :: "nat \<Rightarrow> fs \<Rightarrow> bool \<Rightarrow> path \<Rightarrow> path \<Rightarrow> oserr + path" where
  "resolve k f fol d [] = Inr d"
| "resolve k f fol d (x # xs) =
     (if x = [] \<or> x = ''.'' then resolve k f fol d xs
      else if x = ''..'' then resolve k f fol (butlast d) xs
      else (case node_at f (d @ [x]) of
          Some (NLink t) \<Rightarrow>
            (if xs = [] \<and> \<not> fol then Inr (d @ [x])
             else (case k of 0 \<Rightarrow> Inl ELOOP | Suc k' \<Rightarrow> resolve k' f fol [] (t @ xs)))
        | _ \<Rightarrow> resolve k f fol (d @ [x]) xs))"
  by pat_completeness auto
termination
  by (relation "measures [\<lambda>(k, f, fol, d, xs). k, \<lambda>(k, f, fol, d, xs). length xs]") auto

definition max_links :: nat where
  "max_links = 40"

definition parent_error :: "fs \<Rightarrow> path \<Rightarrow> oserr option" where
  "parent_error f q =
     (if q = [] \<or> is_dir f (butlast q) then None
      else if node_at f (butlast q) = None then Some ENOENT else Some ENOTDIR)"

section \<open>System calls\<close>

type_synonym 'a io = "(os, oserr, 'a) prog"

text \<open>One call: it fails when the fault script says so, else it acts on the file system.\<close>

definition sys :: "(fs \<Rightarrow> oserr + ('a \<times> fs)) \<Rightarrow> 'a io" where
  "sys act = (\<lambda>s.
     (let s' = s\<lparr>faults := tl (faults s)\<rparr> in
      if faults s \<noteq> [] \<and> hd (faults s) then (Inl EIO, s')
      else (case act (fsys s) of
          Inl e \<Rightarrow> (Inl e, s')
        | Inr (x, f) \<Rightarrow> (Inr x, s'\<lparr>fsys := f, trace := f # trace s\<rparr>))))"

definition at_path :: "bool \<Rightarrow> path \<Rightarrow> (path \<Rightarrow> fs \<Rightarrow> oserr + ('a \<times> fs)) \<Rightarrow> fs \<Rightarrow> oserr + ('a \<times> fs)" where
  "at_path fol p act f =
     (case resolve max_links f fol [] p of
        Inl e \<Rightarrow> Inl e
      | Inr q \<Rightarrow> (case parent_error f q of Some e \<Rightarrow> Inl e | None \<Rightarrow> act q f))"

definition lstat_act :: "path \<Rightarrow> fs \<Rightarrow> oserr + (node \<times> fs)" where
  "lstat_act q f = (case node_at f q of None \<Rightarrow> Inl ENOENT | Some n \<Rightarrow> Inr (n, f))"

definition os_lstat :: "path \<Rightarrow> node io" where
  "os_lstat p = sys (at_path False p lstat_act)"

definition os_stat :: "path \<Rightarrow> node io" where
  "os_stat p = sys (at_path True p lstat_act)"

definition read_act :: "path \<Rightarrow> fs \<Rightarrow> oserr + (bytes \<times> fs)" where
  "read_act q f = (case node_at f q of None \<Rightarrow> Inl ENOENT
     | Some (NFile d m) \<Rightarrow> Inr (d, f) | Some _ \<Rightarrow> Inl EISDIR)"

definition os_read :: "path \<Rightarrow> bytes io" where
  "os_read p = sys (at_path True p read_act)"

definition create_act :: "nat \<Rightarrow> path \<Rightarrow> fs \<Rightarrow> oserr + (unit \<times> fs)" where
  "create_act m q f =
     (if node_at f q \<noteq> None then Inl EEXIST else Inr ((), AList.update q (NFile [] m) f))"

definition write_act :: "bytes \<Rightarrow> path \<Rightarrow> fs \<Rightarrow> oserr + (unit \<times> fs)" where
  "write_act d q f = (case node_at f q of None \<Rightarrow> Inl ENOENT
     | Some (NFile _ m) \<Rightarrow> Inr ((), AList.update q (NFile d m) f) | Some _ \<Rightarrow> Inl EISDIR)"

definition os_write :: "path \<Rightarrow> bytes \<Rightarrow> unit io" where
  "os_write p d = sys (at_path False p (write_act d))"

definition chmod_act :: "nat \<Rightarrow> path \<Rightarrow> fs \<Rightarrow> oserr + (unit \<times> fs)" where
  "chmod_act m q f = (case node_at f q of None \<Rightarrow> Inl ENOENT
     | Some (NFile d _) \<Rightarrow> Inr ((), AList.update q (NFile d m) f) | Some _ \<Rightarrow> Inr ((), f))"

definition os_chmod :: "path \<Rightarrow> nat \<Rightarrow> unit io" where
  "os_chmod p m = sys (at_path True p (chmod_act m))"

definition unlink_act :: "bool \<Rightarrow> path \<Rightarrow> fs \<Rightarrow> oserr + (unit \<times> fs)" where
  "unlink_act missing_ok q f = (case node_at f q of
       None \<Rightarrow> if missing_ok then Inr ((), f) else Inl ENOENT
     | Some NDir \<Rightarrow> Inl EISDIR
     | Some _ \<Rightarrow> Inr ((), AList.delete q f))"

definition os_unlink :: "bool \<Rightarrow> path \<Rightarrow> unit io" where
  "os_unlink missing_ok p = sys (at_path False p (unlink_act missing_ok))"

definition mkdir_act :: "path \<Rightarrow> fs \<Rightarrow> oserr + (unit \<times> fs)" where
  "mkdir_act q f = (if node_at f q \<noteq> None then Inl EEXIST else Inr ((), AList.update q NDir f))"

definition os_mkdir :: "path \<Rightarrow> unit io" where
  "os_mkdir p = sys (at_path False p mkdir_act)"

definition dir_entries :: "fs \<Rightarrow> path \<Rightarrow> string list" where
  "dir_entries f d = map (\<lambda>(q, _). last q) (filter (\<lambda>(q, _). q \<noteq> [] \<and> butlast q = d) f)"

definition rmdir_act :: "path \<Rightarrow> fs \<Rightarrow> oserr + (unit \<times> fs)" where
  "rmdir_act q f = (case node_at f q of None \<Rightarrow> Inl ENOENT
     | Some NDir \<Rightarrow> if dir_entries f q = [] then Inr ((), AList.delete q f) else Inl ENOTEMPTY
     | Some _ \<Rightarrow> Inl ENOTDIR)"

definition os_rmdir :: "path \<Rightarrow> unit io" where
  "os_rmdir p = sys (at_path False p rmdir_act)"

definition replace_act :: "path \<Rightarrow> path \<Rightarrow> fs \<Rightarrow> oserr + (unit \<times> fs)" where
  "replace_act src dst f =
     (case node_at f src of
        None \<Rightarrow> Inl ENOENT
      | Some NDir \<Rightarrow> Inl EISDIR
      | Some n \<Rightarrow> (if node_at f dst = Some NDir then Inl EISDIR
                  else if src = dst then Inr ((), f)
                  else Inr ((), AList.update dst n (AList.delete src f))))"

definition os_replace :: "path \<Rightarrow> path \<Rightarrow> unit io" where
  "os_replace src dst =
     sys (\<lambda>f. at_path False src (\<lambda>a f. at_path False dst (\<lambda>b f. replace_act a b f) f) f)"

text \<open>\<open>os.fsync\<close>: no effect on the contents, but it can fail.\<close>

definition os_fsync :: "unit io" where
  "os_fsync = sys (\<lambda>f. Inr ((), f))"

text \<open>\<open>Path.mkdir(parents=True, exist_ok=True)\<close>: one \<open>mkdir\<close> per missing ancestor, outermost first.\<close>

definition ensure_dir :: "path \<Rightarrow> unit io" where
  "ensure_dir p = catch (os_mkdir p) (\<lambda>e. if e = EEXIST
     then bnd (os_stat p) (\<lambda>n. if n = NDir then ret () else raise EEXIST) else raise e)"

definition prefixes_of :: "path \<Rightarrow> path list" where
  "prefixes_of p = map (\<lambda>n. take n p) [1..<Suc (length p)]"

definition mkdir_parents :: "path \<Rightarrow> unit io" where
  "mkdir_parents p = for_each (prefixes_of p) ensure_dir"

text \<open>
  \<open>tempfile.mkstemp(dir, prefix, suffix)\<close>: exclusive creation under the first random name that is
  free; the names come from the state's random tokens.
\<close>

fun free_token :: "fs \<Rightarrow> path \<Rightarrow> string \<Rightarrow> string \<Rightarrow> string list \<Rightarrow> (string \<times> string list) option" where
  "free_token f d pre suf [] = None"
| "free_token f d pre suf (t # ts) =
     (if node_at f (d @ [pre @ t @ suf]) = None then Some (pre @ t @ suf, ts)
      else free_token f d pre suf ts)"

definition os_mkstemp :: "path \<Rightarrow> string \<Rightarrow> string \<Rightarrow> path io" where
  "os_mkstemp d pre suf = (\<lambda>s.
     case free_token (fsys s) d pre suf (rnd s) of
       None \<Rightarrow> (Inl EEXIST, s\<lparr>rnd := []\<rparr>)
     | Some (name, ts) \<Rightarrow>
         bnd (sys (at_path False (d @ [name]) (create_act 384))) (\<lambda>_. ret (d @ [name])) (s\<lparr>rnd := ts\<rparr>))"

section \<open>Facts about lookup\<close>

text \<open>A canonical directory: every ancestor and the directory itself is a real directory.\<close>

definition plain_name :: "string \<Rightarrow> bool" where
  "plain_name x \<longleftrightarrow> x \<noteq> [] \<and> x \<noteq> ''.'' \<and> x \<noteq> ''..''"

definition plain_dir :: "fs \<Rightarrow> path \<Rightarrow> bool" where
  "plain_dir f p \<longleftrightarrow> list_all plain_name p \<and> (\<forall>n \<le> length p. is_dir f (take n p))"

lemma node_at_Nil [simp]: "node_at f [] = Some NDir"
  by (simp add: node_at_def)

lemma node_at_update [simp]:
  "node_at (AList.update q n f) p = (if p = [] then Some NDir else if p = q then Some n else node_at f p)"
  by (simp add: node_at_def)

lemma node_at_delete [simp]:
  "node_at (AList.delete q f) p = (if p = [] then Some NDir else if p = q then None else node_at f p)"
  by (simp add: node_at_def)

lemma plain_dir_prefix: "plain_dir f (p @ q) \<Longrightarrow> plain_dir f p"
  unfolding plain_dir_def
  by (metis append_take_drop_id length_append list_all_append take_append trans_le_add1
      append_Nil2 diff_is_0_eq take_eq_Nil2)

lemma plain_dir_is_dir: "plain_dir f p \<Longrightarrow> is_dir f p"
  by (auto simp: plain_dir_def dest: spec [where x = "length p"])

lemma resolve_dirs:
  assumes "list_all plain_name p" and "\<And>n. 0 < n \<Longrightarrow> n \<le> length p \<Longrightarrow> is_dir f (d @ take n p)"
  shows "resolve k f fol d (p @ xs) = resolve k f fol (d @ p) xs"
  using assms
proof (induction p arbitrary: d)
  case (Cons x p)
  have "is_dir f (d @ [x])" using Cons.prems(2) [of 1] by simp
  moreover have "resolve k f fol (d @ [x]) (p @ xs) = resolve k f fol ((d @ [x]) @ p) xs"
  proof (rule Cons.IH)
    show "list_all plain_name p" using Cons.prems(1) by simp
    show "is_dir f ((d @ [x]) @ take n p)" if "0 < n" "n \<le> length p" for n
      using Cons.prems(2) [of "Suc n"] that by simp
  qed
  ultimately show ?case using Cons.prems(1) by (simp add: is_dir_def plain_name_def)
qed simp

lemma resolve_plain:
  "plain_dir f d \<Longrightarrow> resolve k f fol [] (d @ xs) = resolve k f fol d xs"
  using resolve_dirs [of d f "[]" k fol xs] by (auto simp: plain_dir_def)

lemma resolve_child:
  assumes "plain_dir f d" "plain_name x" "\<not> fol \<or> (\<forall>t. node_at f (d @ [x]) \<noteq> Some (NLink t))"
  shows "resolve k f fol [] (d @ [x]) = Inr (d @ [x])"
  using assms by (auto simp: resolve_plain plain_name_def split: option.splits node.splits)

lemma parent_error_child: "plain_dir f d \<Longrightarrow> parent_error f (d @ [x]) = None"
  by (simp add: parent_error_def plain_dir_is_dir)

lemma at_path_child:
  assumes "plain_dir f d" "plain_name x" "\<not> fol \<or> (\<forall>t. node_at f (d @ [x]) \<noteq> Some (NLink t))"
  shows "at_path fol (d @ [x]) act f = act (d @ [x]) f"
  using assms by (simp add: at_path_def resolve_child parent_error_child)

lemma plain_dir_update:
  assumes "plain_dir f d" and "\<And>n. n \<le> length d \<Longrightarrow> q = take n d \<Longrightarrow> q = [] \<or> nd = NDir"
  shows "plain_dir (AList.update q nd f) d"
  using assms by (auto simp: plain_dir_def is_dir_def)

lemma plain_dir_delete:
  assumes "plain_dir f d" and "\<And>n. n \<le> length d \<Longrightarrow> q = take n d \<Longrightarrow> q = []"
  shows "plain_dir (AList.delete q f) d"
  using assms by (auto simp: plain_dir_def is_dir_def)

lemma take_neq_child: "n \<le> length d \<Longrightarrow> d @ [x] \<noteq> take n d"
  by (auto dest: arg_cong [where f = length])

lemma free_token_fresh:
  "free_token f d pre suf ts = Some (n, ts') \<Longrightarrow> node_at f (d @ [n]) = None \<and> (\<exists>t. n = pre @ t @ suf)"
  by (induction ts) (auto split: if_splits)

section \<open>Hoare rules for the calls\<close>

text \<open>
  What one call needs to keep an invariant \<open>I\<close> of file systems, over the whole trace: only the
  file system it leaves behind matters.
\<close>

definition all_states :: "(fs \<Rightarrow> bool) \<Rightarrow> os \<Rightarrow> bool" where
  "all_states J s \<longleftrightarrow> J (fsys s) \<and> list_all J (trace s)"

lemma valid_sys:
  assumes "\<And>s x f. P s \<Longrightarrow> act (fsys s) = Inr (x, f) \<Longrightarrow>
      Q x (s\<lparr>faults := tl (faults s), fsys := f, trace := f # trace s\<rparr>)"
    and "\<And>s e. P s \<Longrightarrow> E e (s\<lparr>faults := tl (faults s)\<rparr>)"
  shows "valid P (sys act) Q E"
proof (rule validI)
  fix s e s' assume "P s" "sys act s = (Inl e, s')"
  then show "E e s'"
    using assms(2) [of s e] assms(2) [of s EIO]
    by (auto simp: sys_def Let_def split: sum.splits prod.splits if_splits)
next
  fix s x s' assume "P s" "sys act s = (Inr x, s')"
  then show "Q x s'"
    using assms(1) [of s x]
    by (auto simp: sys_def Let_def split: sum.splits prod.splits if_splits)
qed

lemma all_states_simps [simp]:
  "all_states J (s\<lparr>faults := fl\<rparr>) = all_states J s"
  "all_states J (s\<lparr>rnd := r\<rparr>) = all_states J s"
  "all_states J (s\<lparr>faults := fl, fsys := f, trace := f # trace s\<rparr>) \<longleftrightarrow> J f \<and> list_all J (trace s)"
  by (auto simp: all_states_def)

text \<open>A call that does not touch the file system.\<close>

lemma valid_sys_read:
  assumes "\<And>f x f'. act f = Inr (x, f') \<Longrightarrow> f' = f"
  shows "valid (all_states J) (sys act) (\<lambda>_. all_states J) (\<lambda>_. all_states J)"
  by (rule valid_sys) (auto simp: all_states_def dest: assms)

lemma at_path_read:
  "(\<And>q f x f'. act q f = Inr (x, f') \<Longrightarrow> f' = f) \<Longrightarrow> at_path fol p act f = Inr (x, f') \<Longrightarrow> f' = f"
  by (auto simp: at_path_def split: sum.splits option.splits)

lemma os_lstat_keeps [wp]: "keeps (all_states J) (os_lstat p)"
  unfolding os_lstat_def
  by (rule valid_sys_read) (auto simp: lstat_act_def split: option.splits dest!: at_path_read [rotated])

lemma os_stat_keeps [wp]: "keeps (all_states J) (os_stat p)"
  unfolding os_stat_def
  by (rule valid_sys_read) (auto simp: lstat_act_def split: option.splits dest!: at_path_read [rotated])

lemma os_read_keeps [wp]: "keeps (all_states J) (os_read p)"
  unfolding os_read_def
  by (rule valid_sys_read)
    (auto simp: read_act_def split: option.splits node.splits dest!: at_path_read [rotated])

lemma os_fsync_keeps [wp]: "keeps (all_states J) os_fsync"
  unfolding os_fsync_def by (rule valid_sys_read) simp

end
