(* ===== verification/Atomic_File.thy ===== *)
theory Atomic_File
  imports Py_Os
begin

text \<open>
  Reasoning about the calls that stage a file beside its target and rename it into place, which
  the writer, the state store, the origin store, the backups and the rendered configuration all
  use.  Everything happens in one real directory \<open>d\<close>, so an assertion speaks about the view of
  that directory: the node under each name.  \<open>G\<close> holds in every state of the trace (a crash can
  stop there), \<open>R\<close> holds now.
\<close>

definition view :: "path \<Rightarrow> fs \<Rightarrow> string \<Rightarrow> node option" where
  "view d f x = node_at f (d @ [x])"

definition child_of :: "path \<Rightarrow> path \<Rightarrow> bool" where
  "child_of d q \<longleftrightarrow> q \<noteq> [] \<and> butlast q = d"

lemma child_of_snoc [simp]: "child_of d (e @ [x]) \<longleftrightarrow> e = d" "\<not> child_of d []"
  by (auto simp: child_of_def)

text \<open>
  The base of an assertion: how the paths outside \<open>d\<close> look, and the trace when it was made.  A state
  satisfies \<open>since T J\<close> when \<open>J\<close> holds now and in every state the trace gained after \<open>T\<close>.
\<close>

type_synonym base = "(path \<Rightarrow> node option) \<times> fs list"

definition since :: "fs list \<Rightarrow> (fs \<Rightarrow> bool) \<Rightarrow> os \<Rightarrow> bool" where
  "since T J s \<longleftrightarrow> J (fsys s) \<and> (\<exists>new. trace s = new @ T \<and> list_all J new)"

lemma since_mono: "since T J s \<Longrightarrow> (\<And>f. J f \<Longrightarrow> J' f) \<Longrightarrow> since T J' s"
  by (auto simp: since_def list_all_iff)

lemma since_ext [simp]:
  "since T J (s\<lparr>faults := fl\<rparr>) = since T J s" "since T J (s\<lparr>rnd := r\<rparr>) = since T J s"
  by (simp_all add: since_def)

lemma since_start: "J (fsys s) \<Longrightarrow> since (trace s) J s"
  by (simp add: since_def)

lemma since_step: "since T J s \<Longrightarrow> J f \<Longrightarrow> since T J (s\<lparr>faults := fl, fsys := f, trace := f # trace s\<rparr>)"
  unfolding since_def by (auto intro: exI [where x = "f # new" for new])

lemma since_now: "since T J s \<Longrightarrow> J (fsys s)"
  by (simp add: since_def)

lemma since_trans:
  "since T J s \<Longrightarrow> since (trace s) J' s' \<Longrightarrow> (\<And>f. J' f \<Longrightarrow> J f) \<Longrightarrow> since T J s'"
  unfolding since_def by (auto simp: list_all_iff)

definition outside :: "base \<Rightarrow> path \<Rightarrow> fs \<Rightarrow> bool" where
  "outside B d f \<longleftrightarrow> (\<forall>q. \<not> child_of d q \<longrightarrow> node_at f q = fst B q)"

definition dirst :: "base \<Rightarrow> path \<Rightarrow> ((string \<Rightarrow> node option) \<Rightarrow> bool) \<Rightarrow> ((string \<Rightarrow> node option) \<Rightarrow> bool) \<Rightarrow> os \<Rightarrow> bool" where
  "dirst B d G R s \<longleftrightarrow>
     since (snd B) (\<lambda>f. plain_dir f d \<and> outside B d f \<and> G (view d f)) s \<and> R (view d (fsys s))"

lemma dirst_mono: "dirst B d G R s \<Longrightarrow> (\<And>v. G v \<Longrightarrow> R v \<Longrightarrow> R' v) \<Longrightarrow> dirst B d G R' s"
  by (auto simp: dirst_def dest: since_now)

lemma dirst_ext [simp]: "dirst B d G R (s\<lparr>rnd := r\<rparr>) = dirst B d G R s"
  by (simp add: dirst_def)

lemma dirst_now: "dirst B d G R s \<Longrightarrow> plain_dir (fsys s) d \<and> outside B d (fsys s) \<and> G (view d (fsys s)) \<and> R (view d (fsys s))"
  by (auto simp: dirst_def dest: since_now)

lemma dir_call:
  assumes "\<And>f r f'. plain_dir f d \<Longrightarrow> G (view d f) \<Longrightarrow> R (view d f) \<Longrightarrow> act f = Inr (r, f') \<Longrightarrow>
      plain_dir f' d \<and> (\<forall>q. \<not> child_of d q \<longrightarrow> node_at f' q = node_at f q) \<and> G (view d f') \<and> Q r (view d f')"
  shows "valid (dirst B d G R) (sys act) (\<lambda>r. dirst B d G (Q r)) (\<lambda>_. dirst B d G R)"
proof (rule valid_sys)
  fix s x f assume s: "dirst B d G R s" "act (fsys s) = Inr (x, f)"
  have "plain_dir f d \<and> (\<forall>q. \<not> child_of d q \<longrightarrow> node_at f q = node_at (fsys s) q) \<and> G (view d f) \<and> Q x (view d f)"
    using dirst_now [OF s(1)] s(2) by (intro assms) auto
  with s dirst_now [OF s(1)] show "dirst B d G (Q x) (s\<lparr>faults := tl (faults s), fsys := f, trace := f # trace s\<rparr>)"
    by (auto simp: dirst_def outside_def intro!: since_step)
qed (auto simp: dirst_def)

lemma view_update: "q = d @ [x] \<Longrightarrow> view d (AList.update q n f) = (view d f)(x := Some n)"
  by (auto simp: view_def fun_eq_iff)

lemma view_delete: "q = d @ [x] \<Longrightarrow> view d (AList.delete q f) = (view d f)(x := None)"
  by (auto simp: view_def fun_eq_iff)

lemma plain_dir_child_update: "plain_dir f d \<Longrightarrow> plain_dir (AList.update (d @ [x]) n f) d"
  by (rule plain_dir_update) (auto dest: take_neq_child)

lemma plain_dir_child_delete: "plain_dir f d \<Longrightarrow> plain_dir (AList.delete (d @ [x]) f) d"
  by (rule plain_dir_delete) (auto dest: take_neq_child)

lemmas child_simps = at_path_child view_update view_delete plain_dir_child_update plain_dir_child_delete

section \<open>The calls on one name of the directory\<close>

lemma dir_chmod:
  assumes "plain_name x" and "\<And>v t. R v \<Longrightarrow> v x \<noteq> Some (NLink t)"
    and "\<And>v. R v \<Longrightarrow> G v \<Longrightarrow> Q v"
    and "\<And>v e m'. R v \<Longrightarrow> G v \<Longrightarrow> v x = Some (NFile e m') \<Longrightarrow>
      G (v(x := Some (NFile e m))) \<and> Q (v(x := Some (NFile e m)))"
  shows "valid (dirst B d G R) (os_chmod (d @ [x]) m) (\<lambda>_. dirst B d G Q) (\<lambda>_. dirst B d G R)"
  unfolding os_chmod_def
proof (rule dir_call)
  fix f r f' assume f: "plain_dir f d" "G (view d f)" "R (view d f)"
    and a: "at_path True (d @ [x]) (chmod_act m) f = Inr (r, f')"
  have "chmod_act m (d @ [x]) f = Inr (r, f')"
    using a assms(2) [OF f(3)] by (simp add: at_path_child [OF f(1)] assms(1) view_def)
  then show "plain_dir f' d \<and> (\<forall>q. \<not> child_of d q \<longrightarrow> node_at f' q = node_at f q) \<and> G (view d f') \<and> Q (view d f')"
    using f assms(3,4)
    by (auto simp: chmod_act_def child_simps view_def [symmetric] split: option.splits node.splits)
qed

lemma dir_write:
  assumes "plain_name x"
    and "\<And>v e m. R v \<Longrightarrow> G v \<Longrightarrow> v x = Some (NFile e m) \<Longrightarrow>
      G (v(x := Some (NFile data m))) \<and> Q (v(x := Some (NFile data m)))"
  shows "valid (dirst B d G R) (os_write (d @ [x]) data) (\<lambda>_. dirst B d G Q) (\<lambda>_. dirst B d G R)"
  unfolding os_write_def
proof (rule dir_call)
  fix f r f' assume f: "plain_dir f d" "G (view d f)" "R (view d f)"
    and a: "at_path False (d @ [x]) (write_act data) f = Inr (r, f')"
  have "write_act data (d @ [x]) f = Inr (r, f')"
    using a by (simp add: at_path_child [OF f(1)] assms(1))
  then show "plain_dir f' d \<and> (\<forall>q. \<not> child_of d q \<longrightarrow> node_at f' q = node_at f q) \<and> G (view d f') \<and> Q (view d f')"
    using f assms(2)
    by (auto simp: write_act_def child_simps view_def [symmetric] split: option.splits node.splits)
qed

lemma dir_unlink:
  assumes "plain_name x" and "\<And>v. R v \<Longrightarrow> G v \<Longrightarrow> v x = None \<Longrightarrow> Q v"
    and "\<And>v. R v \<Longrightarrow> G v \<Longrightarrow> G (v(x := None)) \<and> Q (v(x := None))"
  shows "valid (dirst B d G R) (os_unlink ok (d @ [x])) (\<lambda>_. dirst B d G Q) (\<lambda>_. dirst B d G R)"
  unfolding os_unlink_def
proof (rule dir_call)
  fix f r f' assume f: "plain_dir f d" "G (view d f)" "R (view d f)"
    and a: "at_path False (d @ [x]) (unlink_act ok) f = Inr (r, f')"
  have "unlink_act ok (d @ [x]) f = Inr (r, f')"
    using a by (simp add: at_path_child [OF f(1)] assms(1))
  then show "plain_dir f' d \<and> (\<forall>q. \<not> child_of d q \<longrightarrow> node_at f' q = node_at f q) \<and> G (view d f') \<and> Q (view d f')"
    using f assms(2,3)
    by (auto simp: unlink_act_def child_simps view_def [symmetric] split: option.splits node.splits if_splits)
qed

lemma dir_replace:
  assumes "plain_name x" "plain_name y" "x \<noteq> y"
    and "\<And>v n. R v \<Longrightarrow> G v \<Longrightarrow> v x = Some n \<Longrightarrow> n \<noteq> NDir \<Longrightarrow>
      G (v(x := None, y := Some n)) \<and> Q (v(x := None, y := Some n))"
  shows "valid (dirst B d G R) (os_replace (d @ [x]) (d @ [y])) (\<lambda>_. dirst B d G Q) (\<lambda>_. dirst B d G R)"
  unfolding os_replace_def
proof (rule dir_call)
  fix f r f' assume f: "plain_dir f d" "G (view d f)" "R (view d f)"
    and a: "at_path False (d @ [x]) (\<lambda>a f. at_path False (d @ [y]) (\<lambda>b f. replace_act a b f) f) f = Inr (r, f')"
  have "replace_act (d @ [x]) (d @ [y]) f = Inr (r, f')"
    using a by (simp add: at_path_child [OF f(1)] assms(1,2))
  then show "plain_dir f' d \<and> (\<forall>q. \<not> child_of d q \<longrightarrow> node_at f' q = node_at f q) \<and> G (view d f') \<and> Q (view d f')"
    using f assms(3,4)
    by (auto simp: replace_act_def child_simps view_def [symmetric] split: option.splits node.splits if_splits)
qed

lemma dir_read:
  assumes "plain_name x" and "\<And>v t. R v \<Longrightarrow> v x \<noteq> Some (NLink t)"
  shows "valid (dirst B d G R) (os_read (d @ [x]))
    (\<lambda>e. dirst B d G (\<lambda>v. R v \<and> (\<exists>m. v x = Some (NFile e m)))) (\<lambda>_. dirst B d G R)"
  unfolding os_read_def
proof (rule dir_call)
  fix f r f' assume f: "plain_dir f d" "G (view d f)" "R (view d f)"
    and a: "at_path True (d @ [x]) read_act f = Inr (r, f')"
  have "read_act (d @ [x]) f = Inr (r, f')"
    using a assms(2) [OF f(3)] by (simp add: at_path_child [OF f(1)] assms(1) view_def)
  then show "plain_dir f' d \<and> (\<forall>q. \<not> child_of d q \<longrightarrow> node_at f' q = node_at f q) \<and> G (view d f') \<and> R (view d f') \<and> (\<exists>m. view d f' x = Some (NFile r m))"
    using f by (auto simp: read_act_def view_def split: option.splits node.splits)
qed

lemma dir_lstat:
  assumes "plain_name x"
  shows "valid (dirst B d G R) (os_lstat (d @ [x]))
    (\<lambda>n. dirst B d G (\<lambda>v. R v \<and> v x = Some n)) (\<lambda>_. dirst B d G R)"
  unfolding os_lstat_def
proof (rule dir_call)
  fix f r f' assume f: "plain_dir f d" "G (view d f)" "R (view d f)"
    and a: "at_path False (d @ [x]) lstat_act f = Inr (r, f')"
  have "lstat_act (d @ [x]) f = Inr (r, f')"
    using a by (simp add: at_path_child [OF f(1)] assms(1))
  then show "plain_dir f' d \<and> (\<forall>q. \<not> child_of d q \<longrightarrow> node_at f' q = node_at f q) \<and> G (view d f') \<and> R (view d f') \<and> view d f' x = Some r"
    using f by (auto simp: lstat_act_def view_def split: option.splits)
qed

text \<open>\<open>lstat\<close> reports a missing file only when there is none.\<close>

lemma dir_lstat_missing:
  assumes "plain_name x"
  shows "valid (dirst B d G R) (os_lstat (d @ [x]))
    (\<lambda>n. dirst B d G (\<lambda>v. R v \<and> v x = Some n))
    (\<lambda>e. dirst B d G (\<lambda>v. R v \<and> (e = ENOENT \<longrightarrow> v x = None)))"
proof (rule validI)
  fix s e s' assume s: "dirst B d G R s" "os_lstat (d @ [x]) s = (Inl e, s')"
  have pl: "plain_dir (fsys s) d" using dirst_now [OF s(1)] by blast
  have s': "s' = s\<lparr>faults := tl (faults s)\<rparr>"
    using s(2) by (auto simp: os_lstat_def sys_def Let_def split: sum.splits prod.splits if_splits)
  have "e = ENOENT \<longrightarrow> view d (fsys s) x = None"
    using s(2) by (auto simp: os_lstat_def sys_def Let_def at_path_child [OF pl] assms lstat_act_def view_def
        split: if_splits option.splits)
  then show "dirst B d G (\<lambda>v. R v \<and> (e = ENOENT \<longrightarrow> v x = None)) s'"
    using s(1) s' by (simp add: dirst_def)
qed (use valid_Inr [OF dir_lstat [OF assms]] in blast)

lemma dir_fsync: "keeps (dirst B d G R) os_fsync"
  unfolding os_fsync_def by (rule dir_call) auto

lemma dir_stat: "keeps (dirst B d G R) (os_stat p)"
  unfolding os_stat_def
  by (rule dir_call) (auto simp: lstat_act_def split: option.splits dest!: at_path_read [rotated])

lemma dir_mkstemp:
  assumes plain: "\<And>t. plain_name (pre @ t @ suf)"
    and G: "\<And>v t. R v \<Longrightarrow> G v \<Longrightarrow> v (pre @ t @ suf) = None \<Longrightarrow>
      G (v(pre @ t @ suf := Some (NFile [] 384)))"
  shows "valid (dirst B d G R) (os_mkstemp d pre suf)
    (\<lambda>p. dirst B d G (\<lambda>v. \<exists>t v'. p = d @ [pre @ t @ suf] \<and> R v' \<and> v' (pre @ t @ suf) = None
       \<and> v = v'(pre @ t @ suf := Some (NFile [] 384)))) (\<lambda>_. dirst B d G R)"
proof -
  have create: "valid (dirst B d G R) (sys (at_path False (d @ [x]) (create_act 384)))
      (\<lambda>_. dirst B d G (\<lambda>v. \<exists>t v'. d @ [x] = d @ [pre @ t @ suf] \<and> R v' \<and> v' (pre @ t @ suf) = None
         \<and> v = v'(pre @ t @ suf := Some (NFile [] 384)))) (\<lambda>_. dirst B d G R)"
    if x: "x = pre @ t @ suf" for x t
  proof (rule dir_call)
    fix f r f' assume f: "plain_dir f d" "G (view d f)" "R (view d f)"
      and a: "at_path False (d @ [x]) (create_act 384) f = Inr (r, f')"
    have "create_act 384 (d @ [x]) f = Inr (r, f')"
      using a by (simp add: at_path_child [OF f(1)] plain x)
    then show "plain_dir f' d \<and> (\<forall>q. \<not> child_of d q \<longrightarrow> node_at f' q = node_at f q) \<and> G (view d f') \<and> (\<exists>t v'. d @ [x] = d @ [pre @ t @ suf] \<and> R v'
        \<and> v' (pre @ t @ suf) = None \<and> view d f' = v'(pre @ t @ suf := Some (NFile [] 384)))"
      using f x G [of "view d f" t]
      by (auto simp: create_act_def child_simps view_def [symmetric] split: if_splits)
  qed
  show ?thesis
  proof (rule validI)
    fix s e s' assume s: "dirst B d G R s" "os_mkstemp d pre suf s = (Inl e, s')"
    show "dirst B d G R s'"
    proof (cases "free_token (fsys s) d pre suf (rnd s)")
      case (Some nt)
      obtain n ts where nt: "nt = (n, ts)" by (cases nt)
      with Some obtain t where "n = pre @ t @ suf" using free_token_fresh by blast
      note n = nt this
      have "dirst B d G R (s\<lparr>rnd := ts\<rparr>)" using s(1) by simp
      from valid_Inl [OF create [OF n(2)] this] show ?thesis
        using s(2) Some n by (auto simp: os_mkstemp_def bnd_app split: sum.splits prod.splits)
    qed (use s in \<open>auto simp: os_mkstemp_def\<close>)
  next
    fix s p s' assume s: "dirst B d G R s" "os_mkstemp d pre suf s = (Inr p, s')"
    then obtain n ts where n': "free_token (fsys s) d pre suf (rnd s) = Some (n, ts)"
      by (auto simp: os_mkstemp_def split: option.splits)
    then obtain t where "n = pre @ t @ suf" using free_token_fresh by blast
    note n = n' this
    have pre: "dirst B d G R (s\<lparr>rnd := ts\<rparr>)" using s(1) by simp
    have "bnd (sys (at_path False (d @ [n]) (create_act 384))) (\<lambda>_. ret (d @ [n])) (s\<lparr>rnd := ts\<rparr>)
        = (Inr p, s')"
      using s(2) n(1) by (simp add: os_mkstemp_def)
    then have "\<exists>u. sys (at_path False (d @ [n]) (create_act 384)) (s\<lparr>rnd := ts\<rparr>) = (Inr u, s') \<and> p = d @ [n]"
      by (auto simp: bnd_Inr)
    then obtain u where "sys (at_path False (d @ [n]) (create_act 384)) (s\<lparr>rnd := ts\<rparr>) = (Inr u, s')"
      and p: "p = d @ [n]" by (elim exE conjE) (rule that)
    from valid_Inr [OF create [OF n(2)] pre this(1)]
    show "dirst B d G (\<lambda>v. \<exists>t v'. p = d @ [pre @ t @ suf] \<and> R v' \<and> v' (pre @ t @ suf) = None
       \<and> v = v'(pre @ t @ suf := Some (NFile [] 384))) s'"
      unfolding p .
  qed
qed

section \<open>Creating the directory when it exists already\<close>

lemma resolve_prefix:
  assumes "plain_dir f d" "n \<le> length d"
  shows "resolve k f fol [] (take n d) = Inr (take n d)"
proof -
  have "plain_dir f (take n d @ drop n d)" using assms by simp
  then have "plain_dir f (take n d)" by (rule plain_dir_prefix)
  then show ?thesis using resolve_plain [of f "take n d" k fol "[]"] by simp
qed

lemma dir_mkdir_parents: "keeps (dirst B d G R) (mkdir_parents d)"
proof -
  have mk: "keeps (dirst B d G R) (os_mkdir p)" if "p \<in> set (prefixes_of d)" for p
    unfolding os_mkdir_def
  proof (rule dir_call)
    fix f r f' assume f: "plain_dir f d" "G (view d f)" "R (view d f)"
      and a: "at_path False p mkdir_act f = Inr (r, f')"
    have "\<exists>n. p = take n d \<and> n \<le> length d" using that unfolding prefixes_of_def by auto
    then obtain n where n: "p = take n d" "n \<le> length d" by blast
    have "node_at f p = Some NDir" using f(1) n by (auto simp: plain_dir_def is_dir_def)
    then show "plain_dir f' d \<and> (\<forall>q. \<not> child_of d q \<longrightarrow> node_at f' q = node_at f q) \<and> G (view d f') \<and> R (view d f')"
      using a f n resolve_prefix [OF f(1) n(2)]
      by (auto simp: at_path_def mkdir_act_def split: option.splits)
  qed
  have "keeps (dirst B d G R) (ensure_dir p)" if "p \<in> set (prefixes_of d)" for p
    unfolding ensure_dir_def
    by (rule valid_catch [OF mk [OF that]])
      (auto intro!: valid_if valid_bnd [OF dir_stat] valid_ret valid_raise)
  then show ?thesis unfolding mkdir_parents_def by (rule valid_for_each)
qed

end
