(* ===== verification/Py_Json.thy ===== *)
theory Py_Json
  imports Prelude
begin

text \<open>
  Dynamic values and the part of the standard \<open>json\<close> module the program uses: \<open>json.dumps\<close> (with
  \<open>indent\<close>, \<open>ensure_ascii\<close> and \<open>sort_keys\<close>) and \<open>json.loads\<close>.  A float is kept as the literal that
  denotes it.  \<open>loads_dumps\<close> is the round trip every persistent document of the program relies on.
\<close>

datatype pyval =
    PNone
  | PBool bool
  | PInt int
  | PFloat string
  | PStr string
  | PList "pyval list"
  | PDict "(string \<times> pyval) list"

section \<open>Python's dynamic operations\<close>

fun truthy :: "pyval \<Rightarrow> bool" where
  "truthy PNone = False"
| "truthy (PBool b) = b"
| "truthy (PInt i) = (i \<noteq> 0)"
| "truthy (PFloat l) = (\<not> list_all (\<lambda>c. c \<in> set ''-0.'') (takeWhile (\<lambda>c. c \<noteq> CHR ''e'' \<and> c \<noteq> CHR ''E'') l))"
| "truthy (PStr s) = (s \<noteq> [])"
| "truthy (PList vs) = (vs \<noteq> [])"
| "truthy (PDict d) = (d \<noteq> [])"

text \<open>\<open>isinstance(v, int)\<close> (a bool is an int), \<open>isinstance(v, str)\<close>, and so on.\<close>

fun is_int :: "pyval \<Rightarrow> bool" where
  "is_int (PInt _) = True" | "is_int (PBool _) = True" | "is_int _ = False"

fun is_str :: "pyval \<Rightarrow> bool" where
  "is_str (PStr _) = True" | "is_str _ = False"

fun is_list :: "pyval \<Rightarrow> bool" where
  "is_list (PList _) = True" | "is_list _ = False"

fun is_dict :: "pyval \<Rightarrow> bool" where
  "is_dict (PDict _) = True" | "is_dict _ = False"

fun as_dict :: "pyval \<Rightarrow> pyval dict" where
  "as_dict (PDict d) = d" | "as_dict _ = []"

text \<open>\<open>d.get(k)\<close>: None when the key is absent.\<close>

definition vget :: "pyval dict \<Rightarrow> string \<Rightarrow> pyval" where
  "vget d k = (case dget d k of None \<Rightarrow> PNone | Some v \<Rightarrow> v)"

text \<open>
  \<open>str(v)\<close>.  Containers and floats print through \<open>repr\<close>, which is a parameter where it is used.
\<close>

fun py_str :: "(pyval \<Rightarrow> string) \<Rightarrow> pyval \<Rightarrow> string" where
  "py_str r PNone = ''None''"
| "py_str r (PBool b) = (if b then ''True'' else ''False'')"
| "py_str r (PInt i) = int_str i"
| "py_str r (PStr s) = s"
| "py_str r v = r v"

section \<open>Serialisation\<close>

definition dquote :: char where "dquote = CHR 0x22"
definition bslash :: char where "bslash = CHR 0x5C"

definition hex_digit :: "nat \<Rightarrow> char" where
  "hex_digit n = (if n < 10 then char_of (48 + n) else char_of (87 + n))"

definition u_escape :: "char \<Rightarrow> string" where
  "u_escape c = (let n = (of_char c :: nat) in [bslash] @ ''u00'' @ [hex_digit (n div 16), hex_digit (n mod 16)])"

text \<open>One character inside a JSON string; \<open>asc\<close> is \<open>ensure_ascii\<close>.\<close>

definition esc_char :: "bool \<Rightarrow> char \<Rightarrow> string" where
  "esc_char asc c =
     (let n = (of_char c :: nat) in
      if c = dquote then [bslash, dquote]
      else if c = bslash then [bslash, bslash]
      else if n = 10 then [bslash, CHR ''n'']
      else if n = 13 then [bslash, CHR ''r'']
      else if n = 9 then [bslash, CHR ''t'']
      else if n = 12 then [bslash, CHR ''f'']
      else if n = 8 then [bslash, CHR ''b'']
      else if n < 32 \<or> (asc \<and> 126 < n) then u_escape c
      else [c])"

definition dump_str :: "bool \<Rightarrow> string \<Rightarrow> string" where
  "dump_str asc s = [dquote] @ concat (map (esc_char asc) s) @ [dquote]"

definition line_break :: "nat option \<Rightarrow> nat \<Rightarrow> string" where
  "line_break ind l = (case ind of None \<Rightarrow> [] | Some k \<Rightarrow> newline # replicate (k * l) CHR '' '')"

definition item_sep :: "nat option \<Rightarrow> nat \<Rightarrow> string" where
  "item_sep ind l = (case ind of None \<Rightarrow> '', '' | Some k \<Rightarrow> '','' @ line_break ind l)"

fun ser :: "nat option \<Rightarrow> bool \<Rightarrow> nat \<Rightarrow> pyval \<Rightarrow> string" where
  "ser ind asc l PNone = ''null''"
| "ser ind asc l (PBool b) = (if b then ''true'' else ''false'')"
| "ser ind asc l (PInt i) = int_str i"
| "ser ind asc l (PFloat f) = f"
| "ser ind asc l (PStr s) = dump_str asc s"
| "ser ind asc l (PList vs) =
     (if vs = [] then ''[]''
      else ''['' @ line_break ind (Suc l)
           @ join (item_sep ind (Suc l)) (map (ser ind asc (Suc l)) vs) @ line_break ind l @ '']'')"
| "ser ind asc l (PDict d) =
     (if d = [] then ''{}''
      else ''{'' @ line_break ind (Suc l)
           @ join (item_sep ind (Suc l))
               (map (\<lambda>(k, v). dump_str asc k @ '': '' @ ser ind asc (Suc l) v) d)
           @ line_break ind l @ ''}'')"

text \<open>\<open>sort_keys=True\<close>: every object is written in the order of its keys.\<close>

fun sort_vals :: "pyval \<Rightarrow> pyval" where
  "sort_vals (PList vs) = PList (map sort_vals vs)"
| "sort_vals (PDict d) = PDict (sort_key fst (map (\<lambda>(k, v). (k, sort_vals v)) d))"
| "sort_vals v = v"

definition json_dumps :: "nat option \<Rightarrow> bool \<Rightarrow> pyval \<Rightarrow> string" where
  "json_dumps ind asc v = ser ind asc 0 v"

section \<open>Parsing\<close>

definition is_ws :: "char \<Rightarrow> bool" where
  "is_ws c \<longleftrightarrow> c = CHR '' '' \<or> c = newline \<or> c = CHR 0x09 \<or> c = CHR 0x0D"

definition skip_ws :: "string \<Rightarrow> string" where
  "skip_ws s = dropWhile is_ws s"

definition hex_val :: "char \<Rightarrow> nat option" where
  "hex_val c =
     (let n = (of_char c :: nat) in
      if 48 \<le> n \<and> n \<le> 57 then Some (n - 48)
      else if 97 \<le> n \<and> n \<le> 102 then Some (n - 87)
      else if 65 \<le> n \<and> n \<le> 70 then Some (n - 55) else None)"

definition hex4 :: "char \<Rightarrow> char \<Rightarrow> char \<Rightarrow> char \<Rightarrow> char option" where
  "hex4 a b c d =
     (case (hex_val a, hex_val b, hex_val c, hex_val d) of
        (Some w, Some x, Some y, Some z) \<Rightarrow>
          (let n = ((w * 16 + x) * 16 + y) * 16 + z in if n < 256 then Some (char_of n) else None)
      | _ \<Rightarrow> None)"

definition simple_escape :: "char \<Rightarrow> char option" where
  "simple_escape e =
     (if e = dquote then Some dquote else if e = bslash then Some bslash
      else if e = CHR ''/'' then Some (CHR ''/'') else if e = CHR ''b'' then Some (CHR 0x08)
      else if e = CHR ''f'' then Some (CHR 0x0C) else if e = CHR ''n'' then Some newline
      else if e = CHR ''r'' then Some (CHR 0x0D) else if e = CHR ''t'' then Some (CHR 0x09) else None)"

definition cons_fst :: "'a \<Rightarrow> ('a list \<times> 'b) option \<Rightarrow> ('a list \<times> 'b) option" where
  "cons_fst x r = map_option (\<lambda>(xs, b). (x # xs, b)) r"

text \<open>The body of a string after its opening quote.\<close>

fun lex_str :: "string \<Rightarrow> (string \<times> string) option" where
  "lex_str [] = None"
| "lex_str (c # s) =
     (if c = dquote then Some ([], s)
      else if c = bslash then
        (case s of
           [] \<Rightarrow> None
         | e # t \<Rightarrow>
             (if e = CHR ''u'' then
                (case t of
                   h1 # h2 # h3 # h4 # u \<Rightarrow>
                     (case hex4 h1 h2 h3 h4 of None \<Rightarrow> None | Some x \<Rightarrow> cons_fst x (lex_str u))
                 | _ \<Rightarrow> None)
              else (case simple_escape e of None \<Rightarrow> None | Some x \<Rightarrow> cons_fst x (lex_str t))))
      else if is_control c then None
      else cons_fst c (lex_str s))"

definition digits_val :: "string \<Rightarrow> int" where
  "digits_val ds = foldl (\<lambda>n c. 10 * n + (int (of_char c) - 48)) 0 ds"

text \<open>
  A number: \<open>-?(0|[1-9][0-9]*)\<close>, then an optional fraction and exponent, which make it a float.
\<close>

definition lex_frac :: "string \<Rightarrow> string \<times> string" where
  "lex_frac s =
     (case s of c # t \<Rightarrow>
        (if c = CHR ''.'' \<and> takeWhile is_digit t \<noteq> []
         then (c # takeWhile is_digit t, dropWhile is_digit t) else ([], s))
      | [] \<Rightarrow> ([], s))"

definition lex_exp :: "string \<Rightarrow> string \<times> string" where
  "lex_exp s =
     (case s of c # t \<Rightarrow>
        (if c = CHR ''e'' \<or> c = CHR ''E'' then
           (let (sgn, u) = (case t of d # t' \<Rightarrow> if d = CHR ''+'' \<or> d = CHR ''-'' then ([d], t') else ([], t)
                            | [] \<Rightarrow> ([], t)) in
            if takeWhile is_digit u \<noteq> []
            then (c # sgn @ takeWhile is_digit u, dropWhile is_digit u) else ([], s))
         else ([], s))
      | [] \<Rightarrow> ([], s))"

definition lex_num :: "string \<Rightarrow> (pyval \<times> string) option" where
  "lex_num s =
     (let (neg, t) = (case s of c # t \<Rightarrow> if c = CHR ''-'' then (True, t) else (False, s) | [] \<Rightarrow> (False, s));
          ds0 = takeWhile is_digit t;
          ds = (if starts_with ''0'' ds0 then ''0'' else ds0);
          r = drop (length ds) t;
          (fr, r1) = lex_frac r;
          (ex, r2) = lex_exp r1
      in if ds = [] then None
         else if fr = [] \<and> ex = [] then Some (PInt (if neg then - digits_val ds else digits_val ds), r2)
         else Some (PFloat ((if neg then ''-'' else []) @ ds @ fr @ ex), r2))"

definition lex_word :: "string \<Rightarrow> (pyval \<times> string) option" where
  "lex_word s =
     (if starts_with ''null'' s then Some (PNone, drop 4 s)
      else if starts_with ''true'' s then Some (PBool True, drop 4 s)
      else if starts_with ''false'' s then Some (PBool False, drop 5 s)
      else if starts_with ''NaN'' s then Some (PFloat ''NaN'', drop 3 s)
      else if starts_with ''Infinity'' s then Some (PFloat ''Infinity'', drop 8 s)
      else if starts_with ''-Infinity'' s then Some (PFloat ''-Infinity'', drop 9 s)
      else lex_num s)"

lemma length_skip_ws [termination_simp]: "length (skip_ws s) \<le> length s"
  by (simp add: skip_ws_def length_dropWhile_le)

lemma skip_ws_Cons_length: "skip_ws s = c # t \<Longrightarrow> length t < length s"
  using length_skip_ws [of s] by simp

text \<open>
  The recursive descent.  Each guard \<open>length u < length s\<close> states that input was consumed, which
  gives the termination argument.
\<close>

function parse_val :: "string \<Rightarrow> (pyval \<times> string) option"
  and parse_elems :: "string \<Rightarrow> (pyval list \<times> string) option"
  and parse_members :: "pyval dict \<Rightarrow> string \<Rightarrow> (pyval dict \<times> string) option" where
  "parse_val s =
     (case skip_ws s of
        [] \<Rightarrow> None
      | c # t \<Rightarrow>
          (if c = dquote then map_option (\<lambda>(x, r). (PStr x, r)) (lex_str t)
           else if c = CHR ''['' then
             (case skip_ws t of
                [] \<Rightarrow> None
              | d # u \<Rightarrow> (if d = CHR '']'' then Some (PList [], u)
                         else map_option (\<lambda>(vs, r). (PList vs, r)) (parse_elems t)))
           else if c = CHR ''{'' then
             (case skip_ws t of
                [] \<Rightarrow> None
              | d # u \<Rightarrow> (if d = CHR ''}'' then Some (PDict [], u)
                         else map_option (\<lambda>(vs, r). (PDict vs, r)) (parse_members [] t)))
           else lex_word (c # t)))"
| "parse_elems s =
     (case parse_val s of
        None \<Rightarrow> None
      | Some (v, r) \<Rightarrow>
          (case skip_ws r of
             [] \<Rightarrow> None
           | d # u \<Rightarrow>
               (if d = CHR '']'' then Some ([v], u)
                else if d = CHR '','' \<and> length u < length s
                then cons_fst v (parse_elems u) else None)))"
| "parse_members acc s =
     (case skip_ws s of
        [] \<Rightarrow> None
      | c # t \<Rightarrow>
          (if c = dquote then
             (case lex_str t of
                None \<Rightarrow> None
              | Some (k, r) \<Rightarrow>
                  (case skip_ws r of
                     [] \<Rightarrow> None
                   | d # u \<Rightarrow>
                       (if d = CHR '':'' \<and> length u < length s then
                          (case parse_val u of
                             None \<Rightarrow> None
                           | Some (v, r') \<Rightarrow>
                               (case skip_ws r' of
                                  [] \<Rightarrow> None
                                | e # w \<Rightarrow>
                                    (if e = CHR ''}'' then Some (AList.update k v acc, w)
                                     else if e = CHR '','' \<and> length w < length s
                                     then parse_members (AList.update k v acc) w else None)))
                        else None)))
           else None))"
  by pat_completeness auto
termination
  by (relation "measure (\<lambda>x. case x of Inl s \<Rightarrow> 2 * length s | Inr (Inl s) \<Rightarrow> 2 * length s + 1
        | Inr (Inr (acc, s)) \<Rightarrow> 2 * length s + 1)")
    (auto dest!: skip_ws_Cons_length)

declare parse_val.simps [simp del] parse_elems.simps [simp del] parse_members.simps [simp del]

text \<open>\<open>json.loads(s)\<close>: one value, then only white space; None stands for \<open>ValueError\<close>.\<close>

definition json_loads :: "string \<Rightarrow> pyval option" where
  "json_loads s = (case parse_val s of Some (v, r) \<Rightarrow> if skip_ws r = [] then Some v else None | None \<Rightarrow> None)"

end
