(* ===== verification/Json_Roundtrip.thy ===== *)
theory Json_Roundtrip
  imports Py_Json
begin

text \<open>
  \<open>json.loads (json.dumps v) = v\<close> for every document without floats whose objects have distinct
  keys: strings, integers, then values by induction.  \<open>json_codec\<close> is the interface the persistent
  stores rely on; the standard module's model interprets it.
\<close>

fun storable :: "pyval \<Rightarrow> bool" where
  "storable (PFloat _) = False"
| "storable (PList vs) = (\<forall>v \<in> set vs. storable v)"
| "storable (PDict d) = (distinct (map fst d) \<and> (\<forall>(k, v) \<in> set d. storable v))"
| "storable _ = True"

section \<open>Strings\<close>

lemma of_char_lt_256 [simp]: "(of_char (c :: char) :: nat) < 256"
  by (metis nat_of_char_less_256)

lemma hex_val_digit: "n < 16 \<Longrightarrow> hex_val (hex_digit n) = Some n"
  by (auto simp: hex_val_def hex_digit_def Let_def of_char_of)

lemma hex4_u: "hex4 CHR ''0'' CHR ''0'' (hex_digit (of_char c div 16)) (hex_digit (of_char c mod 16)) = Some c"
proof -
  have "(of_char c :: nat) div 16 < 16" by (rule less_mult_imp_div_less) simp
  moreover have "hex_val CHR ''0'' = Some 0" by (simp add: hex_val_def)
  ultimately show ?thesis by (simp add: hex4_def hex_val_digit)
qed

lemma lex_str_esc: "lex_str (esc_char asc c @ t) = cons_fst c (lex_str t)"
proof -
  have bq: "bslash \<noteq> dquote" by (simp add: bslash_def dquote_def)
  have esc: "lex_str (bslash # e # t) = cons_fst x (lex_str t)"
    if "simple_escape e = Some x" "e \<noteq> CHR ''u''" for e x
    using that bq by simp
  consider "c = dquote" | "c = bslash" | "(of_char c :: nat) \<in> {8, 9, 10, 12, 13}"
    | "c \<noteq> dquote" "c \<noteq> bslash" "(of_char c :: nat) \<notin> {8, 9, 10, 12, 13}"
      "(of_char c :: nat) < 32 \<or> (asc \<and> 126 < (of_char c :: nat))"
    | "c \<noteq> dquote" "c \<noteq> bslash" "\<not> (of_char c :: nat) < 32" "\<not> (asc \<and> 126 < (of_char c :: nat))"
    by blast
  then show ?thesis
  proof cases
    case 3
    then have "c = CHR 0x08 \<or> c = CHR 0x09 \<or> c = CHR 0x0A \<or> c = CHR 0x0C \<or> c = CHR 0x0D"
      by (simp add: of_char_eq_iff [where 'a = nat, symmetric] del: of_char_eq_iff)
    then show ?thesis
      by (auto simp: esc_char_def dquote_def bslash_def simple_escape_def newline_def)
  next
    case 4
    then have "esc_char asc c = u_escape c" by (auto simp: esc_char_def Let_def)
    then show ?thesis using bq by (simp add: u_escape_def Let_def hex4_u)
  next
    case 5
    then have "esc_char asc c = [c]" by (auto simp: esc_char_def Let_def)
    then show ?thesis using 5 by (simp add: is_control_def)
  qed (use bq in \<open>auto simp: esc_char_def simple_escape_def dquote_def bslash_def\<close>)
qed

lemma lex_str_body: "lex_str (concat (map (esc_char asc) s) @ dquote # r) = Some (s, r)"
  by (induction s) (simp_all add: lex_str_esc cons_fst_def del: lex_str.simps(2), simp)

section \<open>Integers\<close>

lemma of_char_char_of_small: "n < 256 \<Longrightarrow> (of_char (char_of n :: char) :: nat) = n"
  by simp

lemma is_digit_char: "n < (10 :: nat) \<Longrightarrow> is_digit (char_of (48 + n))"
  by (simp add: is_digit_def Let_def)

lemma nat_str_digits: "list_all is_digit (nat_str n)"
proof (induction n rule: nat_str.induct)
  case (1 n)
  then show ?case
    by (subst nat_str.simps) (auto simp: is_digit_char)
qed

lemma nat_str_not_Nil [simp]: "nat_str n \<noteq> []"
  by (subst nat_str.simps) simp

lemma digits_val_snoc: "digits_val (ds @ [c]) = 10 * digits_val ds + (int (of_char c) - 48)"
  by (simp add: digits_val_def)

lemma digits_val_nat_str: "digits_val (nat_str n) = int n"
proof (induction n rule: nat_str.induct)
  case (1 n)
  show ?case
  proof (cases "n < 10")
    case True
    then show ?thesis by (subst nat_str.simps) (simp add: digits_val_def)
  next
    case False
    then have "digits_val (nat_str n) = 10 * int (n div 10) + int (n mod 10)"
      using 1 by (subst nat_str.simps) (simp add: digits_val_snoc)
    then show ?thesis by presburger
  qed
qed

lemma nat_str_hd_zero: "starts_with ''0'' (nat_str n) \<longleftrightarrow> n = 0"
proof (induction n rule: nat_str.induct)
  case (1 n)
  show ?case
  proof (cases "n < 10")
    case True
    then have "nat_str n = [char_of (48 + n)]" by (subst nat_str.simps) simp
    moreover have "CHR ''0'' = (char_of (48 + n) :: char) \<longleftrightarrow> n = 0"
      using True by (simp add: of_char_eq_iff [where 'a = nat, symmetric] del: of_char_eq_iff)
    ultimately show ?thesis by simp
  next
    case False
    then have "nat_str n = nat_str (n div 10) @ [char_of (48 + n mod 10)]"
      by (subst nat_str.simps) simp
    moreover have "starts_with ''0'' (nat_str (n div 10) @ [x]) = starts_with ''0'' (nat_str (n div 10))" for x
      by (cases "nat_str (n div 10)") auto
    ultimately show ?thesis using 1 False by simp
  qed
qed

text \<open>What may follow a value: nothing that could continue a number.\<close>

definition value_end :: "string \<Rightarrow> bool" where
  "value_end r \<longleftrightarrow> (case r of [] \<Rightarrow> True
     | c # _ \<Rightarrow> \<not> is_digit c \<and> c \<noteq> CHR ''.'' \<and> c \<noteq> CHR ''e'' \<and> c \<noteq> CHR ''E'')"

lemma takeWhile_digits: "list_all is_digit ds \<Longrightarrow> value_end r \<Longrightarrow> takeWhile is_digit (ds @ r) = ds"
  by (cases r) (auto simp: value_end_def takeWhile_append2 list_all_iff)

lemma lex_frac_exp_end: "value_end r \<Longrightarrow> lex_frac r = ([], r)" "value_end r \<Longrightarrow> lex_exp r = ([], r)"
  by (auto simp: value_end_def lex_frac_def lex_exp_def split: list.splits)

lemma nat_str_zero: "nat_str 0 = ''0''"
  by (subst nat_str.simps)
    (simp add: of_char_eq_iff [where 'a = nat, symmetric] del: of_char_eq_iff)

lemma lex_num_nat_str:
  assumes r: "value_end r"
  shows "lex_num (nat_str n @ r) = Some (PInt (int n), r)"
    and "lex_num (CHR ''-'' # nat_str n @ r) = Some (PInt (- int n), r)"
proof -
  obtain c cs where c: "nat_str n = c # cs" by (meson neq_Nil_conv nat_str_not_Nil)
  have "is_digit c" using nat_str_digits [of n] c by simp
  then have minus: "c \<noteq> CHR ''-''" by (auto simp: is_digit_def)
  have tk: "takeWhile is_digit (nat_str n @ r) = nat_str n"
    by (rule takeWhile_digits [OF nat_str_digits r])
  have ds: "(if starts_with ''0'' (nat_str n) then ''0'' else nat_str n) = nat_str n"
    using nat_str_hd_zero [of n] by (auto simp: nat_str_zero)
  have body: "(let (neg, t) = (b, nat_str n @ r); ds0 = takeWhile is_digit t;
          ds = (if starts_with ''0'' ds0 then ''0'' else ds0);
          r = drop (length ds) t; (fr, r1) = lex_frac r; (ex, r2) = lex_exp r1
      in if ds = [] then None
         else if fr = [] \<and> ex = [] then Some (PInt (if neg then - digits_val ds else digits_val ds), r2)
         else Some (PFloat ((if neg then ''-'' else []) @ ds @ fr @ ex), r2))
       = Some (PInt (if b then - int n else int n), r)" for b
    unfolding Let_def prod.case tk ds
    by (simp add: lex_frac_exp_end [OF r] digits_val_nat_str)
  have "(case nat_str n @ r of c # t \<Rightarrow> if c = CHR ''-'' then (True, t) else (False, nat_str n @ r)
          | [] \<Rightarrow> (False, nat_str n @ r)) = (False, nat_str n @ r)"
    using c minus by simp
  then show "lex_num (nat_str n @ r) = Some (PInt (int n), r)"
    unfolding lex_num_def using body [of False] by simp
  show "lex_num (CHR ''-'' # nat_str n @ r) = Some (PInt (- int n), r)"
    unfolding lex_num_def using body [of True] by simp
qed

lemma lex_num_int: "value_end r \<Longrightarrow> lex_num (int_str i @ r) = Some (PInt i, r)"
  by (auto simp: int_str_def lex_num_nat_str)

lemma nat_str_Cons: "\<exists>c cs. nat_str n = c # cs \<and> is_digit c"
  using nat_str_digits [of n] by (cases "nat_str n") auto

lemma int_str_shape:
  "\<exists>c cs. int_str i = c # cs \<and> (is_digit c \<or> (c = CHR ''-'' \<and> (\<exists>d ds. cs = d # ds \<and> is_digit d)))"
proof (cases "i < 0")
  case True
  obtain c cs where "nat_str (nat (- i)) = c # cs" "is_digit c" using nat_str_Cons by blast
  then have "int_str i = CHR ''-'' # c # cs" "is_digit c" using True by (simp_all add: int_str_def)
  then show ?thesis by blast
next
  case False
  obtain c cs where "nat_str (nat i) = c # cs" "is_digit c" using nat_str_Cons by blast
  then have "int_str i = c # cs" "is_digit c" using False by (simp_all add: int_str_def)
  then show ?thesis by blast
qed

lemma digit_not_letter [simp]:
  "\<not> is_digit CHR ''n''" "\<not> is_digit CHR ''t''" "\<not> is_digit CHR ''f''" "\<not> is_digit CHR ''N''"
  "\<not> is_digit CHR ''I''" "\<not> is_digit CHR ''-''" "\<not> is_digit CHR ''[''" "\<not> is_digit CHR ''{''"
  "\<not> is_digit CHR '']''" "\<not> is_digit CHR ''}''" "\<not> is_digit CHR '',''" "\<not> is_digit dquote"
  "\<not> is_digit newline" "\<not> is_digit CHR '' ''"
  by (simp_all add: is_digit_def dquote_def newline_def)

lemma lex_word_int: "value_end r \<Longrightarrow> lex_word (int_str i @ r) = Some (PInt i, r)"
proof -
  assume r: "value_end r"
  obtain c cs where c: "int_str i = c # cs"
    "is_digit c \<or> (c = CHR ''-'' \<and> (\<exists>d ds. cs = d # ds \<and> is_digit d))"
    using int_str_shape [of i] by (elim exE conjE) (rule that)
  have "CHR ''n'' \<noteq> c" "CHR ''t'' \<noteq> c" "CHR ''f'' \<noteq> c" "CHR ''N'' \<noteq> c" "CHR ''I'' \<noteq> c"
    using c(2) by auto
  moreover have "\<not> starts_with ''-Infinity'' (c # cs @ r)"
    using c(2) by (elim disjE conjE exE) auto
  ultimately have "lex_word (int_str i @ r) = lex_num (int_str i @ r)"
    by (simp add: lex_word_def c(1)) blast
  then show ?thesis using lex_num_int [OF r] by simp
qed

section \<open>Values\<close>

lemma skip_ws_line_break [simp]: "skip_ws (line_break ind l @ s) = skip_ws s"
  by (auto simp: skip_ws_def line_break_def is_ws_def dropWhile_append split: option.splits)

lemma skip_ws_Cons [simp]: "\<not> is_ws c \<Longrightarrow> skip_ws (c # s) = c # s"
  by (simp add: skip_ws_def)

lemma skip_ws_space [simp]: "skip_ws (CHR '' '' # s) = skip_ws s"
  by (simp add: skip_ws_def is_ws_def)

lemma not_ws [simp]: "\<not> is_ws dquote" "\<not> is_ws CHR ''[''" "\<not> is_ws CHR ''{''" "\<not> is_ws CHR '']''"
  "\<not> is_ws CHR ''}''" "\<not> is_ws CHR '',''" "\<not> is_ws CHR '':''" "\<not> is_ws CHR ''n''"
  "\<not> is_ws CHR ''t''" "\<not> is_ws CHR ''f''" "\<not> is_ws CHR ''-''" "is_digit c \<Longrightarrow> \<not> is_ws c"
  by (auto simp: is_ws_def dquote_def newline_def is_digit_def)

lemma structural_neq [simp]: "dquote \<noteq> CHR ''[''" "dquote \<noteq> CHR ''{''" "CHR ''['' \<noteq> dquote"
  "CHR ''{'' \<noteq> dquote" "dquote \<noteq> CHR '']''" "dquote \<noteq> CHR ''}''"
  by (simp_all add: dquote_def)

lemma parse_val_skip: "parse_val (skip_ws s) = parse_val s"
proof -
  have "skip_ws (skip_ws s) = skip_ws s" by (simp add: skip_ws_def)
  then show ?thesis by (simp add: parse_val.simps [of s] parse_val.simps [of "skip_ws s"])
qed

lemma parse_val_break [simp]: "parse_val (line_break ind l @ s) = parse_val s"
  by (metis parse_val_skip skip_ws_line_break)

lemma skip_ws_append_break [simp]:
  "list_all is_ws w \<Longrightarrow> skip_ws (w @ s) = skip_ws s"
  by (induction w) (auto simp: skip_ws_def)

lemma line_break_ws: "list_all is_ws (line_break ind l)"
  by (auto simp: line_break_def is_ws_def list_all_iff split: option.splits)

lemma value_end_structural [simp]:
  "value_end []" "value_end (CHR '']'' # r)" "value_end (CHR ''}'' # r)" "value_end (CHR '','' # r)"
  "value_end (line_break ind l @ CHR '']'' # r)" "value_end (line_break ind l @ CHR ''}'' # r)"
  "value_end (item_sep ind l @ r)"
  by (auto simp: value_end_def line_break_def item_sep_def newline_def is_digit_def split: option.splits)

lemma item_sep_shape: "\<exists>w. item_sep ind l = CHR '','' # w \<and> list_all is_ws w"
  by (auto simp: item_sep_def line_break_ws is_ws_def split: option.splits)

text \<open>
  The round trip for one value, as the hypothesis of the list and object loops: whatever ends a
  value may follow.
\<close>

abbreviation reads_back :: "nat option \<Rightarrow> bool \<Rightarrow> nat \<Rightarrow> pyval \<Rightarrow> bool" where
  "reads_back ind asc l v \<equiv>
     (\<forall>w r. list_all is_ws w \<longrightarrow> value_end r \<longrightarrow> parse_val (w @ ser ind asc l v @ r) = Some (v, r))"

lemma parse_elems_ser:
  assumes "\<forall>v \<in> set vs. reads_back ind asc l v" and "vs \<noteq> []" and "list_all is_ws w" "list_all is_ws w'"
    and end_w': "value_end (w' @ CHR '']'' # r)"
  shows "parse_elems (w @ join (item_sep ind l) (map (ser ind asc l) vs) @ w' @ CHR '']'' # r) = Some (vs, r)"
  using assms
proof (induction vs arbitrary: w)
  case (Cons v vs)
  show ?case
  proof (cases vs)
    case Nil
    with Cons.prems show ?thesis by (subst parse_elems.simps) simp
  next
    case (Cons v' vs')
    obtain ws where sep: "item_sep ind l = CHR '','' # ws" "list_all is_ws ws"
      using item_sep_shape by blast
    let ?rest = "join (item_sep ind l) (map (ser ind asc l) vs) @ w' @ CHR '']'' # r"
    have IH: "parse_elems (ws @ ?rest) = Some (vs, r)"
      by (rule Cons.IH) (use Cons.prems Cons sep in auto)
    have "value_end (item_sep ind l @ ?rest)" by simp
    then have "parse_val (w @ ser ind asc l v @ item_sep ind l @ ?rest) = Some (v, item_sep ind l @ ?rest)"
      using Cons.prems by simp
    then show ?thesis
      using IH Cons sep by (subst parse_elems.simps) (simp add: cons_fst_def)
  qed
qed simp

abbreviation member_ser :: "nat option \<Rightarrow> bool \<Rightarrow> nat \<Rightarrow> string \<times> pyval \<Rightarrow> string" where
  "member_ser ind asc l \<equiv> \<lambda>(k, v). dump_str asc k @ '': '' @ ser ind asc l v"

lemma update_snoc: "k \<notin> set (keys d) \<Longrightarrow> AList.update k v d = d @ [(k, v)]"
  by (induction d) auto

lemma parse_members_ser:
  assumes "\<forall>(k, v) \<in> set d. reads_back ind asc l v" and "d \<noteq> []" and "list_all is_ws w" "list_all is_ws w'"
    and "value_end (w' @ CHR ''}'' # r)" and "distinct (keys (acc @ d))"
  shows "parse_members acc (w @ join (item_sep ind l) (map (member_ser ind asc l) d) @ w' @ CHR ''}'' # r)
      = Some (acc @ d, r)"
  using assms
proof (induction d arbitrary: w acc)
  case (Cons kv d)
  obtain k v where kv: "kv = (k, v)" by (cases kv)
  have upd: "AList.update k v acc = acc @ [(k, v)]"
    using Cons.prems(6) kv by (auto intro: update_snoc)
  have val: "parse_val (CHR '' '' # ser ind asc l v @ q) = Some (v, q)" if "value_end q" for q
  proof -
    have "list_all is_ws '' ''" by (simp add: is_ws_def)
    moreover have "reads_back ind asc l v" using Cons.prems(1) kv by simp
    ultimately have "parse_val ('' '' @ ser ind asc l v @ q) = Some (v, q)" using that by blast
    then show ?thesis by simp
  qed
  show ?case
  proof (cases d)
    case Nil
    with Cons.prems kv upd val [OF Cons.prems(5)] show ?thesis
      by (subst parse_members.simps) (simp add: dump_str_def lex_str_body)
  next
    case (Cons kv' d')
    obtain ws where sep: "item_sep ind l = CHR '','' # ws" "list_all is_ws ws"
      using item_sep_shape by blast
    let ?rest = "join (item_sep ind l) (map (member_ser ind asc l) d) @ w' @ CHR ''}'' # r"
    have IH: "parse_members (acc @ [(k, v)]) (ws @ ?rest) = Some ((acc @ [(k, v)]) @ d, r)"
      by (rule Cons.IH) (use Cons.prems Cons kv sep in auto)
    have "value_end (item_sep ind l @ ?rest)" by simp
    from val [OF this] show ?thesis
      using Cons.prems IH Cons kv upd sep
      by (subst parse_members.simps) (simp add: dump_str_def lex_str_body)
  qed
qed simp

lemma ser_hd: "storable v \<Longrightarrow> \<exists>c s. ser ind asc l v = c # s \<and> \<not> is_ws c \<and> c \<noteq> CHR '']'' \<and> c \<noteq> CHR ''}''"
proof (cases v)
  case (PInt i)
  obtain c cs where "int_str i = c # cs" "is_digit c \<or> c = CHR ''-''"
    using int_str_shape [of i] by (elim exE conjE) auto
  with PInt show ?thesis by auto
qed (auto simp: dump_str_def)

lemma parse_val_ws: "list_all is_ws w \<Longrightarrow> parse_val (w @ s) = parse_val s"
  by (metis parse_val_skip skip_ws_append_break)

lemma reads_back_storable: "storable v \<Longrightarrow> reads_back ind asc l v"
proof (induction v arbitrary: l)
  case (PInt i)
  show ?case
  proof (intro allI impI)
    fix w r assume w: "list_all is_ws w" "value_end r"
    obtain c cs where c: "int_str i = c # cs" "is_digit c \<or> c = CHR ''-''"
      using int_str_shape [of i] by (elim exE conjE) auto
    moreover have "CHR ''-'' \<noteq> dquote" by (simp add: dquote_def)
    ultimately have "c \<noteq> dquote" "c \<noteq> CHR ''[''" "c \<noteq> CHR ''{''" "\<not> is_ws c"
      by auto
    then have "parse_val (int_str i @ r) = lex_word (int_str i @ r)"
      using c by (subst parse_val.simps) simp
    then show "parse_val (w @ ser ind asc l (PInt i) @ r) = Some (PInt i, r)"
      using w by (simp add: parse_val_ws lex_word_int)
  qed
next
  case (PStr s)
  then show ?case
    by (auto simp: parse_val_ws) (subst parse_val.simps, simp add: dump_str_def lex_str_body)
next
  case (PList vs)
  show ?case
  proof (intro allI impI)
    fix w r assume w: "list_all is_ws w" "value_end r"
    show "parse_val (w @ ser ind asc l (PList vs) @ r) = Some (PList vs, r)"
    proof (cases "vs = []")
      case True
      then show ?thesis using w by (subst parse_val.simps) simp
    next
      case False
      let ?body = "line_break ind (Suc l) @ join (item_sep ind (Suc l)) (map (ser ind asc (Suc l)) vs)
        @ line_break ind l @ CHR '']'' # r"
      have all: "\<forall>v \<in> set vs. reads_back ind asc (Suc l) v" using PList by auto
      have el: "parse_elems ?body = Some (vs, r)"
        by (rule parse_elems_ser [OF all False]) (simp_all add: line_break_ws)
      obtain c s where "skip_ws ?body = c # s" "c \<noteq> CHR '']''"
      proof -
        obtain v vs' where vs: "vs = v # vs'" using False by (cases vs) auto
        then have "storable v" using PList.prems by simp
        from ser_hd [OF this, of ind asc "Suc l"] that vs show ?thesis
          by (cases vs') auto
      qed
      then show ?thesis using w False el by (subst parse_val.simps) simp
    qed
  qed
next
  case (PDict d)
  show ?case
  proof (intro allI impI)
    fix w r assume w: "list_all is_ws w" "value_end r"
    show "parse_val (w @ ser ind asc l (PDict d) @ r) = Some (PDict d, r)"
    proof (cases "d = []")
      case True
      then show ?thesis using w by (subst parse_val.simps) simp
    next
      case False
      let ?body = "line_break ind (Suc l) @ join (item_sep ind (Suc l)) (map (member_ser ind asc (Suc l)) d)
        @ line_break ind l @ CHR ''}'' # r"
      have all: "\<forall>(k, v) \<in> set d. reads_back ind asc (Suc l) v" using PDict by fastforce
      have el: "parse_members [] ?body = Some ([] @ d, r)"
        by (rule parse_members_ser [OF all False]) (use PDict.prems in \<open>simp_all add: line_break_ws\<close>)
      obtain c s where "skip_ws ?body = c # s" "c \<noteq> CHR ''}''"
        using that False by (cases d; cases "tl d") (auto simp: dump_str_def)
      then show ?thesis using w False el by (subst parse_val.simps) simp
    qed
  qed
qed (auto simp: parse_val_ws parse_val.simps lex_word_def dquote_def)

theorem loads_dumps:
  assumes "storable v"
  shows "json_loads (json_dumps ind asc v @ replicate n newline) = Some v"
proof -
  have "value_end (replicate n newline)"
    by (cases n) (auto simp: value_end_def newline_def is_digit_def)
  moreover have "list_all is_ws []" by simp
  ultimately have "parse_val ([] @ json_dumps ind asc v @ replicate n newline) = Some (v, replicate n newline)"
    using reads_back_storable [OF assms] unfolding json_dumps_def by blast
  moreover have "skip_ws (replicate n newline) = []"
    by (auto simp: skip_ws_def is_ws_def newline_def)
  ultimately show ?thesis by (simp add: json_loads_def)
qed

section \<open>The codec interface\<close>

text \<open>
  What a store needs of the text format it keeps its documents in: a document written is the
  document read back.
\<close>

locale codec =
  fixes encode :: "'doc \<Rightarrow> bytes" and decode :: "bytes \<Rightarrow> 'doc option" and ok :: "'doc \<Rightarrow> bool"
  assumes decode_encode: "ok d \<Longrightarrow> decode (encode d) = Some d"
begin

lemma encode_inj: "ok d \<Longrightarrow> ok e \<Longrightarrow> encode d = encode e \<Longrightarrow> d = e"
  by (metis decode_encode option.inject)

end

interpretation json: codec "\<lambda>v. json_dumps ind asc v @ replicate n newline" json_loads storable
  for ind asc n
  by unfold_locales (rule loads_dumps)

end
