(* ===== verification/SS_Writer.thy ===== *)
theory SS_Writer
  imports Atomic_File Json_Roundtrip
begin

text \<open>
  \<open>secrets-sync/app/engine/writer.py\<close>: rendering of \<open>secrets.yaml\<close>, the verified atomic write, and the
  provider files with their manifest.  PyYAML is not part of the repository: \<open>yaml.safe_load\<close> is the
  parameter \<open>yload\<close>, None standing for \<open>yaml.YAMLError\<close>.  \<open>_sha\<close> is the parameter \<open>sha\<close>.
\<close>

section \<open>Errors and local state\<close>

text \<open>\<open>WriteError\<close> carries a code; an \<open>OSError\<close> that no handler converts propagates as itself.\<close>

datatype write_exn = WriteError string | OsError oserr

definition unsafe_path :: write_exn where
  "unsafe_path = WriteError ''unsafe_path''"

record files_result =
  fr_written :: "string list"
  fr_removed :: "string list"
  fr_skipped :: "string list"

definition no_files :: files_result where
  "no_files = \<lparr>fr_written = [], fr_removed = [], fr_skipped = []\<rparr>"

section \<open>secrets.yaml\<close>

definition HEADER :: string where
  "HEADER = ''# managed by Secrets Sync - do not edit'' @ [newline]"

text \<open>\<open>_ESCAPE\<close> on the code points up to 255: the class \<open>[\x7f-\x9f]\<close>.\<close>

definition yaml_break :: "char \<Rightarrow> bool" where
  "yaml_break c \<longleftrightarrow> (let n = (of_char c :: nat) in 127 \<le> n \<and> n \<le> 159)"

definition quote_yaml :: "string \<Rightarrow> string" where
  "quote_yaml text = concat (map (\<lambda>c. if yaml_break c then u_escape c else [c]) (dump_str False text))"

definition render_secrets :: "string dict \<Rightarrow> string" where
  "render_secrets secrets =
     HEADER @ concat (map (\<lambda>k. quote_yaml k @ '': '' @ quote_yaml (the (dget secrets k)) @ [newline])
       (sort (keys secrets)))"

text \<open>\<open>(loaded or {}) != dict(secrets)\<close>: dictionaries are compared without regard to order.\<close>

definition dict_eq :: "pyval dict \<Rightarrow> string dict \<Rightarrow> bool" where
  "dict_eq d secrets \<longleftrightarrow>
     list_all (\<lambda>k. dget d k = map_option PStr (dget secrets k)) (keys d @ keys secrets)"

definition loaded_eq :: "pyval \<Rightarrow> string dict \<Rightarrow> bool" where
  "loaded_eq v secrets \<longleftrightarrow>
     (case (if truthy v then v else PDict []) of PDict d \<Rightarrow> dict_eq d secrets | _ \<Rightarrow> False)"

type_synonym yaml_loader = "string \<Rightarrow> pyval option"

definition verify_roundtrip :: "yaml_loader \<Rightarrow> string \<Rightarrow> string dict \<Rightarrow> ('s, write_exn, unit) prog" where
  "verify_roundtrip yload text secrets =
     (case yload text of
        None \<Rightarrow> raise (WriteError ''yaml_verify_failed'')
      | Some v \<Rightarrow> guard_raise (\<not> loaded_eq v secrets) (WriteError ''yaml_verify_failed''))"

section \<open>Atomic writes\<close>

definition parent :: "path \<Rightarrow> path" where "parent p = butlast p"
definition name_of :: "path \<Rightarrow> string" where "name_of p = last p"
definition with_name :: "path \<Rightarrow> string \<Rightarrow> path" where "with_name p n = butlast p @ [n]"

definition fsync_dir :: "path \<Rightarrow> unit io" where
  "fsync_dir p = bnd (os_stat p) (\<lambda>_. os_fsync)"

definition stage :: "path \<Rightarrow> bytes \<Rightarrow> path io" where
  "stage p data =
     bnd (os_mkstemp (parent p) (''.'' @ name_of p @ ''.'') ''.tmp'') (\<lambda>name.
       catch
         (andthen (os_chmod name 384) (andthen (os_write name data) (andthen os_fsync (ret name))))
         (\<lambda>e. andthen (os_unlink True name) (raise e)))"

definition atomic_write :: "path \<Rightarrow> bytes \<Rightarrow> unit io" where
  "atomic_write p data =
     bnd (stage p data) (\<lambda>tmp.
       andthen
         (catch (os_replace tmp p) (\<lambda>e. andthen (os_unlink True tmp) (raise e)))
         (fsync_dir (parent p)))"

definition read_existing :: "path \<Rightarrow> (os, write_exn, bytes option) prog" where
  "read_existing p =
     bnd (catch (lift_exn OsError (bnd (os_lstat p) (\<lambda>n. ret (Some n))))
            (\<lambda>e. if e = OsError ENOENT then ret None else raise e))
       (\<lambda>mode. case mode of
          None \<Rightarrow> ret None
        | Some (NFile _ _) \<Rightarrow> lift_exn OsError (bnd (os_read p) (\<lambda>d. ret (Some d)))
        | Some _ \<Rightarrow> raise unsafe_path)"

text \<open>
  \<open>write_secrets\<close> keeps the name of the staged file in a local variable that its \<open>finally\<close> clause
  reads; the model's state is the operating system and that variable.
\<close>

type_synonym 'a tmp_prog = "(os \<times> path option, write_exn, 'a) prog"

definition on_os :: "(os, 'e, 'a) prog \<Rightarrow> (os \<times> 'l, 'e, 'a) prog" where
  "on_os m = (\<lambda>(s, l). case m s of (r, s') \<Rightarrow> (r, (s', l)))"

definition set_tmp :: "path option \<Rightarrow> 'a tmp_prog \<Rightarrow> 'a tmp_prog" where
  "set_tmp t m = (\<lambda>(s, l). m (s, t))"

definition os_step :: "'a io \<Rightarrow> 'a tmp_prog" where
  "os_step m = on_os (lift_exn OsError m)"

definition read_text :: "path \<Rightarrow> (bytes \<Rightarrow> string option) \<Rightarrow> (os, write_exn, string) prog" where
  \<comment> \<open>\<open>UnicodeDecodeError\<close> is a \<open>ValueError\<close>: no handler of the caller converts it\<close>
  "read_text p dec = bnd (lift_exn OsError (os_read p))
     (\<lambda>d. case dec d of None \<Rightarrow> raise (WriteError ''UnicodeDecodeError'') | Some t \<Rightarrow> ret t)"

definition write_body :: "yaml_loader \<Rightarrow> path \<Rightarrow> string dict \<Rightarrow> bytes \<Rightarrow> bool tmp_prog" where
  "write_body yload p secrets data =
     andthen (os_step (mkdir_parents (parent p)))
      (bnd (on_os (read_existing p)) (\<lambda>previous.
        if previous = Some data then andthen (os_step (os_chmod p 384)) (ret False)
        else
          bnd (os_step (stage p data)) (\<lambda>tmp. set_tmp (Some tmp)
            (bnd (on_os (read_text tmp utf8_decode)) (\<lambda>text.
              andthen (verify_roundtrip yload text secrets)
                (andthen (case previous of
                    None \<Rightarrow> ret ()
                  | Some old \<Rightarrow> os_step (atomic_write (with_name p (name_of p @ ''.bak'')) old))
                  (andthen (os_step (os_replace tmp p)) (set_tmp None
                    (andthen (os_step (fsync_dir (parent p)))
                      (andthen (os_step (os_chmod p 384)) (ret True))))))))))) "

definition write_secrets :: "yaml_loader \<Rightarrow> path \<Rightarrow> string dict \<Rightarrow> (os, write_exn, bool) prog" where
  "write_secrets yload p secrets =
     (let text = render_secrets secrets in
      andthen (verify_roundtrip yload text secrets)
       (let data = utf8_encode text in
        (\<lambda>s. case try_finally
              (catch (write_body yload p secrets data)
                 (\<lambda>e. case e of OsError _ \<Rightarrow> raise (WriteError ''write_failed'') | WriteError c \<Rightarrow> raise (WriteError c)))
              (\<lambda>(s', l). case l of None \<Rightarrow> (Inr (), (s', l))
                 | Some tmp \<Rightarrow> os_step (os_unlink True tmp) (s', l))
              (s, None) of
            (r, (s', _)) \<Rightarrow> (r, s'))))"

definition read_secrets :: "yaml_loader \<Rightarrow> (pyval \<Rightarrow> string) \<Rightarrow> path \<Rightarrow> (os, 'e, string dict option) prog" where
  "read_secrets yload repr p = (\<lambda>s. case os_read p s of
     (Inl _, s') \<Rightarrow> (Inr None, s')
   | (Inr d, s') \<Rightarrow>
       (Inr (case utf8_decode d of
          None \<Rightarrow> None
        | Some t \<Rightarrow> (case yload t of
            None \<Rightarrow> None
          | Some PNone \<Rightarrow> Some []
          | Some (PDict kv) \<Rightarrow> Some (map (\<lambda>(k, v). (k, py_str repr v)) kv)
          | Some _ \<Rightarrow> None)), s'))"

section \<open>Provider files\<close>

text \<open>\<open>safe_relpath\<close>: the segments of a relative path, or \<open>UnsafePathError\<close>.\<close>

definition safe_relpath :: "string \<Rightarrow> write_exn + string list" where
  "safe_relpath rel =
     (if rel = [] \<or> starts_with ''/'' rel \<or> bslash \<in> set rel \<or> CHR 0x00 \<in> set rel then Inl unsafe_path
      else (let parts = split_on CHR ''/'' rel in
            if list_ex (\<lambda>p. p = [] \<or> p = ''.'' \<or> p = ''..'') parts then Inl unsafe_path else Inr parts))"

text \<open>
  \<open>_target\<close>: the walk below \<open>cur\<close>, one \<open>lstat\<close> per component.  The result None means a missing
  component when nothing may be created.
\<close>

fun target_walk :: "bool \<Rightarrow> path \<Rightarrow> string list \<Rightarrow> (os, write_exn, path option) prog" where
  "target_walk create cur [] = ret (Some cur)"
| "target_walk create cur (part # parts) =
     (let here = cur @ [part]; is_last = (parts = []) in
      bnd (catch (lift_exn OsError (bnd (os_lstat here) (\<lambda>n. ret (Some n))))
             (\<lambda>e. if e = OsError ENOENT then ret None else raise e))
        (\<lambda>mode. case mode of
           None \<Rightarrow>
             (if is_last then ret (Some here)
              else if \<not> create then ret None
              else andthen (lift_exn OsError (os_mkdir here)) (target_walk create here parts))
         | Some n \<Rightarrow>
             (case n of
                NLink _ \<Rightarrow> raise unsafe_path
              | NFile _ _ \<Rightarrow> if is_last then target_walk create here parts else raise unsafe_path
              | NDir \<Rightarrow> if is_last then raise unsafe_path else target_walk create here parts)))"

definition load_manifest :: "(pyval \<Rightarrow> string) \<Rightarrow> path \<Rightarrow> (os, 'e, string dict) prog" where
  "load_manifest repr p = (\<lambda>s. case os_read p s of
     (Inl _, s') \<Rightarrow> (Inr [], s')
   | (Inr d, s') \<Rightarrow>
       (Inr (case utf8_decode d of
          None \<Rightarrow> []
        | Some t \<Rightarrow> (case json_loads t of
            Some (PDict doc) \<Rightarrow>
              (case dget doc ''files'' of
                 Some (PDict files) \<Rightarrow> map (\<lambda>(k, v). (k, py_str repr v)) files
               | _ \<Rightarrow> [])
          | _ \<Rightarrow> [])), s'))"

definition lexists :: "path \<Rightarrow> (os, 'e, bool) prog" where
  "lexists p = (\<lambda>s. case os_lstat p s of (Inl _, s') \<Rightarrow> (Inr False, s') | (Inr _, s') \<Rightarrow> (Inr True, s'))"

text \<open>The first loop: one provider file.  The accumulator holds the result and the new manifest.\<close>

definition read_current :: "path \<Rightarrow> (os, write_exn, bytes option) prog" where
  "read_current target =
     catch (bnd (lexists target) (\<lambda>ex. if ex then lift_exn OsError (bnd (os_read target) (\<lambda>d. ret (Some d))) else ret None))
       (\<lambda>e. case e of OsError _ \<Rightarrow> raise (WriteError ''write_failed'') | WriteError c \<Rightarrow> raise (WriteError c))"

definition install_at ::
  "string dict \<Rightarrow> string \<Rightarrow> bytes \<Rightarrow> string \<Rightarrow> path \<Rightarrow> files_result \<times> string dict \<Rightarrow> (os, write_exn, files_result \<times> string dict) prog" where
  "install_at manifest rel data digest target acc =
     (let (result, new_manifest) = acc in
      bnd (read_current target) (\<lambda>current.
        if current \<noteq> None \<and> current \<noteq> Some data \<and> rel \<notin> set (keys manifest)
        then ret (result\<lparr>fr_skipped := fr_skipped result @ [rel]\<rparr>, new_manifest)
        else if current \<noteq> Some data
        then andthen (lift_exn OsError (atomic_write target data))
               (ret (result\<lparr>fr_written := fr_written result @ [rel]\<rparr>, AList.update rel digest new_manifest))
        else andthen (lift_exn OsError (os_chmod target 384))
               (ret (result, AList.update rel digest new_manifest))))"

definition install_file ::
  "(bytes \<Rightarrow> string) \<Rightarrow> path \<Rightarrow> string dict \<Rightarrow> bytes dict \<Rightarrow> string \<Rightarrow> files_result \<times> string dict
   \<Rightarrow> (os, write_exn, files_result \<times> string dict) prog" where
  "install_file sha files_dir manifest files rel acc =
     (let data = the (dget files rel) in
      bnd (of_sum (safe_relpath rel)) (\<lambda>parts.
      bnd (target_walk True files_dir parts) (\<lambda>t.
        install_at manifest rel data (sha data) (the t) acc)))"

text \<open>The empty directories a removal leaves behind, innermost first, up to the files directory.\<close>

fun prune_parents :: "path \<Rightarrow> path list \<Rightarrow> (os, write_exn, unit) prog" where
  "prune_parents files_dir [] = ret ()"
| "prune_parents files_dir (q # qs) =
     (if q = files_dir then ret ()
      else (\<lambda>s. case os_rmdir q s of
          (Inl _, s') \<Rightarrow> (Inr (), s')
        | (Inr _, s') \<Rightarrow> prune_parents files_dir qs s'))"

definition parents_of :: "path \<Rightarrow> path list" where
  "parents_of p = map (\<lambda>n. take n p) (rev [0..<length p])"

text \<open>The second loop: one manifest entry the providers no longer deliver.\<close>

definition remove_at :: "path \<Rightarrow> string \<Rightarrow> path \<Rightarrow> files_result \<Rightarrow> (os, write_exn, files_result) prog" where
  "remove_at files_dir rel target result =
     bnd (lexists target) (\<lambda>ex.
       if \<not> ex then ret result
       else andthen (lift_exn OsError (os_unlink False target))
              (andthen (prune_parents files_dir (parents_of target))
                 (ret (result\<lparr>fr_removed := fr_removed result @ [rel]\<rparr>))))"

definition remove_file :: "path \<Rightarrow> string \<Rightarrow> files_result \<Rightarrow> (os, write_exn, files_result) prog" where
  "remove_file files_dir rel result =
     bnd (catch (bnd (of_sum (safe_relpath rel)) (\<lambda>parts. target_walk False files_dir parts))
            (\<lambda>e. if e = unsafe_path then ret None else raise e))
       (\<lambda>t. case t of None \<Rightarrow> ret result | Some target \<Rightarrow> remove_at files_dir rel target result)"

definition sdict_eq :: "string dict \<Rightarrow> string dict \<Rightarrow> bool" where
  "sdict_eq a b \<longleftrightarrow> list_all (\<lambda>k. dget a k = dget b k) (keys a @ keys b)"

definition manifest_doc :: "string dict \<Rightarrow> pyval" where
  "manifest_doc m =
     PDict [(''version'', PInt 1), (''files'', PDict (map (\<lambda>(k, v). (k, PStr v)) m))]"

definition os_to_write :: "(os, write_exn, 'a) prog \<Rightarrow> (os, write_exn, 'a) prog" where
  "os_to_write m = catch m
     (\<lambda>e. case e of OsError _ \<Rightarrow> raise (WriteError ''write_failed'') | WriteError c \<Rightarrow> raise (WriteError c))"

definition write_files ::
  "(pyval \<Rightarrow> string) \<Rightarrow> (bytes \<Rightarrow> string) \<Rightarrow> path \<Rightarrow> path \<Rightarrow> bytes dict \<Rightarrow> (os, write_exn, files_result) prog" where
  "write_files repr sha files_dir manifest_path files =
     bnd (load_manifest repr manifest_path) (\<lambda>manifest.
     andthen (lift_exn OsError (mkdir_parents files_dir))
      (bnd (os_to_write
              (bnd (fold_prog (install_file sha files_dir manifest files) (sort (keys files)) (no_files, []))
                (\<lambda>(result, new_manifest).
                   bnd (fold_prog (remove_file files_dir)
                          (sorted_set (filter (\<lambda>k. k \<notin> set (keys files)) (keys manifest))) result)
                     (\<lambda>result. ret (result, new_manifest)))))
        (\<lambda>(result, new_manifest).
           if sdict_eq new_manifest manifest then ret result
           else andthen
             (os_to_write (andthen (lift_exn OsError (mkdir_parents (parent manifest_path)))
                (lift_exn OsError (atomic_write manifest_path
                   (json_dumps (Some 2) True (manifest_doc new_manifest))))))
             (ret result))))"

end
