(* ===== verification/Py_Float.thy ===== *)
theory Py_Float
  imports Prelude
begin

text \<open>
  Python's \<open>float\<close> for non-negative values in the normal range: a rational is rounded to the nearest
  number with a 53-bit significand, ties to even.  An operation on floats is the exact operation
  followed by \<open>rdbl\<close>.
\<close>

definition round_even :: "rat \<Rightarrow> int" where
  "round_even x =
     (let n = \<lfloor>x\<rfloor>; d = x - of_int n in
      if d < 1/2 then n else if d > 1/2 then n + 1 else if even n then n else n + 1)"

fun bits :: "nat \<Rightarrow> nat" where
  "bits n = (if n = 0 then 0 else Suc (bits (n div 2)))"

declare bits.simps [simp del]

text \<open>The exponent of a positive rational: \<open>2 powi ilog2 x \<le> x < 2 powi (ilog2 x + 1)\<close>.\<close>

definition ilog2 :: "rat \<Rightarrow> int" where
  "ilog2 x =
     (let (p, q) = quotient_of x; e = int (bits (nat p)) - int (bits (nat q)) in
      if 2 powi e \<le> x then e else e - 1)"

definition rdbl :: "rat \<Rightarrow> rat" where
  "rdbl x = (if x = 0 then 0 else let u = 2 powi (ilog2 x - 52) in of_int (round_even (x / u)) * u)"

lemma round_even_error: "\<bar>of_int (round_even x) - x\<bar> \<le> 1/2"
proof -
  define n d where "n = \<lfloor>x\<rfloor>" and "d = x - of_int n"
  have d: "0 \<le> d" "d < 1" "x = of_int n + d" by (auto simp: d_def n_def) linarith
  have "round_even x = (if d < 1/2 then n else if d > 1/2 then n + 1 else if even n then n else n + 1)"
    by (simp add: round_even_def Let_def d_def n_def)
  then show ?thesis using d by (auto simp: abs_if)
qed

lemma round_even_unique:
  assumes "\<bar>x - of_int m\<bar> < 1/2"
  shows "round_even x = m"
proof -
  have "\<bar>of_int (round_even x) - of_int m\<bar> < (1 :: rat)" using round_even_error [of x] assms by linarith
  then have "\<bar>of_int (round_even x - m)\<bar> < (1 :: rat)" by simp
  then have "\<bar>round_even x - m\<bar> < 1" by (metis of_int_abs of_int_less_1_iff)
  then show ?thesis by simp
qed

lemma bits_bounds: "0 < n \<Longrightarrow> 2 ^ bits n \<le> 2 * n \<and> n < 2 ^ bits n"
proof (induction n rule: bits.induct)
  case (1 n)
  then show ?case
    by (cases "n div 2 = 0") (auto simp: bits.simps [of n] bits.simps [of 0] div_eq_0_iff)
qed

lemma ilog2_bounds:
  assumes "0 < x"
  shows "2 powi ilog2 x \<le> x" "x < 2 powi (ilog2 x + 1)"
proof -
  obtain p q where pq: "quotient_of x = (p, q)" by (cases "quotient_of x")
  then have q: "0 < q" by (rule quotient_of_denom_pos)
  have x: "x = of_int p / of_int q" using pq by (rule quotient_of_div)
  then have p: "0 < p" using assms q by (simp add: zero_less_divide_iff)
  let ?a = "bits (nat p)" and ?b = "bits (nat q)"
  have b: "int (2 ^ ?a) \<le> int (2 * nat p)" "int (nat q) < int (2 ^ ?b)"
    "int (nat p) < int (2 ^ ?a)" "int (2 ^ ?b) \<le> int (2 * nat q)"
    unfolding of_nat_le_iff of_nat_less_iff using bits_bounds [of "nat p"] bits_bounds [of "nat q"] p q by auto
  then have i: "(2::int) ^ ?a \<le> 2 * p" "q \<le> 2 ^ ?b" "p < 2 ^ ?a" "2 ^ ?b \<le> 2 * q" using p q by simp_all
  have "(of_int (2 ^ ?a) :: rat) \<le> of_int (2 * p)" "(of_int q :: rat) \<le> of_int (2 ^ ?b)"
    "(of_int p :: rat) < of_int (2 ^ ?a)" "(of_int (2 ^ ?b) :: rat) \<le> of_int (2 * q)"
    using i by (simp_all only: of_int_le_iff of_int_less_iff)
  then have r: "(2::rat) ^ ?a \<le> 2 * of_int p" "of_int q \<le> (2::rat) ^ ?b"
    "of_int p < (2::rat) ^ ?a" "(2::rat) ^ ?b \<le> 2 * of_int q" by simp_all
  have "(2::rat) ^ ?a * of_int q \<le> 2 * of_int p * 2 ^ ?b"
    using r p q by (intro mult_mono) auto
  then have "(2::rat) ^ ?a / 2 ^ ?b / 2 \<le> x" using q by (simp add: x field_simps)
  moreover have "(2::rat) powi (int ?a - int ?b - 1) = 2 ^ ?a / 2 ^ ?b / 2"
    by (simp add: power_int_diff)
  ultimately have lo: "2 powi (int ?a - int ?b - 1) \<le> x" by simp
  have "of_int p * 2 ^ ?b < (2::rat) ^ ?a * 2 ^ ?b" using r by simp
  also have "\<dots> \<le> (2::rat) ^ ?a * (2 * of_int q)" using r by (intro mult_left_mono) auto
  finally have "of_int p * 2 ^ ?b < (2::rat) ^ ?a * (2 * of_int q)" .
  then have "x < 2 * (2 ^ ?a / 2 ^ ?b)" using q by (simp add: x field_simps)
  moreover have "(2::rat) powi (int ?a - int ?b + 1) = 2 * (2 ^ ?a / 2 ^ ?b)"
    by (simp add: power_int_diff power_int_add)
  ultimately have hi: "x < 2 powi (int ?a - int ?b + 1)" by simp
  show "2 powi ilog2 x \<le> x" "x < 2 powi (ilog2 x + 1)"
    using lo hi by (auto simp: ilog2_def pq Let_def)
qed

lemma ilog2_unique: "2 powi e \<le> x \<Longrightarrow> x < 2 powi (e + 1) \<Longrightarrow> ilog2 x = e"
proof -
  assume e: "2 powi e \<le> x" "x < 2 powi (e + 1)"
  have x: "0 < x" by (rule less_le_trans [OF _ e(1)]) simp
  note r = ilog2_bounds [OF x]
  have "(2::rat) powi e < 2 powi (ilog2 x + 1)" "(2::rat) powi (ilog2 x) < 2 powi (e + 1)"
    using e r by linarith+
  then have "e < ilog2 x + 1" "ilog2 x < e + 1"
    by (metis linorder_not_less one_le_numeral power_int_increasing)+
  then show ?thesis by simp
qed

lemma rdbl_error:
  assumes "0 \<le> x"
  shows "\<bar>rdbl x - x\<bar> \<le> x / 2 ^ 53"
proof (cases "x = 0")
  case False
  let ?u = "2 powi (ilog2 x - 52) :: rat"
  have u: "0 < ?u" by simp
  have le: "?u * 2 ^ 52 \<le> x" using ilog2_bounds(1) [of x] False assms by (simp add: power_int_diff)
  have "rdbl x - x = (of_int (round_even (x / ?u)) - x / ?u) * ?u"
    using False u by (simp add: rdbl_def Let_def left_diff_distrib)
  then have "\<bar>rdbl x - x\<bar> = \<bar>of_int (round_even (x / ?u)) - x / ?u\<bar> * ?u"
    using u by (simp add: abs_mult)
  also have "\<dots> \<le> 1/2 * ?u" using round_even_error u by (intro mult_right_mono) auto
  also have "\<dots> \<le> x / 2 ^ 53" using le by simp
  finally show ?thesis .
qed (simp add: rdbl_def)

lemma rdbl_0 [simp]: "rdbl 0 = 0"
  by (simp add: rdbl_def)

lemma rdbl_bounds:
  assumes "0 \<le> x"
  shows "x * (1 - 1 / 2 ^ 53) \<le> rdbl x" "rdbl x \<le> x * (1 + 1 / 2 ^ 53)" "0 \<le> rdbl x"
proof -
  have e: "- (x / 2 ^ 53) \<le> rdbl x - x" "rdbl x - x \<le> x / 2 ^ 53"
    using abs_le_D1 [OF rdbl_error [OF assms]] abs_le_D2 [OF rdbl_error [OF assms]] by linarith+
  show "x * (1 - 1 / 2 ^ 53) \<le> rdbl x" "rdbl x \<le> x * (1 + 1 / 2 ^ 53)"
    using e by (simp_all add: right_diff_distrib distrib_left)
  have "0 \<le> x * (1 - 1 / 2 ^ 53)" using assms by simp
  also have "\<dots> \<le> rdbl x" by fact
  finally show "0 \<le> rdbl x" .
qed

end
