(* ===== verification/SS_Merge.thy ===== *)
theory SS_Merge
  imports SS_Writer Py_Float
begin

text \<open>
  \<open>secrets-sync/app/providers/base.py\<close> (the provider contract), \<open>engine/merge.py\<close> (union of the
  snapshots) and \<open>engine/guard.py\<close> (the shrink guard).
\<close>

section \<open>The provider contract\<close>

record problem =
  p_code :: string
  p_message :: string
  p_severity :: string

definition error_problem :: "string \<Rightarrow> string \<Rightarrow> problem" where
  "error_problem code message = \<lparr>p_code = code, p_message = message, p_severity = ''error''\<rparr>"

record snapshot =
  snap_secrets :: "string dict"
  snap_files :: "bytes dict"
  snap_revision :: string
  snap_check :: string

datatype provider_error = ProviderError (pe_code: string) (pe_message: string)

section \<open>Merging\<close>

datatype merge_error = MergeError (me_code: string) (me_message: string)

record merged =
  mg_secrets :: "string dict"
  mg_files :: "bytes dict"
  mg_shadowed :: "(string \<times> string \<times> string) list"

text \<open>One key or path of a provider: the values so far, their providers, and the shadowed entries.\<close>

fun claim_entry ::
  "string \<Rightarrow> string \<Rightarrow> string \<Rightarrow> string \<times> 'v \<Rightarrow> 'v dict \<times> string dict \<times> (string \<times> string \<times> string) list
   \<Rightarrow> merge_error + 'v dict \<times> string dict \<times> (string \<times> string \<times> string) list" where
  "claim_entry policy kind provider (key, value) (out, src, shadowed) =
     (case dget src key of
        Some winner \<Rightarrow>
          if policy = ''priority'' then Inr (out, src, shadowed @ [(key, winner, provider)])
          else Inl (MergeError ''key_collision''
                 (kind @ '' '' @ [CHR 0x27] @ key @ [CHR 0x27] @ '' provided by '' @ winner @ '' and '' @ provider))
      | None \<Rightarrow> Inr (AList.update key value out, AList.update key provider src, shadowed))"

type_synonym merge_state =
  "string dict \<times> string dict \<times> bytes dict \<times> string dict \<times> (string \<times> string \<times> string) list"

fun merge_one :: "string \<Rightarrow> string \<times> snapshot \<Rightarrow> merge_state \<Rightarrow> merge_error + merge_state" where
  "merge_one policy (provider, snap) (secrets, secret_src, files, file_src, shadowed) =
     (if list_ex (\<lambda>p. safe_relpath p = Inl unsafe_path) (keys (snap_files snap))
      then Inl (MergeError ''unsafe_path'' (''provider '' @ provider @ '' returned an unsafe file path''))
      else (case fold_sum (claim_entry policy ''key'' provider) (snap_secrets snap) (secrets, secret_src, shadowed) of
          Inl e \<Rightarrow> Inl e
        | Inr (secrets', secret_src', shadowed') \<Rightarrow>
            (case fold_sum (claim_entry policy ''file'' provider) (snap_files snap) (files, file_src, shadowed') of
               Inl e \<Rightarrow> Inl e
             | Inr (files', file_src', shadowed'') \<Rightarrow> Inr (secrets', secret_src', files', file_src', shadowed''))))"

definition merge :: "(string \<times> snapshot) list \<Rightarrow> string \<Rightarrow> merge_error + merged" where
  "merge contributions policy =
     (case fold_sum (merge_one policy) contributions ([], [], [], [], []) of
        Inl e \<Rightarrow> Inl e
      | Inr (secrets, _, files, _, shadowed) \<Rightarrow>
          Inr \<lparr>mg_secrets = secrets, mg_files = files, mg_shadowed = shadowed\<rparr>)"

subsection \<open>What the entries say\<close>

text \<open>The specification: all entries in priority order; \<open>map_of\<close> picks the first.\<close>

definition all_secrets :: "(string \<times> snapshot) list \<Rightarrow> string dict" where
  "all_secrets cs = concat (map (snap_secrets \<circ> snd) cs)"

definition all_files :: "(string \<times> snapshot) list \<Rightarrow> bytes dict" where
  "all_files cs = concat (map (snap_files \<circ> snd) cs)"

definition safe_paths :: "(string \<times> snapshot) list \<Rightarrow> bool" where
  "safe_paths cs \<longleftrightarrow> list_all (\<lambda>p. safe_relpath p \<noteq> Inl unsafe_path) (keys (all_files cs))"

lemma safe_paths_simps [simp]:
  "safe_paths [] = True"
  "safe_paths ((p, s) # cs) \<longleftrightarrow>
     \<not> list_ex (\<lambda>p. safe_relpath p = Inl unsafe_path) (keys (snap_files s)) \<and> safe_paths cs"
  by (auto simp: safe_paths_def all_files_def list_all_iff list_ex_iff)

lemma all_entries_simps [simp]:
  "all_secrets [] = []" "all_secrets ((p, s) # cs) = snap_secrets s @ all_secrets cs"
  "all_files [] = []" "all_files ((p, s) # cs) = snap_files s @ all_files cs"
  by (simp_all add: all_secrets_def all_files_def)

text \<open>The two dictionaries of the loop have the same keys, all taken from the entries seen so far.\<close>

abbreviation same_keys :: "'v dict \<Rightarrow> string dict \<Rightarrow> bool" where
  "same_keys out src \<equiv> dom (dget out) = dom (dget src)"

lemma claim_entry_new [simp]:
  "k \<notin> dom (dget src) \<Longrightarrow>
   claim_entry policy kind p (k, v) (out, src, sh) = Inr (AList.update k v out, AList.update k p src, sh)"
  by (simp add: domIff)

lemma claim_entry_old:
  "k \<in> dom (dget src) \<Longrightarrow> claim_entry policy kind p (k, v) (out, src, sh) =
     (if policy = ''priority'' then Inr (out, src, sh @ [(k, the (dget src k), p)])
      else Inl (MergeError ''key_collision''
        (kind @ '' '' @ [CHR 0x27] @ k @ [CHR 0x27] @ '' provided by '' @ the (dget src k) @ '' and '' @ p)))"
  by auto

lemma add_first_old: "k \<in> dom m \<Longrightarrow> map_of ((k, v) # xs) ++ m = map_of xs ++ m"
  by (auto simp: map_add_def fun_eq_iff split: option.splits)

lemma add_first_new:
  "k \<notin> dom (dget out) \<Longrightarrow> map_of ((k, v) # xs) ++ dget out = map_of xs ++ dget (AList.update k v out)"
  by (auto simp: map_add_def fun_eq_iff domIff split: option.splits)

lemma claim_priority:
  "same_keys out src \<Longrightarrow>
   \<exists>out' src' sh'. fold_sum (claim_entry ''priority'' kind p) xs (out, src, sh) = Inr (out', src', sh')
     \<and> same_keys out' src' \<and> dget out' = map_of xs ++ dget out"
proof (induction xs arbitrary: out src sh)
  case (Cons kv xs)
  obtain k v where kv: "kv = (k, v)" by (cases kv)
  show ?case
  proof (cases "k \<in> dom (dget src)")
    case True
    then show ?thesis using Cons.IH [OF Cons.prems] Cons.prems
      by (simp add: kv claim_entry_old add_first_old del: claim_entry.simps map_of.simps)
  next
    case False
    have "same_keys (AList.update k v out) (AList.update k p src)"
      unfolding dget_update dom_fun_upd using Cons.prems by simp
    from Cons.IH [OF this, of sh] show ?thesis
      using False Cons.prems by (simp add: kv add_first_new del: claim_entry.simps map_of.simps dget_update)
  qed
qed simp

lemma claim_error:
  assumes "policy \<noteq> ''priority''"
  shows "same_keys out src \<Longrightarrow>
   (case fold_sum (claim_entry policy kind p) xs (out, src, sh) of
      Inl e \<Rightarrow> \<not> (distinct (keys xs) \<and> set (keys xs) \<inter> dom (dget src) = {}) \<and> me_code e = ''key_collision''
    | Inr (out', src', sh') \<Rightarrow> distinct (keys xs) \<and> set (keys xs) \<inter> dom (dget src) = {} \<and> sh' = sh
        \<and> same_keys out' src' \<and> dget out' = map_of xs ++ dget out)"
proof (induction xs arbitrary: out src)
  case (Cons kv xs)
  obtain k v where kv: "kv = (k, v)" by (cases kv)
  show ?case
  proof (cases "k \<in> dom (dget src)")
    case True
    then show ?thesis using assms by (auto simp: kv claim_entry_old simp del: claim_entry.simps)
  next
    case False
    have "same_keys (AList.update k v out) (AList.update k p src)"
      unfolding dget_update dom_fun_upd using Cons.prems by simp
    note IH = Cons.IH [OF this]
    have d: "dom (dget (AList.update k q m)) = insert k (dom (dget m))" for q :: 'z and m
      unfolding dget_update dom_fun_upd by simp
    have cond: "distinct (keys (kv # xs)) \<and> set (keys (kv # xs)) \<inter> dom (dget src) = {} \<longleftrightarrow>
        distinct (keys xs) \<and> set (keys xs) \<inter> insert k (dom (dget src)) = {}"
      using False by (auto simp: kv)
    have sum: "map_of (kv # xs) ++ dget out = map_of xs ++ dget (AList.update k v out)"
      unfolding kv by (rule add_first_new) (use False Cons.prems in simp)
    have step: "fold_sum (claim_entry policy kind p) (kv # xs) (out, src, sh)
        = fold_sum (claim_entry policy kind p) xs (AList.update k v out, AList.update k p src, sh)"
      using False by (simp add: kv del: claim_entry.simps)
    show ?thesis using IH unfolding step cond sum d conj_assoc [symmetric] by (simp only: cond)
  qed
qed simp

definition run_state :: "merge_state \<Rightarrow> bool" where
  "run_state = (\<lambda>(so, ss, fo, fs, sh). same_keys so ss \<and> same_keys fo fs)"

lemma merge_priority_run:
  "run_state (so, ss, fo, fs, sh) \<Longrightarrow>
   (case fold_sum (merge_one ''priority'') cs (so, ss, fo, fs, sh) of
      Inl e \<Rightarrow> \<not> safe_paths cs \<and> me_code e = ''unsafe_path''
    | Inr (so', ss', fo', fs', sh') \<Rightarrow> safe_paths cs
        \<and> dget so' = map_of (all_secrets cs) ++ dget so \<and> dget fo' = map_of (all_files cs) ++ dget fo)"
proof (induction cs arbitrary: so ss fo fs sh)
  case (Cons c cs)
  obtain p s where c: "c = (p, s)" by (cases c)
  have st: "same_keys so ss" "same_keys fo fs" using Cons.prems by (simp_all add: run_state_def)
  obtain so' ss' sh' where s1: "fold_sum (claim_entry ''priority'' ''key'' p) (snap_secrets s) (so, ss, sh)
      = Inr (so', ss', sh')" "same_keys so' ss'" "dget so' = map_of (snap_secrets s) ++ dget so"
    using claim_priority [OF st(1), where kind = "''key''" and p = p and xs = "snap_secrets s" and sh = sh] by blast
  obtain fo' fs' sh'' where s2: "fold_sum (claim_entry ''priority'' ''file'' p) (snap_files s) (fo, fs, sh')
      = Inr (fo', fs', sh'')" "same_keys fo' fs'" "dget fo' = map_of (snap_files s) ++ dget fo"
    using claim_priority [OF st(2), where kind = "''file''" and p = p and xs = "snap_files s" and sh = sh'] by blast
  have "run_state (so', ss', fo', fs', sh'')" using s1 s2 by (simp add: run_state_def)
  from Cons.IH [OF this] show ?case
    using s1 s2 by (auto simp: c split: sum.splits)
qed (simp add: safe_paths_def)

lemma keys_append_cond:
  "distinct (keys a) \<Longrightarrow> set (keys a) \<inter> D = {} \<Longrightarrow>
   distinct (keys (a @ b)) \<and> set (keys (a @ b)) \<inter> D = {} \<longleftrightarrow>
   distinct (keys b) \<and> set (keys b) \<inter> (D \<union> dom (dget a)) = {}"
  unfolding dom_dget map_append distinct_append set_append by blast

lemma merge_error_run:
  assumes policy: "policy \<noteq> ''priority''"
  shows "run_state (so, ss, fo, fs, sh) \<Longrightarrow>
   (case fold_sum (merge_one policy) cs (so, ss, fo, fs, sh) of
      Inl e \<Rightarrow> \<not> (safe_paths cs \<and> distinct (keys (all_secrets cs)) \<and> set (keys (all_secrets cs)) \<inter> dom (dget ss) = {}
        \<and> distinct (keys (all_files cs)) \<and> set (keys (all_files cs)) \<inter> dom (dget fs) = {})
    | Inr (so', ss', fo', fs', sh') \<Rightarrow> safe_paths cs \<and> sh' = sh
        \<and> distinct (keys (all_secrets cs)) \<and> set (keys (all_secrets cs)) \<inter> dom (dget ss) = {}
        \<and> distinct (keys (all_files cs)) \<and> set (keys (all_files cs)) \<inter> dom (dget fs) = {}
        \<and> dget so' = map_of (all_secrets cs) ++ dget so \<and> dget fo' = map_of (all_files cs) ++ dget fo)"
proof (induction cs arbitrary: so ss fo fs sh)
  case (Cons c cs)
  obtain p s where c: "c = (p, s)" by (cases c)
  have st: "same_keys so ss" "same_keys fo fs" using Cons.prems by (simp_all add: run_state_def)
  show ?case
  proof (cases "fold_sum (claim_entry policy ''key'' p) (snap_secrets s) (so, ss, sh)")
    case (Inl e)
    then show ?thesis using claim_error [OF policy st(1), where kind = "''key''" and p = p and xs = "snap_secrets s" and sh = sh]
      by (auto simp: c)
  next
    case key: (Inr r)
    obtain so' ss' sh' where r: "r = (so', ss', sh')" by (cases r)
    note s1 = claim_error [OF policy st(1), where kind = "''key''" and p = p and xs = "snap_secrets s" and sh = sh, unfolded key r sum.case prod.case]
    show ?thesis
    proof (cases "fold_sum (claim_entry policy ''file'' p) (snap_files s) (fo, fs, sh')")
      case (Inl e)
      then show ?thesis using claim_error [OF policy st(2), where kind = "''file''" and p = p and xs = "snap_files s" and sh = sh'] key r
        by (auto simp: c)
    next
      case (Inr r')
      obtain fo' fs' sh'' where r': "r' = (fo', fs', sh'')" by (cases r')
      note s2 = claim_error [OF policy st(2), where kind = "''file''" and p = p and xs = "snap_files s" and sh = sh', unfolded Inr r' sum.case prod.case]
      have "run_state (so', ss', fo', fs', sh'')"
        unfolding run_state_def prod.case using s1 s2 by blast
      note IH = Cons.IH [OF this]
      have d: "dom (dget ss') = dom (dget ss) \<union> dom (dget (snap_secrets s))"
        "dom (dget fs') = dom (dget fs) \<union> dom (dget (snap_files s))"
        using s1 s2 st by (metis dom_map_add Un_commute)+
      have step: "fold_sum (merge_one policy) (c # cs) (so, ss, fo, fs, sh) =
          (if list_ex (\<lambda>p. safe_relpath p = Inl unsafe_path) (keys (snap_files s))
           then Inl (MergeError ''unsafe_path'' (''provider '' @ p @ '' returned an unsafe file path''))
           else fold_sum (merge_one policy) cs (so', ss', fo', fs', sh''))"
        using key r \<open>fold_sum (claim_entry policy ''file'' p) (snap_files s) (fo, fs, sh') = Inr r'\<close> r'
        by (simp add: c)
      have sum: "map_of (all_secrets (c # cs)) ++ dget so = map_of (all_secrets cs) ++ dget so'"
        "map_of (all_files (c # cs)) ++ dget fo = map_of (all_files cs) ++ dget fo'"
        using s1 s2 by (simp_all add: c)
      note f1 = s1 [THEN conjunct1] s1 [THEN conjunct2, THEN conjunct1]
      note f2 = s2 [THEN conjunct1] s2 [THEN conjunct2, THEN conjunct1]
      have cond: "distinct (keys (all_secrets (c # cs))) \<and> set (keys (all_secrets (c # cs))) \<inter> dom (dget ss) = {}
          \<longleftrightarrow> distinct (keys (all_secrets cs)) \<and> set (keys (all_secrets cs)) \<inter> dom (dget ss') = {}"
        "distinct (keys (all_files (c # cs))) \<and> set (keys (all_files (c # cs))) \<inter> dom (dget fs) = {}
          \<longleftrightarrow> distinct (keys (all_files cs)) \<and> set (keys (all_files cs)) \<inter> dom (dget fs') = {}"
        unfolding c all_entries_simps d by (simp_all only: keys_append_cond [OF f1] keys_append_cond [OF f2])
      show ?thesis
      proof (cases "list_ex (\<lambda>p. safe_relpath p = Inl unsafe_path) (keys (snap_files s))")
        case False
        then have safe: "safe_paths (c # cs) = safe_paths cs" by (simp add: c)
        have sh: "sh'' = sh" using s1 s2 by simp
        note run = step [unfolded if_not_P [OF False]]
        show ?thesis
        proof (cases "fold_sum (merge_one policy) cs (so', ss', fo', fs', sh'')")
          case (Inl e)
          show ?thesis using IH cond unfolding run Inl sum.case safe by blast
        next
          case (Inr t)
          obtain so2 ss2 fo2 fs2 sh2 where t: "t = (so2, ss2, fo2, fs2, sh2)" by (cases t)
          show ?thesis using IH cond unfolding run Inr t sum.case prod.case unfolding safe sh sum by satx
        qed
      qed (simp add: c)
    qed
  qed
qed (simp add: safe_paths_def)

section \<open>Properties of the merge\<close>

text \<open>C12. Under the \<open>priority\<close> policy the merge fails exactly when a provider returned an unsafe file path;
  otherwise every key and every file has the value of the first provider, in priority order, that
  delivers it, and no other key or file exists.\<close>

theorem merge_priority:
  "case merge cs ''priority'' of
     Inl e \<Rightarrow> \<not> safe_paths cs \<and> me_code e = ''unsafe_path''
   | Inr m \<Rightarrow> safe_paths cs \<and> dget (mg_secrets m) = dget (all_secrets cs) \<and> dget (mg_files m) = dget (all_files cs)"
proof -
  have "run_state ([], [], [], [], [])" by (simp add: run_state_def)
  from merge_priority_run [OF this, of cs] show ?thesis
    by (auto simp: merge_def split: sum.splits)
qed

text \<open>C13. Under any other policy (\<open>error\<close>) the merge succeeds exactly when all file paths are safe and no key and
  no file is delivered twice; then nothing is shadowed and the result holds exactly the entries of
  the providers.\<close>

theorem merge_collision:
  assumes "policy \<noteq> ''priority''"
  shows "case merge cs policy of
     Inl e \<Rightarrow> \<not> (safe_paths cs \<and> distinct (keys (all_secrets cs)) \<and> distinct (keys (all_files cs)))
   | Inr m \<Rightarrow> safe_paths cs \<and> distinct (keys (all_secrets cs)) \<and> distinct (keys (all_files cs))
       \<and> mg_shadowed m = [] \<and> dget (mg_secrets m) = dget (all_secrets cs) \<and> dget (mg_files m) = dget (all_files cs)"
proof -
  have "run_state ([], [], [], [], [])" by (simp add: run_state_def)
  from merge_error_run [OF assms this, of cs] show ?thesis
    by (auto simp: merge_def split: sum.splits)
qed

theorem merge_collision_witness:
  "let snap = (\<lambda>kv. \<lparr>snap_secrets = kv, snap_files = [], snap_revision = [], snap_check = []\<rparr>) in
   \<exists>e. merge [(''bitwarden'', snap [(''k'', ''1'')]), (''sops'', snap [(''k'', ''2'')])] ''error'' = Inl e"
  using merge_collision [of "''error''" "[(''bitwarden'', \<lparr>snap_secrets = [(''k'', ''1'')], snap_files = [],
      snap_revision = [], snap_check = []\<rparr>), (''sops'', \<lparr>snap_secrets = [(''k'', ''2'')], snap_files = [],
      snap_revision = [], snap_check = []\<rparr>)]"]
  by (auto simp: Let_def all_secrets_def split: sum.splits)

section \<open>The shrink guard\<close>

text \<open>
  \<open>check_shrink\<close>: an error code or None.  \<open>percent / 100\<close>, the subtraction and the product are float
  operations; the comparison of the integer with the float is exact.
\<close>

definition shrink_threshold :: "int \<Rightarrow> int \<Rightarrow> rat" where
  "shrink_threshold n percent = rdbl (rdbl (of_int n) * rdbl (1 - rdbl (of_int percent / 100)))"

definition check_shrink :: "int \<Rightarrow> int option \<Rightarrow> int \<Rightarrow> bool \<Rightarrow> string option" where
  "check_shrink items last_items percent force =
     (if items \<le> 0 then Some ''shrink_guard''
      else if force \<or> last_items = None \<or> the last_items \<le> 0 then None
      else if of_int items < shrink_threshold (the last_items) percent then Some ''shrink_guard''
      else None)"

text \<open>The float threshold is close to the exact one.\<close>

lemma shrink_threshold_error:
  assumes n: "0 < n" "n \<le> 2 ^ 40" and p: "1 \<le> percent" "percent \<le> 100"
  shows "\<bar>shrink_threshold n percent - of_int (n * (100 - percent)) / 100\<bar> < 1 / 200"
proof (cases "percent = 100")
  case True
  moreover have "rdbl 1 = 1" by code_simp
  ultimately show ?thesis by (simp add: shrink_threshold_def)
next
  case False
  define \<epsilon> :: rat where "\<epsilon> = 1 / 2 ^ 53"
  define a :: rat where "a = of_int percent / 100"
  define N :: rat where "N = of_int n"
  define A B C where "A = rdbl a" and "B = rdbl (1 - A)" and "C = rdbl N"
  have eps: "0 < \<epsilon>" "\<epsilon> < 1 / 1000" by (simp_all add: \<epsilon>_def)
  have N: "0 < N" "N \<le> 2 ^ 40"
    using n by (simp add: N_def, metis N_def of_int_le_iff of_int_numeral of_int_power)
  have a: "1 / 100 \<le> a" "a \<le> 99 / 100" using p False by (simp_all add: a_def)
  have err: "\<bar>rdbl x - x\<bar> \<le> \<epsilon> * x" if "0 \<le> x" for x
    using rdbl_error [OF that] by (simp add: \<epsilon>_def)
  have A: "\<bar>A - a\<bar> \<le> \<epsilon>" "0 \<le> 1 - A" "1 - A \<le> 1"
  proof -
    have "\<bar>A - a\<bar> \<le> \<epsilon> * a" unfolding A_def using err [of a] a by simp
    also have "\<epsilon> * a \<le> \<epsilon>" using eps a by simp
    finally show e: "\<bar>A - a\<bar> \<le> \<epsilon>" .
    show "0 \<le> 1 - A" using e eps a by (simp add: abs_le_iff)
    have "0 \<le> A" unfolding A_def by (rule rdbl_bounds(3)) (use a in simp)
    then show "1 - A \<le> 1" by simp
  qed
  have B: "\<bar>B - (1 - A)\<bar> \<le> \<epsilon>" "0 \<le> B" "B \<le> 11 / 10"
  proof -
    have "\<bar>B - (1 - A)\<bar> \<le> \<epsilon> * (1 - A)" unfolding B_def using err [of "1 - A"] A by simp
    also have "\<epsilon> * (1 - A) \<le> \<epsilon>" using eps A by simp
    finally show e: "\<bar>B - (1 - A)\<bar> \<le> \<epsilon>" .
    show "0 \<le> B" unfolding B_def by (rule rdbl_bounds(3)) (use A in simp)
    show "B \<le> 11 / 10" using e eps A by (simp add: abs_le_iff)
  qed
  have C: "\<bar>C - N\<bar> \<le> \<epsilon> * N" "0 \<le> C" "C \<le> 11 / 10 * N"
  proof -
    show e: "\<bar>C - N\<bar> \<le> \<epsilon> * N" unfolding C_def using err [of N] N by simp
    show "0 \<le> C" unfolding C_def by (rule rdbl_bounds(3)) (use N in simp)
    have "\<epsilon> * N \<le> 1 / 1000 * N" using eps N by (intro mult_right_mono) auto
    then show "C \<le> 11 / 10 * N" using e N unfolding abs_le_iff by linarith
  qed
  have CB: "0 \<le> C * B" "C * B \<le> 2 * N"
  proof -
    show "0 \<le> C * B" using B C by simp
    have "C * B \<le> (11 / 10 * N) * (11 / 10)" using B C N by (intro mult_mono) auto
    also have "\<dots> \<le> 2 * N" using N by simp
    finally show "C * B \<le> 2 * N" .
  qed
  have d1: "\<bar>rdbl (C * B) - C * B\<bar> \<le> 2 * (\<epsilon> * N)"
  proof -
    have "\<bar>rdbl (C * B) - C * B\<bar> \<le> \<epsilon> * (C * B)" by (rule err [OF CB(1)])
    also have "\<dots> \<le> \<epsilon> * (2 * N)" using CB eps by (intro mult_left_mono) auto
    finally show ?thesis by simp
  qed
  have d2: "\<bar>C * B - N * B\<bar> \<le> 2 * (\<epsilon> * N)"
  proof -
    have "\<bar>C * B - N * B\<bar> = \<bar>C - N\<bar> * B" using B by (simp add: left_diff_distrib [symmetric] abs_mult)
    also have "\<dots> \<le> (\<epsilon> * N) * 2" using B C eps N by (intro mult_mono) auto
    finally show ?thesis by simp
  qed
  have d3: "\<bar>N * B - N * (1 - a)\<bar> \<le> 2 * (\<epsilon> * N)"
  proof -
    have "\<bar>B - (1 - a)\<bar> \<le> 2 * \<epsilon>" using A(1) B(1) by linarith
    then have "N * \<bar>B - (1 - a)\<bar> \<le> N * (2 * \<epsilon>)" using N by (intro mult_left_mono) auto
    moreover have "\<bar>N * B - N * (1 - a)\<bar> = N * \<bar>B - (1 - a)\<bar>"
      using N by (simp add: right_diff_distrib [symmetric] abs_mult)
    ultimately show ?thesis by (simp add: mult.commute)
  qed
  have "\<epsilon> * N \<le> \<epsilon> * 2 ^ 40" using N eps by (intro mult_left_mono) auto
  also have "\<dots> = 1 / 8192" by (simp add: \<epsilon>_def)
  finally have "\<bar>rdbl (C * B) - N * (1 - a)\<bar> < 1 / 200" using d1 d2 d3 by linarith
  moreover have "shrink_threshold n percent = rdbl (C * B)"
    by (simp add: shrink_threshold_def A_def B_def C_def N_def a_def)
  moreover have "N * (1 - a) = of_int (n * (100 - percent)) / 100"
    by (simp add: N_def a_def right_diff_distrib)
  ultimately show ?thesis by simp
qed

text \<open>At equality the float decides: an exact drop of 18 percent (150 items to 123) is refused, although
  it is not more than 18 percent.\<close>

lemma rdbl_value:
  "x \<noteq> 0 \<Longrightarrow> ilog2 x = e \<Longrightarrow> round_even (x / 2 powi (e - 52)) = m \<Longrightarrow> rdbl x = of_int m * 2 powi (e - 52)"
  by (simp add: rdbl_def)

lemma boundary_floats:
  "rdbl (9 / 50) = 3242591731706757 / 18014398509481984" "rdbl (14771806777775227 / 18014398509481984) = 3692951694443807 / 4503599627370496" "rdbl 150 = 150"
  "rdbl (276971377083285525 / 2251799813685248) = 8655355533852673 / 70368744177664"
proof -
  have e1: "ilog2 (9 / 50) = -3" and e2: "ilog2 (14771806777775227 / 18014398509481984) = -1" and e3: "ilog2 150 = 7"
    and e4: "ilog2 (276971377083285525 / 2251799813685248) = 6" by (simp_all add: ilog2_unique power_int_def power_divide)
  have r1: "round_even (9 / 50 / 2 powi (-3 - 52)) = 6485183463413514" by (rule round_even_unique) (simp add: power_int_def power_divide)
  have "\<lfloor>14771806777775227 / 2 :: rat\<rfloor> = 7385903388887613" by (rule floor_unique) simp_all
  then   have r2: "round_even ((14771806777775227 / 18014398509481984) / 2 powi (-1 - 52)) = 7385903388887614"
    by (simp add: round_even_def power_int_def power_divide)
  have r3: "round_even (150 / 2 powi (7 - 52)) = 5277655813324800" by (rule round_even_unique) (simp add: power_int_def power_divide)
  have r4: "round_even (276971377083285525 / 2251799813685248 / 2 powi (6 - 52)) = 8655355533852673" by (rule round_even_unique) (simp add: power_int_def power_divide)
  show "rdbl (9 / 50) = 3242591731706757 / 18014398509481984" using rdbl_value [OF _ e1 r1] by (simp add: power_int_def power_divide)
  show "rdbl (14771806777775227 / 18014398509481984) = 3692951694443807 / 4503599627370496" using rdbl_value [OF _ e2 r2] by (simp add: power_int_def power_divide)
  show "rdbl 150 = 150" using rdbl_value [OF _ e3 r3] by (simp add: power_int_def power_divide)
  show "rdbl (276971377083285525 / 2251799813685248) = 8655355533852673 / 70368744177664" using rdbl_value [OF _ e4 r4] by (simp add: power_int_def power_divide)
qed

lemma check_shrink_boundary:
  "check_shrink 123 (Some 150) 18 False = Some ''shrink_guard'' \<and> 123 * 100 = (150 * (100 - 18) :: int)"
  by (simp add: check_shrink_def shrink_threshold_def boundary_floats)

text \<open>C14. The shrink guard against its exact reading, for counts up to \<open>2 ^ 40\<close>: a set that shrank by more than
  \<open>percent\<close> percent is refused, one that shrank by less is accepted (the float arithmetic decides
  only the case of equality); zero items are always refused, and \<open>force\<close> lifts
  nothing else.  At equality it can refuse a drop that is not more than the percentage.\<close>

theorem check_shrink_exact:
  assumes "0 < n" "n \<le> 2 ^ 40" "1 \<le> percent" "percent \<le> 100" "0 < items"
  shows "(100 * items < n * (100 - percent) \<longrightarrow> check_shrink items (Some n) percent False = Some ''shrink_guard'')
    \<and> (n * (100 - percent) < 100 * items \<longrightarrow> check_shrink items (Some n) percent False = None)
    \<and> check_shrink items (Some n) percent True = None
    \<and> check_shrink 0 (Some n) percent True = Some ''shrink_guard''
    \<and> (\<exists>items' n' percent'. 100 * items' = n' * (100 - percent') \<and> check_shrink items' (Some n') percent' False \<noteq> None)"
proof -
  let ?t = "shrink_threshold n percent" and ?m = "n * (100 - percent)"
  have e: "\<bar>?t - of_int ?m / 100\<bar> < 1 / 200" by (rule shrink_threshold_error) (use assms in auto)
  have lt: "of_int items < ?t" if "100 * items < ?m"
  proof -
    have "100 * items + 1 \<le> ?m" using that by simp
    then have "(of_int (100 * items + 1) :: rat) \<le> of_int ?m" by (simp only: of_int_le_iff)
    then have "of_int items + 1 / 100 \<le> (of_int ?m / 100 :: rat)" by simp
    then show ?thesis using e by linarith
  qed
  have ge: "\<not> of_int items < ?t" if "?m < 100 * items"
  proof -
    have "?m + 1 \<le> 100 * items" using that by simp
    then have "(of_int (?m + 1) :: rat) \<le> of_int (100 * items)" by (simp only: of_int_le_iff)
    then have "of_int ?m / 100 + 1 / 100 \<le> (of_int items :: rat)" by simp
    then show ?thesis using e by linarith
  qed
  have eq: "\<exists>items' n' percent'. 100 * items' = n' * (100 - percent') \<and> check_shrink items' (Some n') percent' False \<noteq> None"
    using check_shrink_boundary by (intro exI [of _ 123] exI [of _ 150] exI [of _ 18]) simp
  show ?thesis using assms lt ge eq by (simp add: check_shrink_def)
qed

theorem check_shrink_exact_witness:
  "check_shrink 69 (Some 100) 30 False = Some ''shrink_guard'' \<and> check_shrink 71 (Some 100) 30 False = None"
  using check_shrink_exact [of 100 30 69] check_shrink_exact [of 100 30 71] by simp

end
