(* ===== verification/SS_Config.thy ===== *)
theory SS_Config
  imports SS_Merge Py_Json
begin

text \<open>
  \<open>secrets-sync/app/engine/config.py\<close>: the options file and the environment become a \<open>config\<close>
  record; every invalid option is reported as a problem and replaced by its default.
\<close>

section \<open>Constants\<close>

definition PROVIDER_MODULES :: "string dict" where
  "PROVIDER_MODULES =
     [(''bitwarden'', ''app.providers.bitwarden''), (''sops'', ''app.providers.sops'')]"

definition COLLISION_POLICIES :: "string list" where
  "COLLISION_POLICIES = [''error'', ''priority'']"

definition LOG_LEVELS :: "string list" where
  "LOG_LEVELS = [''debug'', ''info'', ''warning'', ''error'']"

definition USAGE_SCOPES :: "string list" where
  "USAGE_SCOPES = [''off'', ''config'', ''all'']"

definition MIN_INTERVAL :: int where "MIN_INTERVAL = 60"
definition MIN_CHECK_INTERVAL :: int where "MIN_CHECK_INTERVAL = 30"
definition SYNTHETIC_MAX_TEMPLATE :: nat where "SYNTHETIC_MAX_TEMPLATE = 2048"

text \<open>\<open>^[A-Za-z_][A-Za-z0-9_]{0,127}$\<close>, with and without the anchors' newline exception.\<close>

definition identifier_128 :: "string \<Rightarrow> bool" where
  "identifier_128 = re_first_rest (\<lambda>c. is_alpha c \<or> c = CHR ''_'') (\<lambda>c. is_alnum c \<or> c = CHR ''_'') 127"

definition SYNTHETIC_NAME :: "string \<Rightarrow> bool" where
  "SYNTHETIC_NAME = re_match_eol identifier_128"

definition SYNTHETIC_PATTERN :: string where
  "SYNTHETIC_PATTERN = ''^[A-Za-z_][A-Za-z0-9_]{0,127}$''"

section \<open>The record\<close>

record config =
  cf_providers :: "string list"
  cf_interval :: int
  cf_collision_policy :: string
  cf_shrink_guard_percent :: int
  cf_log_level :: string
  cf_provider_cfg :: "pyval dict dict"
  cf_secrets_file :: string
  cf_files_dir :: string
  cf_state_file :: string
  cf_data_dir :: string
  cf_port :: int
  cf_version :: string
  cf_problems :: "problem list"
  cf_usage_scan :: string
  cf_addon_configs_dir :: string
  cf_check_interval :: int
  cf_synthetic_keys :: "string dict"

text \<open>What \<open>load_config\<close> may raise: an unhashable provider name, and a port such as a superscript digit.\<close>

datatype py_exn = TypeError | ValueError

datatype load_error = ProviderLoadError (le_code: string) (le_message: string)

section \<open>One option\<close>

definition config_invalid :: "string \<Rightarrow> problem" where
  "config_invalid message = error_problem ''config_invalid'' message"

definition quoted :: "string \<Rightarrow> string" where
  "quoted s = [CHR 0x27] @ s @ [CHR 0x27]"

fun int_option :: "pyval \<Rightarrow> int \<Rightarrow> int \<Rightarrow> int \<Rightarrow> string \<Rightarrow> int \<times> problem list" where
  "int_option PNone dflt lo hi name = (dflt, [])"
| "int_option (PInt i) dflt lo hi name =
     (if lo \<le> i \<and> i \<le> hi then (i, [])
      else (dflt, [config_invalid (''option '' @ quoted name @ '' must be an integer in '' @ int_str lo @ ''..'' @ int_str hi)]))"
| "int_option v dflt lo hi name =
     (dflt, [config_invalid (''option '' @ quoted name @ '' must be an integer in '' @ int_str lo @ ''..'' @ int_str hi)])"

definition check_interval_option :: "pyval \<Rightarrow> int \<times> problem list" where
  "check_interval_option raw =
     (let (value, ps) = int_option raw 60 0 3600 ''check_interval'' in
      (if 0 < value \<and> value < MIN_CHECK_INTERVAL then MIN_CHECK_INTERVAL else value, ps))"

definition synthetic_entry ::
  "nat \<Rightarrow> pyval \<Rightarrow> string dict \<times> problem list \<Rightarrow> string dict \<times> problem list" where
  "synthetic_entry index item acc =
     (let (out, ps) = acc; loc = ''synthetic_keys['' @ nat_str index @ '']'';
          (name, template) = (if is_dict item then (vget (as_dict item) ''name'', vget (as_dict item) ''template'')
                              else (PNone, PNone)) in
      case name of
        PStr n \<Rightarrow>
          (if \<not> SYNTHETIC_NAME n
           then (out, ps @ [error_problem ''synthetic_invalid_name'' (loc @ '': name must match '' @ SYNTHETIC_PATTERN)])
           else if n \<in> set (keys out)
           then (out, ps @ [error_problem ''synthetic_invalid_name'' (loc @ '': duplicate name '' @ quoted n)])
           else (case template of
               PStr t \<Rightarrow>
                 (if strip t = [] then (out, ps @ [config_invalid (loc @ '': template must be a non-empty string'')])
                  else if SYNTHETIC_MAX_TEMPLATE < length t
                  then (out, ps @ [error_problem ''synthetic_template_too_long''
                    (loc @ '': template exceeds '' @ nat_str SYNTHETIC_MAX_TEMPLATE @ '' characters'')])
                  else (out @ [(n, t)], ps))
             | _ \<Rightarrow> (out, ps @ [config_invalid (loc @ '': template must be a non-empty string'')])))
      | _ \<Rightarrow> (out, ps @ [error_problem ''synthetic_invalid_name'' (loc @ '': name must match '' @ SYNTHETIC_PATTERN)]))"

fun synthetic_entries ::
  "nat \<Rightarrow> pyval list \<Rightarrow> string dict \<times> problem list \<Rightarrow> string dict \<times> problem list" where
  "synthetic_entries i [] acc = acc"
| "synthetic_entries i (item # items) acc = synthetic_entries (Suc i) items (synthetic_entry i item acc)"

fun synthetic_option :: "pyval \<Rightarrow> string dict \<times> problem list" where
  "synthetic_option PNone = ([], [])"
| "synthetic_option (PList items) = synthetic_entries 0 items ([], [])"
| "synthetic_option _ = ([], [config_invalid (''option '' @ quoted ''synthetic_keys'' @ '' must be a list'')])"

definition choice_option :: "pyval \<Rightarrow> string \<Rightarrow> string list \<Rightarrow> string \<Rightarrow> string \<times> problem list" where
  "choice_option raw dflt choices name =
     (let bad = (dflt, [config_invalid (''option '' @ quoted name @ '' must be one of '' @ join '', '' choices)]) in
      case raw of
        PNone \<Rightarrow> (dflt, [])
      | PStr s \<Rightarrow> if s \<in> set choices then (s, []) else bad
      | _ \<Rightarrow> bad)"

section \<open>The whole configuration\<close>

text \<open>One entry of the \<open>providers\<close> list; looking up an unhashable value raises \<open>TypeError\<close>.\<close>

definition provider_entry ::
  "(pyval \<Rightarrow> string) \<Rightarrow> pyval \<Rightarrow> string list \<times> problem list \<Rightarrow> py_exn + string list \<times> problem list" where
  "provider_entry repr name acc =
     (let (ps, problems) = acc in
      if is_list name \<or> is_dict name then Inl TypeError
      else if \<not> (\<exists>n \<in> set (keys PROVIDER_MODULES). name = PStr n)
      then Inr (ps, problems @ [config_invalid (''unknown provider '' @ quoted (py_str repr name))])
      else if py_str repr name \<in> set ps then Inr (ps, problems)
      else Inr (ps @ [py_str repr name], problems))"

definition providers_option ::
  "(pyval \<Rightarrow> string) \<Rightarrow> pyval dict \<Rightarrow> py_exn + string list \<times> problem list" where
  "providers_option repr options =
     (let raw = (case dget options ''providers'' of None \<Rightarrow> PList [PStr ''bitwarden''] | Some v \<Rightarrow> v);
          r = (case raw of
                 PList names \<Rightarrow> fold_sum (provider_entry repr) names ([], [])
               | _ \<Rightarrow> Inr ([], [config_invalid (''option '' @ quoted ''providers'' @ '' must be a list'')])) in
      case r of
        Inl e \<Rightarrow> Inl e
      | Inr (ps, problems) \<Rightarrow>
          Inr (ps, if ps = [] then problems @ [error_problem ''no_providers'' ''no provider is enabled''] else problems))"

text \<open>
  \<open>int(port_raw) if port_raw.isdigit() else 8099\<close>: \<open>isdigit\<close> also accepts the superscripts, which
  \<open>int\<close> rejects, and \<open>int\<close> rejects more than 4300 digits.
\<close>

definition py_isdigit :: "char \<Rightarrow> bool" where
  "py_isdigit c \<longleftrightarrow> is_digit c \<or> (of_char c :: nat) \<in> {178, 179, 185}"

definition port_option :: "string \<Rightarrow> py_exn + int" where
  "port_option raw =
     (if raw = [] \<or> \<not> list_all py_isdigit raw then Inr 8099
      else if \<not> list_all is_digit raw \<or> 4300 < length raw then Inl ValueError
      else Inr (digits_val raw))"

definition env_get :: "string dict \<Rightarrow> string \<Rightarrow> string \<Rightarrow> string" where
  "env_get env k dflt = (case dget env k of None \<Rightarrow> dflt | Some v \<Rightarrow> v)"

text \<open>The options file: \<open>read\<close> gives the bytes of a file, None when it cannot be read.\<close>

definition read_options :: "(string \<Rightarrow> bytes option) \<Rightarrow> string \<Rightarrow> pyval dict \<times> problem list" where
  "read_options read p =
     (case Option.bind (read p) (\<lambda>d. Option.bind (utf8_decode d) json_loads) of
        Some (PDict d) \<Rightarrow> (d, [])
      | Some _ \<Rightarrow> ([], [config_invalid ''options file must contain a JSON object''])
      | None \<Rightarrow> ([], [config_invalid ''options file is missing or not valid JSON'']))"

definition load_config ::
  "(pyval \<Rightarrow> string) \<Rightarrow> (string \<Rightarrow> bytes option) \<Rightarrow> string dict \<Rightarrow> py_exn + config" where
  "load_config repr read env =
     (let (options, p0) = read_options read (env_get env ''SS_OPTIONS'' ''/data/options.json'') in
      case providers_option repr options of
        Inl e \<Rightarrow> Inl e
      | Inr (ps, p1) \<Rightarrow>
      (let pcfg = map (\<lambda>name. (name, as_dict (vget options name))) (keys PROVIDER_MODULES) in
      case port_option (env_get env ''SS_PORT'' ''8099'') of
        Inl e \<Rightarrow> Inl e
      | Inr the_port \<Rightarrow>
      (let (scan, p2) = choice_option (vget options ''usage_scan'') ''all'' USAGE_SCOPES ''usage_scan'';
           (check, p3) = check_interval_option (vget options ''check_interval'');
           (synth, p4) = synthetic_option (vget options ''synthetic_keys'');
           (intv, p5) = int_option (vget options ''interval'') 300 MIN_INTERVAL 86400 ''interval'';
           (policy, p6) = choice_option (vget options ''collision_policy'') ''error'' COLLISION_POLICIES ''collision_policy'';
           (percent, p7) = int_option (vget options ''shrink_guard_percent'') 30 1 100 ''shrink_guard_percent'';
           (level, p8) = choice_option (vget options ''log_level'') ''info'' LOG_LEVELS ''log_level'' in
       Inr \<lparr>cf_providers = ps, cf_interval = intv, cf_collision_policy = policy, cf_shrink_guard_percent = percent,
            cf_log_level = level, cf_provider_cfg = pcfg,
            cf_secrets_file = env_get env ''SS_SECRETS_FILE'' ''/config/secrets.yaml'',
            cf_files_dir = env_get env ''SS_FILES_DIR'' ''/config/secrets_files'',
            cf_state_file = env_get env ''SS_STATE_FILE'' ''/data/state.json'',
            cf_data_dir = env_get env ''SS_DATA_DIR'' ''/data'',
            cf_port = the_port, cf_version = env_get env ''SS_ADDON_VERSION'' ''unknown'',
            cf_problems = p0 @ p1 @ p2 @ p3 @ p4 @ p5 @ p6 @ p7 @ p8,
            cf_usage_scan = scan, cf_addon_configs_dir = env_get env ''SS_ADDON_CONFIGS_DIR'' ''/addon_configs'',
            cf_check_interval = check, cf_synthetic_keys = synth\<rparr>)))"

text \<open>\<open>load_provider\<close>: importing the module and building the provider is the parameter \<open>import_module\<close>.\<close>

definition load_provider ::
  "(string \<Rightarrow> pyval dict \<Rightarrow> 'p option) \<Rightarrow> string \<Rightarrow> pyval dict \<Rightarrow> load_error + 'p" where
  "load_provider import_module name cfg =
     (case dget PROVIDER_MODULES name of
        None \<Rightarrow> Inl (ProviderLoadError ''unknown_provider'' (''unknown provider '' @ quoted name))
      | Some md \<Rightarrow>
          (case import_module md cfg of
             None \<Rightarrow> Inl (ProviderLoadError ''provider_unavailable'' (''provider '' @ quoted name @ '' cannot be loaded''))
           | Some p \<Rightarrow> Inr p))"

section \<open>Well-formedness\<close>

definition synthetic_ok :: "string dict \<Rightarrow> bool" where
  "synthetic_ok d \<longleftrightarrow> distinct (keys d)
     \<and> list_all (\<lambda>(n, t). SYNTHETIC_NAME n \<and> strip t \<noteq> [] \<and> length t \<le> SYNTHETIC_MAX_TEMPLATE) d"

definition config_ok :: "config \<Rightarrow> bool" where
  "config_ok c \<longleftrightarrow>
     distinct (cf_providers c) \<and> set (cf_providers c) \<subseteq> set (keys PROVIDER_MODULES)
     \<and> 60 \<le> cf_interval c \<and> cf_interval c \<le> 86400
     \<and> cf_collision_policy c \<in> set COLLISION_POLICIES \<and> cf_log_level c \<in> set LOG_LEVELS \<and> cf_usage_scan c \<in> set USAGE_SCOPES
     \<and> 1 \<le> cf_shrink_guard_percent c \<and> cf_shrink_guard_percent c \<le> 100
     \<and> (cf_check_interval c = 0 \<or> 30 \<le> cf_check_interval c \<and> cf_check_interval c \<le> 3600)
     \<and> synthetic_ok (cf_synthetic_keys c)
     \<and> keys (cf_provider_cfg c) = keys PROVIDER_MODULES
     \<and> (cf_problems c = [] \<longrightarrow> cf_providers c \<noteq> [])"

lemma int_option_range:
  "lo \<le> dflt \<Longrightarrow> dflt \<le> hi \<Longrightarrow> int_option raw dflt lo hi name = (i, ps) \<Longrightarrow> lo \<le> i \<and> i \<le> hi"
  by (cases raw) (auto split: if_splits)

lemma check_interval_range:
  "check_interval_option raw = (i, ps) \<Longrightarrow> i = 0 \<or> 30 \<le> i \<and> i \<le> 3600"
  using int_option_range [of 0 60 3600 raw "''check_interval''"]
  by (auto simp: check_interval_option_def MIN_CHECK_INTERVAL_def Let_def split: prod.splits if_splits)

lemma choice_option_range:
  "dflt \<in> set choices \<Longrightarrow> choice_option raw dflt choices name = (s, ps) \<Longrightarrow> s \<in> set choices"
  by (auto simp: choice_option_def Let_def split: pyval.splits if_splits)

lemma synthetic_entry_ok:
  "synthetic_ok (fst acc) \<Longrightarrow> synthetic_ok (fst (synthetic_entry i item acc))"
  by (auto simp: synthetic_entry_def synthetic_ok_def Let_def split: prod.splits pyval.splits if_splits)

lemma synthetic_entries_ok:
  "synthetic_ok (fst acc) \<Longrightarrow> synthetic_ok (fst (synthetic_entries i items acc))"
  by (induction i items acc rule: synthetic_entries.induct) (simp_all add: synthetic_entry_ok)

lemma synthetic_option_ok: "synthetic_option raw = (d, ps) \<Longrightarrow> synthetic_ok d"
proof (cases raw)
  case (PList items)
  moreover assume "synthetic_option raw = (d, ps)"
  ultimately show ?thesis using synthetic_entries_ok [of "([], [])" 0 items] by (simp add: synthetic_ok_def)
qed (simp_all add: synthetic_ok_def)

definition names_ok :: "string list \<times> problem list \<Rightarrow> bool" where
  "names_ok acc \<longleftrightarrow> distinct (fst acc) \<and> set (fst acc) \<subseteq> set (keys PROVIDER_MODULES)"

lemma provider_entry_ok:
  "names_ok acc \<Longrightarrow> provider_entry repr name acc = Inr acc' \<Longrightarrow> names_ok acc'"
  by (force simp: names_ok_def provider_entry_def Let_def split: if_splits prod.splits)

lemma providers_option_ok:
  assumes "providers_option repr options = Inr (ps, qs)"
  shows "distinct ps \<and> set ps \<subseteq> set (keys PROVIDER_MODULES) \<and> (qs = [] \<longrightarrow> ps \<noteq> [])"
proof -
  have "names_ok acc" if "fold_sum (provider_entry repr) names ([], []) = Inr acc" for names acc
    using that by (rule fold_sum_invariant [where I = names_ok, rotated 2])
      (simp add: names_ok_def, erule (1) provider_entry_ok)
  then show ?thesis
    using assms
    by (fastforce simp: providers_option_def Let_def names_ok_def
        split: sum.splits prod.splits if_splits pyval.splits option.splits)
qed

text \<open>C23. Whatever the options file and the environment contain, a configuration that loads is well-formed:
  every number is in its range, every choice is one of the documented values, the providers are
  known and distinct, the change check is off or at least 30 s apart, the synthetic keys have
  distinct valid names and bounded templates, and a configuration without problems has a provider.\<close>

theorem load_config_ok:
  assumes "load_config repr read env = Inr c"
  shows "config_ok c"
proof -
  obtain options p0 where o: "read_options read (env_get env ''SS_OPTIONS'' ''/data/options.json'') = (options, p0)"
    by (cases "read_options read (env_get env ''SS_OPTIONS'' ''/data/options.json'')")
  obtain ps p1 where ps: "providers_option repr options = Inr (ps, p1)"
    using assms o by (cases "providers_option repr options") (auto simp: load_config_def)
  obtain n where n: "port_option (env_get env ''SS_PORT'' ''8099'') = Inr n"
    using assms o ps by (cases "port_option (env_get env ''SS_PORT'' ''8099'')") (auto simp: load_config_def)
  obtain scan p2 where scan: "choice_option (vget options ''usage_scan'') ''all'' USAGE_SCOPES ''usage_scan'' = (scan, p2)"
    by (meson surj_pair)
  obtain ch p3 where ch: "check_interval_option (vget options ''check_interval'') = (ch, p3)" by (meson surj_pair)
  obtain syn p4 where syn: "synthetic_option (vget options ''synthetic_keys'') = (syn, p4)" by (meson surj_pair)
  obtain i p5 where i: "int_option (vget options ''interval'') 300 MIN_INTERVAL 86400 ''interval'' = (i, p5)"
    by (meson surj_pair)
  obtain pol p6 where pol: "choice_option (vget options ''collision_policy'') ''error'' COLLISION_POLICIES ''collision_policy'' = (pol, p6)"
    by (meson surj_pair)
  obtain pc p7 where pc: "int_option (vget options ''shrink_guard_percent'') 30 1 100 ''shrink_guard_percent'' = (pc, p7)"
    by (meson surj_pair)
  obtain lv p8 where lv: "choice_option (vget options ''log_level'') ''info'' LOG_LEVELS ''log_level'' = (lv, p8)"
    by (meson surj_pair)
  have "scan \<in> set USAGE_SCOPES" "pol \<in> set COLLISION_POLICIES" "lv \<in> set LOG_LEVELS"
    using choice_option_range [OF _ scan] choice_option_range [OF _ pol] choice_option_range [OF _ lv]
    by (simp_all add: USAGE_SCOPES_def COLLISION_POLICIES_def LOG_LEVELS_def)
  moreover have "60 \<le> i \<and> i \<le> 86400" "1 \<le> pc \<and> pc \<le> 100"
    using int_option_range [OF _ _ i] int_option_range [OF _ _ pc] by (simp_all add: MIN_INTERVAL_def)
  moreover note run = assms [unfolded load_config_def o ps n scan ch syn i pol pc lv Let_def prod.case sum.case]
  note c = sum.inject(2) [THEN iffD1, OF run, symmetric]
  have "keys (map (\<lambda>name. (name, as_dict (vget options name))) (keys PROVIDER_MODULES)) = keys PROVIDER_MODULES"
    by (simp only: map_map comp_def fst_conv list.map_ident)
  moreover have "p0 @ p1 @ p2 @ p3 @ p4 @ p5 @ p6 @ p7 @ p8 = [] \<Longrightarrow> p1 = []" by simp
  ultimately show ?thesis
    using providers_option_ok [OF ps] check_interval_range [OF ch] synthetic_option_ok [OF syn]
    unfolding config_ok_def c config.simps by blast
qed

lemma demo_parts:
  "providers_option (\<lambda>_. []) [] = Inr ([''bitwarden''], [])" "port_option ''8099'' = Inr 8099"
   apply (simp add: providers_option_def provider_entry_def PROVIDER_MODULES_def)
  apply (simp add: port_option_def py_isdigit_def is_digit_def digits_val_def)
  done

theorem load_config_ok_witness:
  "case load_config (\<lambda>_. []) (\<lambda>_. None) [] of Inl _ \<Rightarrow> False
   | Inr c \<Rightarrow> config_ok c \<and> cf_interval c = 300"
proof -
  have "case load_config (\<lambda>_. []) (\<lambda>_. None) [] of Inl _ \<Rightarrow> False | Inr c \<Rightarrow> cf_interval c = 300"
    by (simp add: load_config_def read_options_def env_get_def vget_def demo_parts choice_option_def
        check_interval_option_def MIN_CHECK_INTERVAL_def)
  then show ?thesis using load_config_ok [of "\<lambda>_. []" "\<lambda>_. None" "[]"]
    by (auto split: sum.splits)
qed

end
