(* ===== verification/SS_Writer_Proofs.thy ===== *)
theory SS_Writer_Proofs
  imports SS_Writer
begin

text \<open>
  Correctness of the writer: staging and renaming in one directory (any crash point leaves the old
  or the new content), the quoted rendering and its reader, and the containment of provider files.
\<close>

section \<open>Staging and renaming\<close>

definition tmp_name :: "string \<Rightarrow> string \<Rightarrow> string" where
  "tmp_name x t = ''.'' @ x @ ''.'' @ t @ ''.tmp''"

lemma plain_tmp_name: "plain_name (tmp_name x t)"
  by (auto simp: plain_name_def tmp_name_def dest: arg_cong [where f = length])

lemma tmp_name_neq [simp]: "tmp_name x t \<noteq> x" "x \<noteq> tmp_name x t"
  by (auto simp: tmp_name_def dest: arg_cong [where f = length])

lemma tmp_name_inj [simp]: "tmp_name x t = tmp_name x t' \<longleftrightarrow> t = t'"
  by (simp add: tmp_name_def)

text \<open>An assertion that creating a fresh staging name cannot break.\<close>

definition tmp_free :: "string \<Rightarrow> ((string \<Rightarrow> node option) \<Rightarrow> bool) \<Rightarrow> bool" where
  "tmp_free x A \<longleftrightarrow>
     (\<forall>v t n. A v \<longrightarrow> v (tmp_name x t) = None \<longrightarrow> A (v(tmp_name x t := Some n)))"

definition staged ::
  "((string \<Rightarrow> node option) \<Rightarrow> bool) \<Rightarrow> string \<Rightarrow> node \<Rightarrow> (string \<Rightarrow> node option) \<Rightarrow> bool" where
  "staged A name n v \<longleftrightarrow> (\<exists>v'. A v' \<and> v' name = None \<and> v = v'(name := Some n))"

lemma stagedI: "A v' \<Longrightarrow> v' name = None \<Longrightarrow> staged A name n (v'(name := Some n))"
  by (auto simp: staged_def)

lemma staged_at: "staged A name n v \<Longrightarrow> v name = Some n"
  by (auto simp: staged_def)

lemma staged_same:
  "staged A name (NFile e0 m0) v \<Longrightarrow> v name = Some (NFile e m) \<Longrightarrow> v(name := Some (NFile e m0)) = v"
  by (drule staged_at) auto

lemma staged_write:
  "staged A name (NFile e0 m0) v \<Longrightarrow> v name = Some (NFile e m) \<Longrightarrow>
   staged A name (NFile data m0) (v(name := Some (NFile data m)))"
  using staged_at [of A name "NFile e0 m0" v] by (auto simp: staged_def)

lemma staged_no_link: "staged A name (NFile e m) v \<Longrightarrow> v name \<noteq> Some (NLink t)"
  by (drule staged_at) auto

lemma staged_upd: "staged A name n v \<Longrightarrow> staged A name n' (v(name := Some n'))"
  by (auto simp: staged_def)

lemma staged_del: "staged A name n v \<Longrightarrow> A (v(name := None))"
  by (auto simp: staged_def) (metis fun_upd_triv)

lemma staged_free: "tmp_free x A \<Longrightarrow> staged A (tmp_name x t) n v \<Longrightarrow> A v"
  by (auto simp: staged_def tmp_free_def)

lemma tmp_free_conj: "tmp_free x A \<Longrightarrow> tmp_free x B \<Longrightarrow> tmp_free x (\<lambda>v. A v \<and> B v)"
  by (auto simp: tmp_free_def)

lemma stage_rule:
  assumes "tmp_free x G" "tmp_free x R"
  shows "valid (dirst B d G R) (stage (d @ [x]) data)
    (\<lambda>p. dirst B d G (\<lambda>v. \<exists>t. p = d @ [tmp_name x t] \<and> staged (\<lambda>v. G v \<and> R v) (tmp_name x t) (NFile data 384) v))
    (\<lambda>_. dirst B d G R)"
proof -
  let ?A = "\<lambda>v. G v \<and> R v"
  have A: "tmp_free x ?A" using assms by (rule tmp_free_conj)
  have A': "staged ?A (tmp_name x t) n v \<Longrightarrow> G v \<and> R v" for t n v
    using staged_free [OF A] by blast
  have mk: "valid (dirst B d G R) (os_mkstemp d (''.'' @ x @ ''.'') ''.tmp'')
    (\<lambda>p. dirst B d G (\<lambda>v. \<exists>t. p = d @ [tmp_name x t] \<and> staged ?A (tmp_name x t) (NFile [] 384) v)) (\<lambda>_. dirst B d G R)"
  proof (rule valid_weaken)
    show "valid (dirst B d G ?A) (os_mkstemp d (''.'' @ x @ ''.'') ''.tmp'')
      (\<lambda>p. dirst B d G (\<lambda>v. \<exists>t v'. p = d @ [(''.'' @ x @ ''.'') @ t @ ''.tmp''] \<and> ?A v' \<and>
         v' ((''.'' @ x @ ''.'') @ t @ ''.tmp'') = None
         \<and> v = v'((''.'' @ x @ ''.'') @ t @ ''.tmp'' := Some (NFile [] 384)))) (\<lambda>_. dirst B d G ?A)"
      by (rule dir_mkstemp) (use plain_tmp_name [of x] A in \<open>auto simp: tmp_name_def tmp_free_def\<close>)
  qed (auto elim!: dirst_mono simp: tmp_name_def staged_def)
  have body: "valid (dirst B d G (staged ?A (tmp_name x t) (NFile [] 384)))
      (andthen (os_chmod (d @ [tmp_name x t]) 384) (andthen (os_write (d @ [tmp_name x t]) data)
         (andthen os_fsync (ret (d @ [tmp_name x t])))))
      (\<lambda>p. dirst B d G (\<lambda>v. p = d @ [tmp_name x t] \<and> staged ?A (tmp_name x t) (NFile data 384) v))
      (\<lambda>_. dirst B d G (\<lambda>v. \<exists>n. staged ?A (tmp_name x t) n v))" for t
  proof (intro valid_andthen)
    show "valid (dirst B d G (staged ?A (tmp_name x t) (NFile [] 384))) (os_chmod (d @ [tmp_name x t]) 384)
        (\<lambda>_. dirst B d G (staged ?A (tmp_name x t) (NFile [] 384)))
        (\<lambda>_. dirst B d G (\<lambda>v. \<exists>n. staged ?A (tmp_name x t) n v))"
      by (rule valid_weaken [OF dir_chmod [OF plain_tmp_name,
            where R = "staged ?A (tmp_name x t) (NFile [] 384)" and G = G
            and Q = "staged ?A (tmp_name x t) (NFile [] 384)"]])
        (auto simp: staged_no_link staged_same elim!: dirst_mono)
    show "valid (dirst B d G (staged ?A (tmp_name x t) (NFile [] 384))) (os_write (d @ [tmp_name x t]) data)
        (\<lambda>_. dirst B d G (staged ?A (tmp_name x t) (NFile data 384)))
        (\<lambda>_. dirst B d G (\<lambda>v. \<exists>n. staged ?A (tmp_name x t) n v))"
      by (rule valid_weaken [OF dir_write [OF plain_tmp_name,
            where R = "staged ?A (tmp_name x t) (NFile [] 384)" and G = G
            and Q = "staged ?A (tmp_name x t) (NFile data 384)"]])
        (auto intro: staged_write A' [OF staged_upd, THEN conjunct1] elim!: dirst_mono)
    show "valid (dirst B d G (staged ?A (tmp_name x t) (NFile data 384))) os_fsync
        (\<lambda>_. dirst B d G (staged ?A (tmp_name x t) (NFile data 384)))
        (\<lambda>_. dirst B d G (\<lambda>v. \<exists>n. staged ?A (tmp_name x t) n v))"
      by (rule valid_weaken [OF dir_fsync [where R = "staged ?A (tmp_name x t) (NFile data 384)"]])
        (auto elim!: dirst_mono)
  qed (rule valid_ret, auto elim!: dirst_mono)
  have undo: "valid (dirst B d G (\<lambda>v. \<exists>n. staged ?A (tmp_name x t) n v))
      (andthen (os_unlink True (d @ [tmp_name x t])) (raise e)) Q (\<lambda>_. dirst B d G R)" for t e Q
  proof (rule valid_andthen)
    show "valid (dirst B d G (\<lambda>v. \<exists>n. staged ?A (tmp_name x t) n v)) (os_unlink True (d @ [tmp_name x t]))
        (\<lambda>_. dirst B d G ?A) (\<lambda>_. dirst B d G R)"
      by (rule valid_weaken [OF dir_unlink [OF plain_tmp_name,
            where R = "\<lambda>v. \<exists>n. staged ?A (tmp_name x t) n v" and G = G and Q = ?A]])
        (auto dest: A' staged_del elim!: dirst_mono)
  qed (rule valid_raise, auto elim!: dirst_mono)
  show ?thesis
    unfolding stage_def parent_def name_of_def butlast_snoc last_snoc
  proof (rule valid_bnd [OF mk])
    fix p
    show "valid (dirst B d G (\<lambda>v. \<exists>t. p = d @ [tmp_name x t] \<and> staged ?A (tmp_name x t) (NFile [] 384) v))
        (catch (andthen (os_chmod p 384) (andthen (os_write p data) (andthen os_fsync (ret p))))
           (\<lambda>e. andthen (os_unlink True p) (raise e)))
        (\<lambda>p. dirst B d G (\<lambda>v. \<exists>t. p = d @ [tmp_name x t] \<and> staged ?A (tmp_name x t) (NFile data 384) v))
        (\<lambda>_. dirst B d G R)"
    proof (cases "\<exists>t. p = d @ [tmp_name x t]")
      case True
      then obtain t where p: "p = d @ [tmp_name x t]" ..
      show ?thesis unfolding p
        by (rule valid_weaken [OF valid_catch [OF body undo]])
          (auto elim!: dirst_mono simp: tmp_name_def)
    next
      case False
      then show ?thesis by (auto simp: valid_def dirst_def)
    qed
  qed
qed

lemma fsync_dir_keeps: "keeps (dirst B d G R) (fsync_dir p)"
  unfolding fsync_dir_def by (rule valid_bnd [OF dir_stat dir_fsync])

text \<open>Renaming the staged file over its target, or taking it away when that fails.\<close>

lemma rename_rule:
  assumes "plain_name x" "tmp_free x G" "tmp_free x R"
    and put: "\<And>v. G v \<Longrightarrow> R v \<Longrightarrow> G (v(x := Some (NFile data 384))) \<and> Q (v(x := Some (NFile data 384)))"
    and p: "p = d @ [tmp_name x t]"
  shows "valid (dirst B d G (staged (\<lambda>v. G v \<and> R v) (tmp_name x t) (NFile data 384)))
    (os_replace p (d @ [x])) (\<lambda>_. dirst B d G Q)
    (\<lambda>_. dirst B d G (staged (\<lambda>v. G v \<and> R v) (tmp_name x t) (NFile data 384)))"
  unfolding p
proof (rule dir_replace [OF plain_tmp_name assms(1)])
  fix v n assume v: "staged (\<lambda>v. G v \<and> R v) (tmp_name x t) (NFile data 384) v" "G v"
    "v (tmp_name x t) = Some n"
  have "G (v(tmp_name x t := None))" "R (v(tmp_name x t := None))" using staged_del [OF v(1)] by auto
  moreover have "n = NFile data 384" using staged_at [OF v(1)] v(3) by simp
  ultimately show "G (v(tmp_name x t := None, x := Some n)) \<and> Q (v(tmp_name x t := None, x := Some n))"
    using put by simp
qed simp

lemma atomic_write_rule:
  assumes x: "plain_name x" and free: "tmp_free x G" "tmp_free x R"
    and put: "\<And>v. G v \<Longrightarrow> R v \<Longrightarrow> G (v(x := Some (NFile data 384))) \<and> Q (v(x := Some (NFile data 384)))"
  shows "valid (dirst B d G R) (atomic_write (d @ [x]) data) (\<lambda>_. dirst B d G Q)
    (\<lambda>_. dirst B d G (\<lambda>v. R v \<or> Q v))"
proof -
  let ?S = "\<lambda>t. staged (\<lambda>v. G v \<and> R v) (tmp_name x t) (NFile data 384)"
  have undo: "valid (dirst B d G (?S t)) (andthen (os_unlink True (d @ [tmp_name x t])) (raise e)) Q'
      (\<lambda>_. dirst B d G (\<lambda>v. R v \<or> Q v))" for t e Q'
  proof (rule valid_andthen)
    show "valid (dirst B d G (?S t)) (os_unlink True (d @ [tmp_name x t])) (\<lambda>_. dirst B d G R)
        (\<lambda>_. dirst B d G (\<lambda>v. R v \<or> Q v))"
      by (rule valid_weaken [OF dir_unlink [OF plain_tmp_name, where R = "?S t" and G = G and Q = R]])
        (auto dest: staged_del staged_at staged_free [OF tmp_free_conj [OF free]] elim!: dirst_mono)
  qed (rule valid_raise, auto elim!: dirst_mono)
  show ?thesis
    unfolding atomic_write_def parent_def butlast_snoc
  proof (rule valid_bnd)
    show "valid (dirst B d G R) (stage (d @ [x]) data)
        (\<lambda>p. dirst B d G (\<lambda>v. \<exists>t. p = d @ [tmp_name x t] \<and> ?S t v)) (\<lambda>_. dirst B d G (\<lambda>v. R v \<or> Q v))"
      by (rule valid_weaken [OF stage_rule [OF free]]) (auto elim!: dirst_mono)
    fix p
    show "valid (dirst B d G (\<lambda>v. \<exists>t. p = d @ [tmp_name x t] \<and> ?S t v))
        (andthen (catch (os_replace p (d @ [x])) (\<lambda>e. andthen (os_unlink True p) (raise e))) (fsync_dir d))
        (\<lambda>_. dirst B d G Q) (\<lambda>_. dirst B d G (\<lambda>v. R v \<or> Q v))"
    proof (cases "\<exists>t. p = d @ [tmp_name x t]")
      case True
      then obtain t where p: "p = d @ [tmp_name x t]" ..
      show ?thesis
      proof (rule valid_andthen)
        show "valid (dirst B d G (\<lambda>v. \<exists>t. p = d @ [tmp_name x t] \<and> ?S t v))
            (catch (os_replace p (d @ [x])) (\<lambda>e. andthen (os_unlink True p) (raise e)))
            (\<lambda>_. dirst B d G Q) (\<lambda>_. dirst B d G (\<lambda>v. R v \<or> Q v))"
          unfolding p
          by (rule valid_weaken [OF valid_catch [OF rename_rule [OF x free put refl] undo]])
            (auto elim!: dirst_mono)
        show "valid (dirst B d G Q) (fsync_dir d) (\<lambda>_. dirst B d G Q) (\<lambda>_. dirst B d G (\<lambda>v. R v \<or> Q v))"
          by (rule valid_weaken [OF fsync_dir_keeps [where R = Q]]) (auto elim!: dirst_mono)
      qed
    qed (auto simp: valid_def dirst_def)
  qed
qed

section \<open>The write of secrets.yaml\<close>

definition content :: "node option \<Rightarrow> bytes option" where
  "content n = (case n of Some (NFile e _) \<Rightarrow> Some e | _ \<Rightarrow> None)"

lemma content_simps [simp]:
  "content (Some (NFile e m)) = Some e" "content None = None" "content (Some NDir) = None"
  "content (Some (NLink t)) = None"
  by (simp_all add: content_def)

definition bak :: "string \<Rightarrow> string" where
  "bak x = x @ ''.bak''"

lemma tmp_name_neq_bak [simp]: "tmp_name x t \<noteq> bak x" "bak x \<noteq> tmp_name x t"
  by (auto simp: tmp_name_def bak_def dest: arg_cong [where f = last])

lemma tmp_name_bak_neq [simp]: "tmp_name (bak x) t \<noteq> x" "x \<noteq> tmp_name (bak x) t"
  by (auto simp: tmp_name_def bak_def dest: arg_cong [where f = length])

lemma bak_neq [simp]: "bak x \<noteq> x" "x \<noteq> bak x"
  by (auto simp: bak_def)

lemma plain_bak: "plain_name (bak x)"
  by (auto simp: plain_name_def bak_def dest: arg_cong [where f = length])

text \<open>Every state shows the old or the new content under the name.\<close>

definition old_or_new :: "string \<Rightarrow> node option \<Rightarrow> bytes \<Rightarrow> (string \<Rightarrow> node option) \<Rightarrow> bool" where
  "old_or_new x old data v \<longleftrightarrow> content (v x) = content old \<or> content (v x) = Some data"

definition backed_up :: "string \<Rightarrow> node option \<Rightarrow> (string \<Rightarrow> node option) \<Rightarrow> bool" where
  "backed_up x old v \<longleftrightarrow> (\<forall>e. content old = Some e \<longrightarrow> content (v (bak x)) = Some e)"

definition wrote :: "string \<Rightarrow> node option \<Rightarrow> bytes \<Rightarrow> bool \<Rightarrow> (string \<Rightarrow> node option) \<Rightarrow> bool" where
  "wrote x old data r v \<longleftrightarrow> content (v x) = Some data \<and>
     (if r then backed_up x old v else content old = Some data)"

lemma on_os_rule:
  "valid P m Q E \<Longrightarrow> valid (\<lambda>(s, l). P s \<and> L l) (on_os m) (\<lambda>r (s, l). Q r s \<and> L l) (\<lambda>e (s, l). E e s \<and> L l)"
  by (fastforce simp: valid_def on_os_def split: prod.splits sum.splits)

lemma os_step_rule:
  "valid P m Q (\<lambda>_. F) \<Longrightarrow>
   valid (\<lambda>(s, l). P s \<and> L l) (os_step m) (\<lambda>r (s, l). Q r s \<and> L l) (\<lambda>e (s, l). F s \<and> L l)"
  unfolding os_step_def by (rule on_os_rule) (rule valid_lift_exn)

lemma set_tmp_rule:
  "valid (\<lambda>(s, l). P s \<and> l = t) m Q E \<Longrightarrow> valid (\<lambda>(s, l). P s \<and> L l) (set_tmp t m) Q E"
  by (fastforce simp: valid_def set_tmp_def split: prod.splits sum.splits)

lemma verify_rule: "keeps P (verify_roundtrip yload text secrets)"
  by (auto simp: verify_roundtrip_def intro: valid_raise valid_guard split: option.splits)

lemma free_old_or_new: "tmp_free x (old_or_new x old data)" "tmp_free (bak x) (old_or_new x old data)"
  by (auto simp: tmp_free_def old_or_new_def)

lemma free_at: "tmp_free x (\<lambda>v. v x = old)"
  by (auto simp: tmp_free_def)

lemma free_backed: "tmp_free x (\<lambda>v. v x = old \<and> backed_up x old v)"
  by (auto simp: tmp_free_def backed_up_def)

text \<open>The directory while the new content is staged under \<open>tmp_name x t\<close>, before the rename.\<close>

abbreviation staged_new ::
  "string \<Rightarrow> node option \<Rightarrow> bytes \<Rightarrow> string \<Rightarrow> ((string \<Rightarrow> node option) \<Rightarrow> bool) \<Rightarrow> (string \<Rightarrow> node option) \<Rightarrow> bool" where
  "staged_new x old data t B \<equiv>
     staged (\<lambda>v. old_or_new x old data v \<and> v x = old \<and> B v) (tmp_name x t) (NFile data 384)"

lemma staged_new_free_bak: "tmp_free (bak x) (staged_new x old data t (\<lambda>_. True))"
  unfolding tmp_free_def
proof (intro allI impI)
  fix v t' n assume v: "staged_new x old data t (\<lambda>_. True) v" "v (tmp_name (bak x) t') = None"
  then obtain v' where v': "old_or_new x old data v'" "v' x = old" "v' (tmp_name x t) = None"
    "v = v'(tmp_name x t := Some (NFile data 384))" by (auto simp: staged_def)
  then have ne: "tmp_name (bak x) t' \<noteq> tmp_name x t" using v(2) by auto
  have "v(tmp_name (bak x) t' := Some n)
      = (v'(tmp_name (bak x) t' := Some n))(tmp_name x t := Some (NFile data 384))"
    using v'(4) ne by (simp add: fun_upd_twist)
  then show "staged_new x old data t (\<lambda>_. True) (v(tmp_name (bak x) t' := Some n))"
    using v' ne by (auto simp: staged_def old_or_new_def intro!: exI [of _ "v'(tmp_name (bak x) t' := Some n)"])
qed

lemma staged_new_put_bak:
  assumes "staged_new x old data t (\<lambda>_. True) v" "content old = Some e"
  shows "staged_new x old data t (backed_up x old) (v(bak x := Some (NFile e 384)))"
proof -
  obtain v' where v': "old_or_new x old data v'" "v' x = old" "v' (tmp_name x t) = None"
    "v = v'(tmp_name x t := Some (NFile data 384))" using assms(1) by (auto simp: staged_def)
  have "v(bak x := Some (NFile e 384)) = (v'(bak x := Some (NFile e 384)))(tmp_name x t := Some (NFile data 384))"
    using v'(4) by (simp add: fun_upd_twist)
  then show ?thesis
    using v' assms(2)
    by (auto simp: staged_def old_or_new_def backed_up_def intro!: exI [of _ "v'(bak x := Some (NFile e 384))"])
qed

lemma read_existing_rule:
  assumes "plain_name x"
  shows "valid (dirst B d G (\<lambda>v. v x = old)) (read_existing (d @ [x]))
    (\<lambda>r. dirst B d G (\<lambda>v. v x = old \<and> content old = r)) (\<lambda>_. dirst B d G (\<lambda>_. True))"
  unfolding read_existing_def
proof (rule valid_bnd)
  show "valid (dirst B d G (\<lambda>v. v x = old))
      (catch (lift_exn OsError (bnd (os_lstat (d @ [x])) (\<lambda>n. ret (Some n))))
         (\<lambda>e. if e = OsError ENOENT then ret None else raise e))
      (\<lambda>m. dirst B d G (\<lambda>v. v x = old \<and> v x = m)) (\<lambda>_. dirst B d G (\<lambda>_. True))"
  proof (rule valid_catch [where E' = "\<lambda>e. dirst B d G (\<lambda>v. v x = old \<and> (e = OsError ENOENT \<longrightarrow> v x = None))"])
    show "valid (dirst B d G (\<lambda>v. v x = old)) (lift_exn OsError (bnd (os_lstat (d @ [x])) (\<lambda>n. ret (Some n))))
        (\<lambda>m. dirst B d G (\<lambda>v. v x = old \<and> v x = m))
        (\<lambda>e. dirst B d G (\<lambda>v. v x = old \<and> (e = OsError ENOENT \<longrightarrow> v x = None)))"
      by (intro valid_lift_exn valid_bnd [where R = "\<lambda>n. dirst B d G (\<lambda>v. v x = old \<and> v x = Some n)"])
        (rule valid_weaken [OF dir_lstat_missing [OF assms]], auto intro!: valid_ret)
  qed (auto intro!: valid_if valid_ret valid_raise elim!: dirst_mono)
  fix m
  show "valid (dirst B d G (\<lambda>v. v x = old \<and> v x = m))
      (case m of None \<Rightarrow> ret None | Some (NFile _ _) \<Rightarrow> lift_exn OsError (bnd (os_read (d @ [x])) (\<lambda>d. ret (Some d)))
        | Some _ \<Rightarrow> raise unsafe_path)
      (\<lambda>r. dirst B d G (\<lambda>v. v x = old \<and> content old = r)) (\<lambda>_. dirst B d G (\<lambda>_. True))"
  proof (cases "\<exists>e k. m = Some (NFile e k)")
    case True
    then obtain e k where m: "m = Some (NFile e k)" by blast
    have "valid (dirst B d G (\<lambda>v. v x = old \<and> v x = m)) (os_read (d @ [x]))
        (\<lambda>e. dirst B d G (\<lambda>v. (v x = old \<and> v x = m) \<and> (\<exists>k. v x = Some (NFile e k))))
        (\<lambda>_. dirst B d G (\<lambda>v. v x = old \<and> v x = m))"
      by (rule dir_read [OF assms]) (use m in auto)
    then show ?thesis unfolding m option.case node.case
      by (intro valid_lift_exn valid_bnd [where R = "\<lambda>e. dirst B d G (\<lambda>v. v x = old \<and> content old = Some e)"])
        (erule valid_weaken, auto intro!: valid_ret elim!: dirst_mono)
  next
    case False
    then show ?thesis
      by (auto split: option.splits node.splits intro!: valid_ret valid_raise elim!: dirst_mono)
  qed
qed

lemma install_rule:
  fixes x d old data
  defines "G \<equiv> old_or_new x old data"
  assumes x: "plain_name x" and prev: "content old = previous"
  shows "valid (dirst B d G (staged_new x old data t (\<lambda>_. True)))
      (case previous of None \<Rightarrow> ret () | Some e \<Rightarrow> atomic_write (d @ [bak x]) e)
      (\<lambda>_. dirst B d G (staged_new x old data t (backed_up x old))) (\<lambda>_. dirst B d G (\<lambda>_. True))"
proof (cases previous)
  case None
  then have "content old = None" using prev by simp
  then have "staged_new x old data t (backed_up x old) v" if "staged_new x old data t (\<lambda>_. True) v" for v
    using that by (simp add: backed_up_def)
  then show ?thesis unfolding None option.case by (intro valid_ret) (erule dirst_mono, simp)
next
  case (Some e)
  then have e: "content old = Some e" using prev by simp
  have "valid (dirst B d G (staged_new x old data t (\<lambda>_. True))) (atomic_write (d @ [bak x]) e)
      (\<lambda>_. dirst B d G (staged_new x old data t (backed_up x old)))
      (\<lambda>_. dirst B d G (\<lambda>v. staged_new x old data t (\<lambda>_. True) v \<or> staged_new x old data t (backed_up x old) v))"
  proof (rule atomic_write_rule [OF plain_bak])
    fix v assume v: "G v" "staged_new x old data t (\<lambda>_. True) v"
    then show "G (v(bak x := Some (NFile e 384))) \<and>
        staged_new x old data t (backed_up x old) (v(bak x := Some (NFile e 384)))"
      using staged_new_put_bak [OF v(2) e] by (simp add: G_def old_or_new_def)
  qed (unfold G_def, rule free_old_or_new, rule staged_new_free_bak)
  then show ?thesis unfolding Some option.case by (rule valid_weaken) (auto elim!: dirst_mono)
qed

text \<open>The assertions of \<open>write_secrets\<close> on the pair of the system and its local variable.\<close>

definition wst :: "base \<Rightarrow> path \<Rightarrow> ((string \<Rightarrow> node option) \<Rightarrow> bool) \<Rightarrow> ((string \<Rightarrow> node option) \<Rightarrow> bool)
    \<Rightarrow> path option \<Rightarrow> os \<times> path option \<Rightarrow> bool" where
  "wst B d G R l0 = (\<lambda>(s, l). dirst B d G R s \<and> l = l0)"

definition wfail :: "base \<Rightarrow> path \<Rightarrow> ((string \<Rightarrow> node option) \<Rightarrow> bool) \<Rightarrow> string \<Rightarrow> os \<times> path option \<Rightarrow> bool" where
  "wfail B d G x = (\<lambda>(s, l). dirst B d G (\<lambda>_. True) s \<and> (l = None \<or> (\<exists>t. l = Some (d @ [tmp_name x t]))))"

lemma wst_wfail: "wst B d G R None s \<Longrightarrow> wfail B d G x s" "wst B d G R (Some (d @ [tmp_name x t])) s \<Longrightarrow> wfail B d G x s"
  by (auto simp: wst_def wfail_def elim!: dirst_mono)

lemma wst_mono: "wst B d G R l s \<Longrightarrow> (\<And>v. G v \<Longrightarrow> R v \<Longrightarrow> R' v) \<Longrightarrow> wst B d G R' l s"
  by (auto simp: wst_def elim!: dirst_mono)

lemma wst_step:
  assumes "valid (dirst B d G R) m (\<lambda>r. dirst B d G (Q r)) (\<lambda>_. dirst B d G F)"
    and "l = None \<or> l = Some (d @ [tmp_name x t])"
  shows "valid (wst B d G R l) (os_step m) (\<lambda>r. wst B d G (Q r) l) (\<lambda>_. wfail B d G x)"
  using os_step_rule [OF assms(1), of "\<lambda>l'. l' = l"] assms(2)
  by (elim valid_weaken) (auto simp: wst_def wfail_def elim!: dirst_mono)

lemma wst_call:
  assumes "valid (dirst B d G R) m (\<lambda>r. dirst B d G (Q r)) (\<lambda>_. dirst B d G F)"
    and "l = None \<or> l = Some (d @ [tmp_name x t])"
  shows "valid (wst B d G R l) (on_os m) (\<lambda>r. wst B d G (Q r) l) (\<lambda>_. wfail B d G x)"
  using on_os_rule [OF assms(1), of "\<lambda>l'. l' = l"] assms(2)
  by (elim valid_weaken) (auto simp: wst_def wfail_def elim!: dirst_mono)

lemma wst_set_tmp:
  "valid (wst B d G R l') m Q E \<Longrightarrow> valid (wst B d G R l) (set_tmp l' m) Q E"
  unfolding wst_def by (rule set_tmp_rule)

text \<open>The last steps, after the new content is in place.\<close>

lemma finish_rule:
  assumes x: "plain_name x" and Q: "\<And>v m. Q v \<Longrightarrow> content (v x) = Some data"
    and Q': "\<And>v. Q v \<Longrightarrow> Q (v(x := Some (NFile data 384)))"
  shows "valid (wst B d (old_or_new x old data) Q None)
    (andthen (os_step (os_chmod (d @ [x]) 384)) (ret r))
    (\<lambda>r'. wst B d (old_or_new x old data) (\<lambda>v. r' = r \<and> Q v) None) (\<lambda>_. wfail B d (old_or_new x old data) x)"
proof (rule valid_andthen)
  have "valid (dirst B d (old_or_new x old data) Q) (os_chmod (d @ [x]) 384)
      (\<lambda>_. dirst B d (old_or_new x old data) Q) (\<lambda>_. dirst B d (old_or_new x old data) Q)"
  proof (rule dir_chmod [OF x])
    fix v e m assume v: "Q v" "old_or_new x old data v" "v x = Some (NFile e m)"
    then have "e = data" using Q by fastforce
    with v show "old_or_new x old data (v(x := Some (NFile e 384))) \<and> Q (v(x := Some (NFile e 384)))"
      using Q' by (simp add: old_or_new_def)
  qed (use Q in \<open>fastforce\<close>)+
  from wst_step [OF this] show "valid (wst B d (old_or_new x old data) Q None) (os_step (os_chmod (d @ [x]) 384))
      (\<lambda>_. wst B d (old_or_new x old data) Q None) (\<lambda>_. wfail B d (old_or_new x old data) x)" by simp
qed (rule valid_ret, simp)

lemma read_text_rule:
  "plain_name y \<Longrightarrow> (\<And>v t. R v \<Longrightarrow> v y \<noteq> Some (NLink t)) \<Longrightarrow>
   valid (dirst B d G R) (read_text (d @ [y]) dec) (\<lambda>_. dirst B d G R) (\<lambda>_. dirst B d G (\<lambda>_. True))"
  unfolding read_text_def
  by (rule valid_bnd [where R = "\<lambda>_. dirst B d G R"], rule valid_lift_exn,
      rule valid_weaken [OF dir_read [where R = R and G = G and x = y and d = d]])
    (auto elim!: dirst_mono intro!: valid_ret valid_raise split: option.splits)

text \<open>From the staged content to the end of the body.\<close>

lemma commit_rule:
  fixes x d old data
  defines "G \<equiv> old_or_new x old data"
  assumes x: "plain_name x"
  shows "valid (wst B d G (staged_new x old data t (backed_up x old)) (Some (d @ [tmp_name x t])))
    (andthen (os_step (os_replace (d @ [tmp_name x t]) (d @ [x]))) (set_tmp None
      (andthen (os_step (fsync_dir d)) (andthen (os_step (os_chmod (d @ [x]) 384)) (ret True)))))
    (\<lambda>r. wst B d G (wrote x old data r) None) (\<lambda>_. wfail B d G x)"
proof -
  let ?R = "\<lambda>v. v x = old \<and> backed_up x old v"
  have free: "tmp_free x G" "tmp_free x ?R" by (simp_all add: G_def free_old_or_new free_backed)
  have put: "G (v(x := Some (NFile data 384))) \<and> wrote x old data True (v(x := Some (NFile data 384)))"
    if "G v" "?R v" for v
    using that by (auto simp: G_def old_or_new_def wrote_def backed_up_def)
  have ren: "valid (wst B d G (staged (\<lambda>v. G v \<and> ?R v) (tmp_name x t) (NFile data 384)) (Some (d @ [tmp_name x t])))
      (os_step (os_replace (d @ [tmp_name x t]) (d @ [x])))
      (\<lambda>_. wst B d G (wrote x old data True) (Some (d @ [tmp_name x t]))) (\<lambda>_. wfail B d G x)"
    by (rule wst_step [OF rename_rule [OF x free, where Q = "wrote x old data True"]]) (use put in auto)
  have sync: "valid (wst B d G (wrote x old data True) None) (os_step (fsync_dir d))
      (\<lambda>_. wst B d G (wrote x old data True) None) (\<lambda>_. wfail B d G x)"
    by (rule wst_step [OF fsync_dir_keeps]) simp
  have fin: "valid (wst B d G (wrote x old data True) None)
      (andthen (os_step (os_chmod (d @ [x]) 384)) (ret True))
      (\<lambda>r. wst B d G (\<lambda>v. r = True \<and> wrote x old data True v) None) (\<lambda>_. wfail B d G x)"
    unfolding G_def by (rule finish_rule [OF x]) (auto simp: wrote_def backed_up_def)
  have "valid (wst B d G (wrote x old data True) (Some (d @ [tmp_name x t]))) (set_tmp None
      (andthen (os_step (fsync_dir d)) (andthen (os_step (os_chmod (d @ [x]) 384)) (ret True))))
      (\<lambda>r. wst B d G (wrote x old data r) None) (\<lambda>_. wfail B d G x)"
    by (rule wst_set_tmp, rule valid_andthen [OF sync], rule valid_weaken [OF fin]) (auto elim!: wst_mono)
  with ren show ?thesis unfolding G_def by (rule valid_andthen)
qed

lemma verified_rule:
  fixes x d old data
  defines "G \<equiv> old_or_new x old data"
  assumes x: "plain_name x" and prev: "content old = previous"
  shows "valid (wst B d G (staged_new x old data t (\<lambda>_. True)) (Some (d @ [tmp_name x t])))
    (bnd (on_os (read_text (d @ [tmp_name x t]) utf8_decode)) (\<lambda>text.
       andthen (verify_roundtrip yload text secrets)
        (andthen (case previous of None \<Rightarrow> ret ()
           | Some e \<Rightarrow> os_step (atomic_write (with_name (d @ [x]) (name_of (d @ [x]) @ ''.bak'')) e))
          (andthen (os_step (os_replace (d @ [tmp_name x t]) (d @ [x]))) (set_tmp None
            (andthen (os_step (fsync_dir (parent (d @ [x]))))
              (andthen (os_step (os_chmod (d @ [x]) 384)) (ret True))))))))
    (\<lambda>r. wst B d G (wrote x old data r) None) (\<lambda>_. wfail B d G x)"
proof -
  let ?N = "staged_new x old data t (\<lambda>_. True)" and ?l = "Some (d @ [tmp_name x t])"
  have rd: "valid (wst B d G ?N ?l) (on_os (read_text (d @ [tmp_name x t]) utf8_decode))
      (\<lambda>_. wst B d G ?N ?l) (\<lambda>_. wfail B d G x)"
    by (rule wst_call [OF read_text_rule [OF plain_tmp_name]]) (auto simp: staged_no_link)
  have vf: "valid (wst B d G ?N ?l) (verify_roundtrip yload u secrets) (\<lambda>_. wst B d G ?N ?l) (\<lambda>_. wfail B d G x)"
    for u
    by (rule valid_weaken [OF verify_rule [where P = "wst B d G ?N ?l"]]) (auto intro: wst_wfail)
  have bk: "valid (wst B d G ?N ?l)
      (case previous of None \<Rightarrow> ret ()
         | Some e \<Rightarrow> os_step (atomic_write (with_name (d @ [x]) (name_of (d @ [x]) @ ''.bak'')) e))
      (\<lambda>_. wst B d G (staged_new x old data t (backed_up x old)) ?l) (\<lambda>_. wfail B d G x)"
  proof (cases previous)
    case None
    show ?thesis using install_rule [OF x prev, of B d data t] None
      unfolding None option.case wst_def G_def valid_def by (auto split: prod.splits)
  next
    case (Some e)
    have "d @ [bak x] = with_name (d @ [x]) (name_of (d @ [x]) @ ''.bak'')"
      by (simp add: with_name_def name_of_def bak_def)
    then show ?thesis using wst_step [OF install_rule [OF x prev, of B d data t], where l = ?l and x = x]
      unfolding Some option.case G_def by simp
  qed
  show ?thesis
    by (rule valid_bnd [OF rd], rule valid_andthen [OF vf], rule valid_andthen [OF bk])
      (use commit_rule [OF x, of B d old data t] in \<open>simp add: G_def parent_def\<close>)
qed

lemma write_body_rule:
  fixes x d old data
  defines "G \<equiv> old_or_new x old data"
  assumes x: "plain_name x"
  shows "valid (wst B d G (\<lambda>v. v x = old) None) (write_body yload (d @ [x]) secrets data)
    (\<lambda>r. wst B d G (wrote x old data r) None) (\<lambda>_. wfail B d G x)"
proof -
  let ?P = "\<lambda>r v. v x = old \<and> content old = r" and ?F = "\<lambda>_. wfail B d G x"
  let ?S = "\<lambda>r p v. content old = r \<and> (\<exists>t. p = d @ [tmp_name x t] \<and> staged_new x old data t (\<lambda>_. True) v)"
  have free: "tmp_free x G" "tmp_free x (?P r)" for r
    by (simp add: G_def free_old_or_new, simp add: tmp_free_def)
  have mk: "valid (wst B d G (\<lambda>v. v x = old) None) (os_step (mkdir_parents d)) (\<lambda>_. wst B d G (\<lambda>v. v x = old) None) ?F"
    by (rule wst_step [OF dir_mkdir_parents]) simp
  have rd: "valid (wst B d G (\<lambda>v. v x = old) None) (on_os (read_existing (d @ [x])))
      (\<lambda>r. wst B d G (?P r) None) ?F"
    by (rule wst_call [OF read_existing_rule [OF x]]) simp
  have same: "valid (wst B d G (?P (Some data)) None) (andthen (os_step (os_chmod (d @ [x]) 384)) (ret False))
      (\<lambda>r. wst B d G (wrote x old data r) None) ?F"
    unfolding G_def
    by (rule valid_weaken [OF finish_rule [OF x, where Q = "\<lambda>v. content (v x) = Some data \<and> content old = Some data"]])
      (auto elim!: wst_mono simp: wrote_def)
  have st: "valid (wst B d G (?P r) None) (os_step (stage (d @ [x]) data)) (\<lambda>p. wst B d G (?S r p) None) ?F" for r
  proof (rule wst_step)
    show "valid (dirst B d G (?P r)) (stage (d @ [x]) data) (\<lambda>p. dirst B d G (?S r p)) (\<lambda>_. dirst B d G (?P r))"
      by (rule valid_weaken [OF stage_rule [OF free(1) free(2) [of r], of B d data]]) (auto elim!: dirst_mono simp: staged_def G_def)
  qed simp
  have new: "valid (wst B d G (?S r p) None) (set_tmp (Some p) (bnd (on_os (read_text p utf8_decode)) (\<lambda>text.
       andthen (verify_roundtrip yload text secrets)
        (andthen (case r of None \<Rightarrow> ret ()
           | Some e \<Rightarrow> os_step (atomic_write (with_name (d @ [x]) (name_of (d @ [x]) @ ''.bak'')) e))
          (andthen (os_step (os_replace p (d @ [x]))) (set_tmp None
            (andthen (os_step (fsync_dir (parent (d @ [x]))))
              (andthen (os_step (os_chmod (d @ [x]) 384)) (ret True)))))))))
      (\<lambda>r. wst B d G (wrote x old data r) None) ?F" for r p
  proof (cases "content old = r \<and> (\<exists>t. p = d @ [tmp_name x t])")
    case True
    then obtain t where t: "content old = r" "p = d @ [tmp_name x t]" by blast
    show ?thesis
      unfolding t(2) G_def
      by (rule wst_set_tmp, rule valid_weaken [OF verified_rule [OF x t(1), of B d data t]])
        (auto elim!: wst_mono)
  qed (auto simp: valid_def wst_def dirst_def)
  show ?thesis
    unfolding write_body_def
  proof (rule valid_andthen)
    show "valid (wst B d G (\<lambda>v. v x = old) None) (os_step (mkdir_parents (parent (d @ [x]))))
        (\<lambda>_. wst B d G (\<lambda>v. v x = old) None) ?F"
      using mk by (simp add: parent_def)
    show "valid (wst B d G (\<lambda>v. v x = old) None) (bnd (on_os (read_existing (d @ [x]))) (\<lambda>previous.
        if previous = Some data then andthen (os_step (os_chmod (d @ [x]) 384)) (ret False)
        else bnd (os_step (stage (d @ [x]) data)) (\<lambda>tmp. set_tmp (Some tmp)
            (bnd (on_os (read_text tmp utf8_decode)) (\<lambda>text.
              andthen (verify_roundtrip yload text secrets)
                (andthen (case previous of None \<Rightarrow> ret ()
                  | Some e \<Rightarrow> os_step (atomic_write (with_name (d @ [x]) (name_of (d @ [x]) @ ''.bak'')) e))
                  (andthen (os_step (os_replace tmp (d @ [x]))) (set_tmp None
                    (andthen (os_step (fsync_dir (parent (d @ [x]))))
                      (andthen (os_step (os_chmod (d @ [x]) 384)) (ret True)))))))))))
        (\<lambda>r. wst B d G (wrote x old data r) None) ?F"
    proof (rule valid_bnd [OF rd], rule valid_if)
      fix r assume "r = Some data"
      then show "valid (wst B d G (?P r) None) (andthen (os_step (os_chmod (d @ [x]) 384)) (ret False))
          (\<lambda>r. wst B d G (wrote x old data r) None) ?F" using same by simp
    qed (rule valid_bnd [OF st new])
  qed
qed

text \<open>
  \<open>try: body finally: unlink tmp\<close>, where the body sets its local variable to None once the staged
  file is renamed.  \<open>f\<close> turns the error of the clean-up into an exception.
\<close>

lemma run_tmp_rule:
  fixes m :: "(os \<times> path option, 'e, 'a) prog" and f :: "oserr \<Rightarrow> 'e"
  assumes body: "valid (wst B d G R None) m (\<lambda>r s. wst B d G (Q r) None s \<or> P r \<and> wfail B d G x s) (\<lambda>_. wfail B d G x)"
    and none: "\<And>s. c (s, None) = (Inr (), (s, None))"
    and some: "\<And>p s. c (s, Some p) = on_os (lift_exn f (os_unlink True p)) (s, Some p)"
    and del: "\<And>v t. G v \<Longrightarrow> G (v(tmp_name x t := None))"
  shows "valid (dirst B d G R) (\<lambda>s. case try_finally m c (s, None) of (r, (s', _)) \<Rightarrow> (r, s'))
    (\<lambda>r. dirst B d G (\<lambda>v. Q r v \<or> P r)) (\<lambda>_. dirst B d G (\<lambda>_. True))"
proof -
  have "valid (wst B d G (\<lambda>_. True) (Some (d @ [tmp_name x t]))) (on_os (lift_exn f (os_unlink True (d @ [tmp_name x t]))))
      (\<lambda>_. wst B d G (\<lambda>_. True) (Some (d @ [tmp_name x t]))) (\<lambda>_. wfail B d G x)" for t
    by (rule wst_call [OF valid_lift_exn [OF dir_unlink [OF plain_tmp_name]]]) (use del in auto)
  then have "valid (wst B d G (\<lambda>_. True) (Some (d @ [tmp_name x t]))) c
      (\<lambda>_. wst B d G (\<lambda>_. True) (Some (d @ [tmp_name x t]))) (\<lambda>_. wfail B d G x)" for t
    by (simp add: valid_def some wst_def)
  then have s: "valid (wst B d G (\<lambda>_. True) (Some (d @ [tmp_name x t]))) c (\<lambda>_. wfail B d G x) (\<lambda>_. wfail B d G x)" for t
    by (rule valid_weaken) (auto intro: wst_wfail)
  have n: "valid (wst B d G (\<lambda>_. True) None) c (\<lambda>_. wfail B d G x) (\<lambda>_. wfail B d G x)"
    by (auto simp: valid_def none wst_def wfail_def)
  have split: "wst B d G (\<lambda>_. True) None sl \<or> (\<exists>t. wst B d G (\<lambda>_. True) (Some (d @ [tmp_name x t])) sl)"
    if "wfail B d G x sl" for sl
    using that by (auto simp: wfail_def wst_def)
  have cfail: "valid (wfail B d G x) c (\<lambda>_. wfail B d G x) (\<lambda>_. wfail B d G x)"
    by (rule validI; drule split; elim disjE exE)
      (blast dest: valid_Inl [OF n] valid_Inl [OF s] valid_Inr [OF n] valid_Inr [OF s])+
  have clean: "valid (\<lambda>s. wst B d G (Q r) None s \<or> P r \<and> wfail B d G x s) c
      (\<lambda>_ s. wst B d G (Q r) None s \<or> P r \<and> wfail B d G x s) (\<lambda>_. wfail B d G x)" for r
  proof (rule validI)
    fix s e s' assume "wst B d G (Q r) None s \<or> P r \<and> wfail B d G x s" "c s = (Inl e, s')"
    then show "wfail B d G x s'" by (auto simp: none wst_def dest: valid_Inl [OF cfail])
  next
    fix s u s' assume "wst B d G (Q r) None s \<or> P r \<and> wfail B d G x s" "c s = (Inr u, s')"
    then show "wst B d G (Q r) None s' \<or> P r \<and> wfail B d G x s'" by (auto simp: none wst_def dest: valid_Inr [OF cfail])
  qed
  have post: "dirst B d G (\<lambda>v. Q r v \<or> P r) s'" if "wst B d G (Q r) None (s', l) \<or> P r \<and> wfail B d G x (s', l)" for r s' l
    using that by (auto simp: wst_def wfail_def elim!: dirst_mono)
  have post': "dirst B d G (\<lambda>_. True) s'" if "wfail B d G x (s', l)" for s' l
    using that by (simp add: wfail_def)
  show ?thesis
  proof (rule validI)
    fix s e s' assume s: "dirst B d G R s" "(case try_finally m c (s, None) of (r, (s', _)) \<Rightarrow> (r, s')) = (Inl e, s')"
    then obtain l where "try_finally m c (s, None) = (Inl e, (s', l))" by (auto split: prod.splits)
    from valid_Inl [OF valid_try_finally [OF body clean cfail] _ this] s(1) show "dirst B d G (\<lambda>_. True) s'"
      by (intro post') (simp add: wst_def)
  next
    fix s r s' assume s: "dirst B d G R s" "(case try_finally m c (s, None) of (r, (s', _)) \<Rightarrow> (r, s')) = (Inr r, s')"
    then obtain l where "try_finally m c (s, None) = (Inr r, (s', l))" by (auto split: prod.splits)
    from valid_Inr [OF valid_try_finally [OF body clean cfail] _ this] s(1) show "dirst B d G (\<lambda>v. Q r v \<or> P r) s'"
      by (intro post) (simp add: wst_def)
  qed
qed

lemma write_secrets_rule:
  fixes x d old secrets
  defines "G \<equiv> old_or_new x old (utf8_encode (render_secrets secrets))"
  assumes x: "plain_name x"
  shows "valid (dirst B d G (\<lambda>v. v x = old)) (write_secrets yload (d @ [x]) secrets)
    (\<lambda>r. dirst B d G (wrote x old (utf8_encode (render_secrets secrets)) r)) (\<lambda>_. dirst B d G (\<lambda>_. True))"
proof -
  let ?t = "render_secrets secrets"
  let ?h = "\<lambda>e. case e of OsError _ \<Rightarrow> raise (WriteError ''write_failed'') | WriteError c \<Rightarrow> raise (WriteError c)"
  define c where "c = (\<lambda>(s', l). case l of None \<Rightarrow> (Inr (), (s', l))
     | Some tmp \<Rightarrow> os_step (os_unlink True tmp) (s', l))"
  have "valid (wst B d G (\<lambda>v. v x = old) None) (catch (write_body yload (d @ [x]) secrets (utf8_encode ?t)) ?h)
      (\<lambda>r. wst B d G (wrote x old (utf8_encode ?t) r) None) (\<lambda>_. wfail B d G x)"
    by (rule valid_catch [OF write_body_rule [OF x, of B d old "utf8_encode ?t" yload secrets, folded G_def]])
      (auto split: write_exn.splits intro: valid_raise)
  then have "valid (dirst B d G (\<lambda>v. v x = old))
      (\<lambda>s. case try_finally (catch (write_body yload (d @ [x]) secrets (utf8_encode ?t)) ?h) c (s, None) of
        (r, (s', _)) \<Rightarrow> (r, s'))
      (\<lambda>r. dirst B d G (\<lambda>v. wrote x old (utf8_encode ?t) r v \<or> False)) (\<lambda>_. dirst B d G (\<lambda>_. True))"
    by (intro run_tmp_rule [where f = OsError and P = "\<lambda>_. False"])
      (auto simp: c_def os_step_def G_def old_or_new_def)
  then have body: "valid (dirst B d G (\<lambda>v. v x = old))
      (\<lambda>s. case try_finally (catch (write_body yload (d @ [x]) secrets (utf8_encode ?t)) ?h) c (s, None) of
        (r, (s', _)) \<Rightarrow> (r, s'))
      (\<lambda>r. dirst B d G (wrote x old (utf8_encode ?t) r)) (\<lambda>_. dirst B d G (\<lambda>_. True))" by simp
  show ?thesis
    unfolding write_secrets_def Let_def c_def [symmetric]
    by (rule valid_andthen [OF valid_weaken [OF verify_rule [where P = "dirst B d G (\<lambda>v. v x = old)"]] body])
      (auto elim!: dirst_mono)
qed

text \<open>The assertion of the rule for a concrete start.\<close>

definition base_of :: "os \<Rightarrow> base" where
  "base_of s = (node_at (fsys s), trace s)"

lemma start_dirst: "plain_dir (fsys s) d \<Longrightarrow> G (view d (fsys s)) \<Longrightarrow> R (view d (fsys s)) \<Longrightarrow> dirst (base_of s) d G R s"
  unfolding dirst_def base_of_def snd_conv by (rule conjI [OF since_start]) (simp_all add: outside_def)

lemma dirst_since: "dirst B d G R s \<Longrightarrow> since (snd B) (\<lambda>f. plain_dir f d \<and> outside B d f \<and> G (view d f)) s"
  by (simp add: dirst_def)

text \<open>What a run shows: now and after every call it made, under the name and everywhere else.\<close>

definition only_in :: "path \<Rightarrow> os \<Rightarrow> fs \<Rightarrow> bool" where
  "only_in d s f \<longleftrightarrow> plain_dir f d \<and> (\<forall>q. \<not> child_of d q \<longrightarrow> node_at f q = node_at (fsys s) q)"

lemma write_secrets_since:
  assumes "plain_dir (fsys s) d" "plain_name x"
    and "write_secrets yload (d @ [x]) secrets s = (r, s')"
  shows "since (trace s) (\<lambda>f. only_in d s f
      \<and> old_or_new x (view d (fsys s) x) (utf8_encode (render_secrets secrets)) (view d f)) s'
    \<and> (\<forall>b. r = Inr b \<longrightarrow> wrote x (view d (fsys s) x) (utf8_encode (render_secrets secrets)) b (view d (fsys s')))"
proof -
  let ?G = "old_or_new x (view d (fsys s) x) (utf8_encode (render_secrets secrets))"
  have pre: "dirst (base_of s) d ?G (\<lambda>v. v x = view d (fsys s) x) s"
    by (rule start_dirst [OF assms(1)]) (simp_all add: old_or_new_def)
  note rule = write_secrets_rule [OF assms(2), of "base_of s" d "view d (fsys s) x" secrets yload]
  have res: "\<exists>Q. dirst (base_of s) d ?G Q s' \<and> (\<forall>b. r = Inr b \<longrightarrow> Q = wrote x (view d (fsys s) x) (utf8_encode (render_secrets secrets)) b)"
    using valid_Inl [OF rule pre] valid_Inr [OF rule pre] assms(3) by (cases r) auto
  then obtain Q where Q: "dirst (base_of s) d ?G Q s'"
    "\<forall>b. r = Inr b \<longrightarrow> Q = wrote x (view d (fsys s) x) (utf8_encode (render_secrets secrets)) b" by blast
  have "since (trace s) (\<lambda>f. only_in d s f \<and> ?G (view d f)) s'"
    using dirst_since [OF Q(1)] unfolding base_of_def snd_conv
    by (rule since_mono) (simp add: only_in_def outside_def)
  then show ?thesis using Q dirst_now [OF Q(1)] by auto
qed

lemma since_all: "since [] J s \<Longrightarrow> f \<in> set (fsys s # trace s) \<Longrightarrow> J f"
  by (auto simp: since_def list_all_iff)

text \<open>C2. Crash safety of the write of \<open>secrets.yaml\<close>: whatever system calls fail and wherever the
  process is stopped, the file shows either its previous content or the complete new rendering in
  the state after every system call of \<open>write_secrets\<close>, and nothing outside its directory changes.\<close>

theorem write_secrets_crash_safe:
  assumes "plain_dir (fsys s) d" "plain_name x" "trace s = []"
    and "write_secrets yload (d @ [x]) secrets s = (r, s')"
  shows "\<forall>f \<in> set (fsys s' # trace s').
    (content (view d f x) = content (view d (fsys s) x)
     \<or> content (view d f x) = Some (utf8_encode (render_secrets secrets)))
    \<and> (\<forall>q. \<not> child_of d q \<longrightarrow> node_at f q = node_at (fsys s) q)"
proof
  fix f assume "f \<in> set (fsys s' # trace s')"
  with write_secrets_since [OF assms(1,2,4)] assms(3)
  have "only_in d s f \<and> old_or_new x (view d (fsys s) x) (utf8_encode (render_secrets secrets)) (view d f)"
    by (auto dest: since_all)
  then show "(content (view d f x) = content (view d (fsys s) x)
     \<or> content (view d f x) = Some (utf8_encode (render_secrets secrets)))
    \<and> (\<forall>q. \<not> child_of d q \<longrightarrow> node_at f q = node_at (fsys s) q)"
    by (auto simp: only_in_def old_or_new_def)
qed

text \<open>C4. A \<open>write_secrets\<close> that returns True has installed the new rendering and kept the previous
  content in the \<open>.bak\<close> file; one that returns False found the rendering in place already.\<close>

theorem write_secrets_result:
  assumes "plain_dir (fsys s) d" "plain_name x"
    and "write_secrets yload (d @ [x]) secrets s = (Inr b, s')"
  shows "content (view d (fsys s') x) = Some (utf8_encode (render_secrets secrets))
    \<and> (if b then \<forall>e. content (view d (fsys s) x) = Some e \<longrightarrow> content (view d (fsys s') (x @ ''.bak'')) = Some e
       else content (view d (fsys s) x) = Some (utf8_encode (render_secrets secrets)))"
  using write_secrets_since [OF assms] by (auto simp: wrote_def backed_up_def bak_def)

text \<open>A configuration directory with an older \<open>secrets.yaml\<close>, and a loader for the new one.\<close>

definition demo_os :: os where
  "demo_os = \<lparr>fsys = [([''config''], NDir), ([''config'', ''secrets.yaml''], NFile ''old'' 384)],
     faults = [], rnd = [''aa'', ''bb'', ''cc''], trace = []\<rparr>"

definition demo_load :: yaml_loader where
  "demo_load _ = Some (PDict [(''k'', PStr ''v'')])"

lemma demo_plain: "plain_dir (fsys demo_os) [''config'']" "plain_name ''secrets.yaml''" "trace demo_os = []"
  by (auto simp: plain_dir_def plain_name_def demo_os_def is_dir_def node_at_def le_Suc_eq)

lemma demo_write:
  "fst (write_secrets demo_load [''config'', ''secrets.yaml''] [(''k'', ''v'')] demo_os) = Inr True"
  by code_simp

theorem write_secrets_crash_safe_witness:
  "let (r, s') = write_secrets demo_load ([''config''] @ [''secrets.yaml'']) [(''k'', ''v'')] demo_os in
   \<forall>f \<in> set (fsys s' # trace s').
     (content (view [''config''] f ''secrets.yaml'') = content (view [''config''] (fsys demo_os) ''secrets.yaml'')
      \<or> content (view [''config''] f ''secrets.yaml'') = Some (utf8_encode (render_secrets [(''k'', ''v'')])))
     \<and> (\<forall>q. \<not> child_of [''config''] q \<longrightarrow> node_at f q = node_at (fsys demo_os) q)"
  unfolding Let_def case_prod_beta
  by (rule write_secrets_crash_safe [OF demo_plain prod.collapse [symmetric]])

theorem write_secrets_result_witness:
  "let s' = snd (write_secrets demo_load ([''config''] @ [''secrets.yaml'']) [(''k'', ''v'')] demo_os) in
   content (view [''config''] (fsys s') ''secrets.yaml'') = Some (utf8_encode (render_secrets [(''k'', ''v'')]))
   \<and> content (view [''config''] (fsys s') ''secrets.yaml.bak'') = Some ''old''"
proof -
  have old: "content (view [''config''] (fsys demo_os) ''secrets.yaml'') = Some ''old''"
    by (simp add: demo_os_def view_def node_at_def)
  have run: "write_secrets demo_load ([''config''] @ [''secrets.yaml'']) [(''k'', ''v'')] demo_os
      = (Inr True, snd (write_secrets demo_load ([''config''] @ [''secrets.yaml'']) [(''k'', ''v'')] demo_os))"
    using demo_write by (simp add: prod_eq_iff)
  show ?thesis
    using write_secrets_result [OF demo_plain(1,2) run] unfolding old Let_def by simp
qed

section \<open>The rendering\<close>

definition quote_char :: "char \<Rightarrow> string" where
  "quote_char c = (if yaml_break c then u_escape c else esc_char False c)"

lemma plain_chars [simp]:
  "\<not> yaml_break dquote" "\<not> yaml_break bslash" "\<not> yaml_break CHR ''n''" "\<not> yaml_break CHR ''r''"
  "\<not> yaml_break CHR ''t''" "\<not> yaml_break CHR ''f''" "\<not> yaml_break CHR ''b''" "\<not> yaml_break CHR ''u''"
  "\<not> yaml_break CHR ''0''"
  by (simp_all add: yaml_break_def dquote_def bslash_def)

lemma hex_digit_code: "n < 16 \<Longrightarrow> (of_char (hex_digit n) :: nat) = (if n < 10 then 48 + n else 87 + n)"
  by (simp add: hex_digit_def Let_def)

lemma hex_digit_plain: "n < 16 \<Longrightarrow> \<not> yaml_break (hex_digit n)" "n < 16 \<Longrightarrow> hex_digit n \<noteq> newline"
  by (simp add: yaml_break_def Let_def hex_digit_code)
    (use hex_digit_code [of n] in \<open>auto simp: newline_def split: if_splits\<close>)

lemma hex_halves: "(of_char (c :: char) :: nat) div 16 < 16" "(of_char (c :: char) :: nat) mod 16 < 16"
  by (rule less_mult_imp_div_less) simp_all

lemma esc_char_quote: "concat (map (\<lambda>c. if yaml_break c then u_escape c else [c]) (esc_char False c)) = quote_char c"
proof (cases "yaml_break c")
  case True
  then have "esc_char False c = [c]"
    by (auto simp: yaml_break_def esc_char_def Let_def dquote_def bslash_def)
  then show ?thesis using True by (simp add: quote_char_def)
next
  case False
  then have "list_all (\<lambda>c. \<not> yaml_break c) (esc_char False c)"
    by (simp add: esc_char_def Let_def u_escape_def hex_digit_plain hex_halves)
  moreover have "concat (map (\<lambda>c. if yaml_break c then u_escape c else [c]) xs) = xs"
    if "list_all (\<lambda>c. \<not> yaml_break c) xs" for xs
    using that by (induction xs) simp_all
  ultimately show ?thesis using False by (simp add: quote_char_def)
qed

lemma quote_yaml_alt: "quote_yaml t = dquote # concat (map quote_char t) @ [dquote]"
proof -
  have "concat (map (\<lambda>c. if yaml_break c then u_escape c else [c]) (concat (map (esc_char False) t)))
      = concat (map quote_char t)"
    by (induction t) (simp_all add: esc_char_quote)
  then show ?thesis by (simp add: quote_yaml_def dump_str_def)
qed

lemma lex_quote_char: "lex_str (quote_char c @ t) = cons_fst c (lex_str t)"
proof (cases "yaml_break c")
  case True
  then have "esc_char True c = u_escape c"
    by (auto simp: yaml_break_def esc_char_def Let_def dquote_def bslash_def)
  then show ?thesis using True lex_str_esc [of True c t] by (simp add: quote_char_def)
qed (simp add: quote_char_def lex_str_esc)

lemma lex_quoted: "lex_str (concat (map quote_char s) @ dquote # r) = Some (s, r)"
  by (induction s) (simp_all add: lex_quote_char cons_fst_def del: lex_str.simps(2), simp)

text \<open>A reader of the rendered format: one quoted key and one quoted value per line.\<close>

fun strip_prefix :: "string \<Rightarrow> string \<Rightarrow> string option" where
  "strip_prefix [] s = Some s"
| "strip_prefix (p # ps) [] = None"
| "strip_prefix (p # ps) (c # s) = (if p = c then strip_prefix ps s else None)"

definition read_line :: "string \<Rightarrow> ((string \<times> string) \<times> string) option" where
  "read_line s = Option.bind (strip_prefix [dquote] s) (\<lambda>s. Option.bind (lex_str s) (\<lambda>(k, s).
     Option.bind (strip_prefix ('': '' @ [dquote]) s) (\<lambda>s. Option.bind (lex_str s) (\<lambda>(v, s).
     Option.bind (strip_prefix [newline] s) (\<lambda>s. Some ((k, v), s))))))"

fun read_lines :: "nat \<Rightarrow> string \<Rightarrow> (string \<times> string) list option" where
  "read_lines n [] = Some []"
| "read_lines 0 (c # s) = None"
| "read_lines (Suc n) (c # s) = Option.bind (read_line (c # s))
     (\<lambda>(kv, rest). map_option (\<lambda>r. kv # r) (read_lines n rest))"

definition read_rendered :: "string \<Rightarrow> string dict option" where
  "read_rendered s = Option.bind (strip_prefix HEADER s) (\<lambda>s. read_lines (length s) s)"

lemma strip_prefix_append [simp]: "strip_prefix p (p @ s) = Some s"
  by (induction p) auto

lemma read_line_quoted:
  "read_line (quote_yaml k @ '': '' @ quote_yaml v @ newline # s) = Some ((k, v), s)"
  using lex_quoted [of k] lex_quoted [of v]
  by (simp add: read_line_def quote_yaml_alt)

lemma read_lines_quoted:
  "length kvs \<le> n \<Longrightarrow>
   read_lines n (concat (map (\<lambda>(k, v). quote_yaml k @ '': '' @ quote_yaml v @ [newline]) kvs)) = Some kvs"
proof (induction kvs arbitrary: n)
  case (Cons kv kvs)
  obtain k v where kv: "kv = (k, v)" by (cases kv)
  let ?rest = "concat (map (\<lambda>(k, v). quote_yaml k @ '': '' @ quote_yaml v @ [newline]) kvs)"
  obtain m where n: "n = Suc m" "length kvs \<le> m" using Cons.prems by (cases n) auto
  obtain c t where ct: "quote_yaml k @ '': '' @ quote_yaml v @ newline # ?rest = c # t"
    by (simp add: quote_yaml_alt)
  have line: "read_line (c # t) = Some ((k, v), ?rest)"
    unfolding ct [symmetric] by (rule read_line_quoted)
  have "read_lines n (c # t) = Some ((k, v) # kvs)"
    unfolding n(1) read_lines.simps line using Cons.IH [OF n(2)] by simp
  then show ?case using ct by (simp add: kv)
qed simp


end
