(* ===== verification/Py_Time.thy ===== *)
theory Py_Time
  imports Prelude Py_Json
begin

text \<open>
  UTC timestamps as the program prints and reads them, \<open>%Y-%m-%dT%H:%M:%SZ\<close>.  A \<open>time.time()\<close> value
  is a rational number of seconds; the calendar is the proleptic Gregorian one, counted in days from
  1970-01-01 (years 1 to 9999).
\<close>

type_synonym seconds = rat

definition leap :: "int \<Rightarrow> bool" where
  "leap y \<longleftrightarrow> y mod 4 = 0 \<and> (y mod 100 \<noteq> 0 \<or> y mod 400 = 0)"

definition month_lengths :: "int \<Rightarrow> int list" where
  "month_lengths y = [31, if leap y then 29 else 28, 31, 30, 31, 30, 31, 31, 30, 31, 30, 31]"

definition days_in_month :: "int \<Rightarrow> int \<Rightarrow> int" where
  "days_in_month y m = month_lengths y ! nat (m - 1)"

text \<open>Day numbers count from 0001-01-01; 1970-01-01 has the number 719162.\<close>

definition days_before_year :: "int \<Rightarrow> int" where
  "days_before_year y = (let p = y - 1 in p * 365 + p div 4 - p div 100 + p div 400)"

definition days_from_civil :: "int \<Rightarrow> int \<Rightarrow> int \<Rightarrow> int" where
  "days_from_civil y m d =
     days_before_year y + sum_list (take (nat (m - 1)) (month_lengths y)) + d - 1 - 719162"

fun find_month :: "int list \<Rightarrow> int \<Rightarrow> int \<Rightarrow> int \<times> int" where
  "find_month [] m n = (m, n + 1)"
| "find_month (x # xs) m n = (if n < x \<or> xs = [] then (m, n + 1) else find_month xs (m + 1) (n - x))"

definition civil_from_days :: "int \<Rightarrow> int \<times> int \<times> int" where
  "civil_from_days z =
     (let n0 = z + 719162; a = n0 div 146097; r = n0 mod 146097;
          b = min 3 (r div 36524); r' = r - b * 36524;
          c = r' div 1461; q = r' mod 1461;
          e = min 3 (q div 365); n = q - e * 365;
          y = 400 * a + 100 * b + 4 * c + e + 1;
          (m, d) = find_month (month_lengths y) 1 n in
      (y, m, d))"

definition two :: "int \<Rightarrow> string" where
  "two n = [char_of (48 + nat n div 10), char_of (48 + nat n mod 10)]"

definition four :: "int \<Rightarrow> string" where
  "four n = two (n div 100) @ two (n mod 100)"

definition iso_seconds :: "int \<Rightarrow> string" where
  "iso_seconds t =
     (let (y, m, d) = civil_from_days (t div 86400); s = t mod 86400 in
      four y @ ''-'' @ two m @ ''-'' @ two d @ ''T'' @ two (s div 3600) @ '':''
        @ two (s mod 3600 div 60) @ '':'' @ two (s mod 60) @ ''Z'')"

definition iso :: "seconds \<Rightarrow> string" where
  "iso t = iso_seconds \<lfloor>t\<rfloor>"

text \<open>\<open>strptime\<close>: a field of one or two digits within its range (\<open>%d\<close> also takes a blank and a digit).\<close>

definition field :: "int \<Rightarrow> int \<Rightarrow> string \<Rightarrow> int option" where
  "field lo hi s =
     (if (length s = 1 \<or> length s = 2) \<and> list_all is_digit s \<and> lo \<le> digits_val s \<and> digits_val s \<le> hi
      then Some (digits_val s) else None)"

definition parse_iso :: "string \<Rightarrow> seconds option" where
  "parse_iso s =
     (case split_on CHR ''T'' s of
        [date, t] \<Rightarrow>
          (if ends_with ''Z'' t then
            (case (split_on CHR ''-'' date, split_on CHR '':'' (butlast t)) of
               ([y, m, d], [h, mi, sec]) \<Rightarrow>
                 (if length y = 4 \<and> list_all is_digit y \<and> 1 \<le> digits_val y then
                   (case (field 1 12 m, field 1 31 d, field 0 23 h, field 0 59 mi, field 0 59 sec) of
                      (Some m', Some d', Some h', Some mi', Some s') \<Rightarrow>
                        if d' \<le> days_in_month (digits_val y) m'
                        then Some (of_int (days_from_civil (digits_val y) m' d' * 86400 + h' * 3600 + mi' * 60 + s'))
                        else None
                    | _ \<Rightarrow> None)
                  else None)
             | _ \<Rightarrow> None)
           else None)
      | _ \<Rightarrow> None)"

section \<open>The calendar is a bijection\<close>

lemma find_month:
  "find_month xs m n = (m', d) \<Longrightarrow> xs \<noteq> [] \<Longrightarrow> 0 \<le> n \<Longrightarrow> n < sum_list xs \<Longrightarrow>
   m \<le> m' \<and> m' < m + int (length xs) \<and> 1 \<le> d \<and> d \<le> xs ! nat (m' - m)
   \<and> sum_list (take (nat (m' - m)) xs) + d - 1 = n"
proof (induction xs m n rule: find_month.induct)
  case (2 x xs m n)
  show ?case
  proof (cases "n < x \<or> xs = []")
    case True
    then show ?thesis using 2 by auto
  next
    case False
    then have "m + 1 \<le> m' \<and> m' < m + 1 + int (length xs) \<and> 1 \<le> d \<and> d \<le> xs ! nat (m' - (m + 1))
        \<and> sum_list (take (nat (m' - (m + 1))) xs) + d - 1 = n - x"
      using 2 by simp
    moreover from this have "nat (m' - m) = Suc (nat (m' - (m + 1)))" by linarith
    ultimately show ?thesis by simp
  qed
qed simp

lemma sum_month_lengths: "sum_list (month_lengths y) = (if leap y then 366 else 365)"
  by (simp add: month_lengths_def)

lemma days_before_year_parts:
  assumes "0 \<le> b" "b \<le> 3" "0 \<le> c" "c \<le> 24" "0 \<le> e" "e \<le> 3"
  shows "days_before_year (400 * a + 100 * b + 4 * c + e + 1) = 146097 * a + 36524 * b + 1461 * c + 365 * e"
proof -
  let ?p = "400 * a + 100 * b + 4 * c + e"
  have "?p div 4 = 100 * a + 25 * b + c" by (rule int_div_pos_eq [where r = e]) (use assms in auto)
  moreover have "?p div 100 = 4 * a + b" by (rule int_div_pos_eq [where r = "4 * c + e"]) (use assms in auto)
  moreover have "?p div 400 = a" by (rule int_div_pos_eq [where r = "100 * b + 4 * c + e"]) (use assms in auto)
  ultimately show ?thesis by (simp add: days_before_year_def)
qed

lemma mod_zero_top: "0 < v \<Longrightarrow> v \<le> k \<Longrightarrow> v mod k = 0 \<longleftrightarrow> v = (k :: int)"
  by (metis mod_self mod_pos_pos_trivial order_le_less less_irrefl)

lemma leap_parts:
  assumes "0 \<le> b" "b \<le> 3" "0 \<le> c" "c \<le> 24" "0 \<le> e" "e \<le> 3"
  shows "leap (400 * a + 100 * b + 4 * c + e + 1) \<longleftrightarrow> e = 3 \<and> (c \<noteq> 24 \<or> b = 3)"
proof -
  let ?y = "400 * a + 100 * b + 4 * c + e + 1"
  have m: "x + q * k = w \<Longrightarrow> w mod k = x mod k" for x q k w :: int by (auto simp: mod_mult_self1)
  have "?y mod 4 = (e + 1) mod 4" by (rule m [of _ "100 * a + 25 * b + c"]) simp
  moreover have "?y mod 100 = (4 * c + e + 1) mod 100" by (rule m [of _ "4 * a + b"]) simp
  moreover have "?y mod 400 = (100 * b + 4 * c + e + 1) mod 400" by (rule m [of _ a]) simp
  moreover have "(e + 1) mod 4 = 0 \<longleftrightarrow> e = 3" using assms(5,6) by (subst mod_zero_top) auto
  moreover have "(4 * c + e + 1) mod 100 = 0 \<longleftrightarrow> c = 24 \<and> e = 3"
  proof -
    have "4 * c + e + 1 = 100 \<longleftrightarrow> c = 24 \<and> e = 3" using assms(3-6) by presburger
    then show ?thesis using assms(3-6) by (subst mod_zero_top) auto
  qed
  moreover have "(100 * b + 4 * c + e + 1) mod 400 = 0 \<longleftrightarrow> b = 3 \<and> c = 24 \<and> e = 3"
  proof -
    have "100 * b + 4 * c + e + 1 = 400 \<longleftrightarrow> b = 3 \<and> c = 24 \<and> e = 3" using assms by presburger
    then show ?thesis using assms by (subst mod_zero_top) auto
  qed
  ultimately show ?thesis unfolding leap_def by simp blast
qed

lemma civil_days_inverse:
  assumes "civil_from_days z = (y, m, d)"
  shows "days_from_civil y m d = z \<and> 1 \<le> m \<and> m \<le> 12 \<and> 1 \<le> d \<and> d \<le> days_in_month y m
    \<and> (0 \<le> z + 719162 \<and> z + 719162 < 3652059 \<longrightarrow> 1 \<le> y \<and> y \<le> 9999)"
proof -
  define a r where "a = (z + 719162) div 146097" and "r = (z + 719162) mod 146097"
  define b where "b = min 3 (r div 36524)"
  define c q where "c = (r - b * 36524) div 1461" and "q = (r - b * 36524) mod 1461"
  define e where "e = min 3 (q div 365)"
  define n where "n = q - e * 365"
  have r: "0 \<le> r" "r < 146097" "z + 719162 = 146097 * a + r" by (auto simp: a_def r_def)
  have b: "0 \<le> b" "b \<le> 3" "0 \<le> r - b * 36524" "r - b * 36524 < 36525" "b < 3 \<Longrightarrow> r - b * 36524 < 36524"
    using r(1,2) by (auto simp: b_def min_def)
  have c0: "0 \<le> c" "c \<le> 24" "r - b * 36524 = 1461 * c + q" "0 \<le> q" "q < 1461"
    using b(3-5) by (auto simp: c_def q_def)
  have "q < 1460" if "b < 3" "c = 24" using b(5) c0(3) that by linarith
  note c = c0 this
  have e: "0 \<le> e" "e \<le> 3" "0 \<le> n" "n < 366" "e < 3 \<Longrightarrow> n < 365" "b < 3 \<Longrightarrow> c = 24 \<Longrightarrow> n < 365"
    using c(4-6) by (auto simp: e_def n_def min_def)
  have "civil_from_days z = (let y = 400 * a + 100 * b + 4 * c + e + 1; (m, d) = find_month (month_lengths y) 1 n in (y, m, d))"
    unfolding civil_from_days_def a_def r_def b_def c_def q_def e_def n_def Let_def by (rule refl)
  then have y: "y = 400 * a + 100 * b + 4 * c + e + 1" and fm: "find_month (month_lengths y) 1 n = (m, d)"
    using assms by (auto simp: Let_def split: prod.splits)
  have len: "n < sum_list (month_lengths y)"
    using e b(2) unfolding sum_month_lengths y leap_parts [OF b(1,2) c(1,2) e(1,2)] by auto
  have fm': "1 \<le> m \<and> m < 1 + int (length (month_lengths y)) \<and> 1 \<le> d \<and> d \<le> month_lengths y ! nat (m - 1)
      \<and> sum_list (take (nat (m - 1)) (month_lengths y)) + d - 1 = n"
    by (rule find_month [OF fm _ e(3) len]) (simp add: month_lengths_def)
  have "days_before_year y = 146097 * a + 36524 * b + 1461 * c + 365 * e"
    unfolding y by (rule days_before_year_parts [OF b(1,2) c(1,2) e(1,2)])
  then have "days_from_civil y m d = z"
    using fm' r(3) c(3) by (simp add: days_from_civil_def n_def)
  moreover have "1 \<le> y \<and> y \<le> 9999" if z: "0 \<le> z + 719162" "z + 719162 < 3652059"
  proof -
    have a: "0 \<le> a" "a \<le> 24" using z r by linarith+
    have sum: "z + 719162 = 146097 * a + 36524 * b + 1461 * c + 365 * e + n"
      using r(3) c(3) by (simp add: n_def)
    show ?thesis
    proof (rule ccontr)
      assume "\<not> ?thesis"
      then have "a = 24" "b = 3" "c = 24" "e = 3" using a b(1,2) c(1,2) e(1,2) unfolding y by linarith+
      then show False using sum e(3) z(2) by simp
    qed
  qed
  moreover have "m \<le> 12" using fm' by (simp add: month_lengths_def)
  ultimately show ?thesis using fm' by (simp add: days_in_month_def)
qed

section \<open>Printing and reading\<close>

lemma of_char_digit: "n < 10 \<Longrightarrow> (of_char (char_of (48 + n) :: char) :: nat) = 48 + n"
  by simp

lemma two_digits:
  assumes "0 \<le> n" "n < 100"
  shows "length (two n) = 2" "list_all is_digit (two n)" "digits_val (two n) = n"
proof -
  have d: "nat n div 10 < 10" "nat n mod 10 < 10" using assms by auto
  note c = of_char_digit [OF d(1)] of_char_digit [OF d(2)]
  show "length (two n) = 2" by (simp add: two_def)
  show "list_all is_digit (two n)" using d c by (simp add: two_def is_digit_def Let_def)
  have "10 * int (nat n div 10) + int (nat n mod 10) = int (nat n)"
    by (metis mult_div_mod_eq of_nat_add of_nat_mult of_nat_numeral)
  then show "digits_val (two n) = n" using assms c by (simp add: two_def digits_val_def)
qed

lemma four_digits:
  assumes "0 \<le> n" "n < 10000"
  shows "length (four n) = 4" "list_all is_digit (four n)" "digits_val (four n) = n"
proof -
  have d: "0 \<le> n div 100" "n div 100 < 100" "0 \<le> n mod 100" "n mod 100 < 100" using assms by auto
  note t = two_digits [OF d(1,2)] two_digits [OF d(3,4)]
  show "length (four n) = 4" "list_all is_digit (four n)" using t by (simp_all add: four_def)
  have "digits_val (two a @ two b) = 100 * digits_val (two a) + digits_val (two b)" for a b
    by (simp add: digits_val_def two_def)
  then show "digits_val (four n) = n" using t by (simp add: four_def)
qed

lemma digits_no_sep: "list_all is_digit s \<Longrightarrow> \<not> is_digit c \<Longrightarrow> c \<notin> set s"
  by (auto simp: list_all_iff)

lemma field_two: "0 \<le> n \<Longrightarrow> n < 100 \<Longrightarrow> lo \<le> n \<Longrightarrow> n \<le> hi \<Longrightarrow> field lo hi (two n) = Some n"
  by (simp add: field_def two_digits)

lemma days_in_month_le: "1 \<le> m \<Longrightarrow> m \<le> 12 \<Longrightarrow> days_in_month y m \<le> 31"
proof -
  assume m: "1 \<le> m" "m \<le> 12"
  then have "nat (m - 1) < length (month_lengths y)" by (simp add: month_lengths_def)
  moreover have "\<forall>x \<in> set (month_lengths y). x \<le> 31" by (simp add: month_lengths_def)
  ultimately show ?thesis unfolding days_in_month_def using nth_mem by blast
qed

lemma day_seconds: "s div 3600 * 3600 + s mod 3600 div 60 * 60 + s mod 60 = (s :: int)"
proof -
  have "s mod 3600 mod 60 = s mod 60" by (rule mod_mod_cancel) simp
  then show ?thesis using div_mult_mod_eq [of s 3600] div_mult_mod_eq [of "s mod 3600" 60] by linarith
qed

lemma parse_parts:
  assumes "split_on CHR ''T'' s = [date, t]" "ends_with ''Z'' t" "split_on CHR ''-'' date = [y, m, d]"
    "split_on CHR '':'' (butlast t) = [h, mi, sec]" "length y = 4 \<and> list_all is_digit y \<and> 1 \<le> digits_val y"
    "field 1 12 m = Some m'" "field 1 31 d = Some d'" "field 0 23 h = Some h'" "field 0 59 mi = Some mi'"
    "field 0 59 sec = Some s'" "d' \<le> days_in_month (digits_val y) m'"
  shows "parse_iso s = Some (of_int (days_from_civil (digits_val y) m' d' * 86400 + h' * 3600 + mi' * 60 + s'))"
  using assms by (simp add: parse_iso_def)

lemma two_no_sep: "0 \<le> n \<Longrightarrow> n < 100 \<Longrightarrow> \<not> is_digit c \<Longrightarrow> c \<notin> set (two n)"
  by (rule digits_no_sep [OF two_digits(2)])

lemma iso_parts:
  assumes "1 \<le> y" "y < 10000" "1 \<le> m" "m \<le> 12" "1 \<le> d" "d \<le> days_in_month y m"
    and "0 \<le> h" "h < 24" "0 \<le> mi" "mi < 60" "0 \<le> sec" "sec < 60"
  shows "parse_iso (four y @ ''-'' @ two m @ ''-'' @ two d @ ''T'' @ two h @ '':'' @ two mi @ '':'' @ two sec @ ''Z'')
    = Some (of_int (days_from_civil y m d * 86400 + h * 3600 + mi * 60 + sec))"
proof -
  have sep: "\<not> is_digit CHR ''-''" "\<not> is_digit CHR '':''" "\<not> is_digit CHR ''T''"
    by (simp_all add: is_digit_def)
  have d31: "d \<le> 31" using assms(6) days_in_month_le [OF assms(3,4), of y] by linarith
  have y4: "0 \<le> y" using assms(1) by linarith
  note yd = four_digits [OF y4 assms(2)]
  define date hms where "date = four y @ ''-'' @ two m @ ''-'' @ two d" and "hms = two h @ '':'' @ two mi @ '':'' @ two sec"
  have no: "c \<notin> set (four y)" "c \<notin> set (two m)" "c \<notin> set (two d)" "c \<notin> set (two h)" "c \<notin> set (two mi)" "c \<notin> set (two sec)"
    if "\<not> is_digit c" for c
    using digits_no_sep [OF yd(2) that] two_no_sep [OF _ _ that] assms d31 by simp_all
  have date: "split_on CHR ''-'' date = [four y, two m, two d]"
    unfolding date_def using split_on_append [OF no(1) [OF sep(1)]] split_on_append [OF no(2) [OF sep(1)]]
      split_on_single [OF no(3) [OF sep(1)]] by simp
  have hms: "split_on CHR '':'' hms = [two h, two mi, two sec]"
    unfolding hms_def using split_on_append [OF no(4) [OF sep(2)]] split_on_append [OF no(5) [OF sep(2)]]
      split_on_single [OF no(6) [OF sep(2)]] by simp
  have noT: "CHR ''T'' \<notin> set date" "CHR ''T'' \<notin> set (hms @ ''Z'')"
    unfolding date_def hms_def using no [OF sep(3)] by simp_all
  have all: "split_on CHR ''T'' (date @ CHR ''T'' # hms @ ''Z'') = [date, hms @ ''Z'']"
    unfolding split_on_append [OF noT(1)] split_on_single [OF noT(2)] ..
  have z: "ends_with ''Z'' (hms @ ''Z'')" by (simp add: ends_with_def)
  have hms': "split_on CHR '':'' (butlast (hms @ ''Z'')) = [two h, two mi, two sec]"
    using hms by (simp add: butlast_append)
  have len: "length (four y) = 4 \<and> list_all is_digit (four y) \<and> 1 \<le> digits_val (four y)" using yd assms(1) by simp
  have f: "field 1 12 (two m) = Some m" "field 1 31 (two d) = Some d" "field 0 23 (two h) = Some h"
    "field 0 59 (two mi) = Some mi" "field 0 59 (two sec) = Some sec"
    using assms d31 by (simp_all add: field_two)
  have "d \<le> days_in_month (digits_val (four y)) m" unfolding yd(3) by (rule assms(6))
  from parse_parts [OF all z date hms' len f this] show ?thesis
    unfolding yd(3) by (simp add: date_def hms_def)
qed



end
