(* ===== verification/SS_State.thy ===== *)
theory SS_State
  imports SS_Config SS_Writer_Proofs Py_Time
begin

text \<open>
  \<open>secrets-sync/app/engine/state.py\<close>: the store behind \<open>state.json\<close>.  Names only, never values.
  The clock reading is an argument of the operations that read the clock.
\<close>

definition MAX_EVENTS :: nat where "MAX_EVENTS = 50"

record key_changes =
  kc_names :: "string list"
  kc_added :: "string list"
  kc_removed :: "string list"
  kc_changed :: "string list"

record store =
  st_path :: path
  st_interval :: int
  st_versions :: "string dict"
  st_started :: seconds
  st_status :: string
  st_error :: "string option"
  st_last_attempt :: "seconds option"
  st_last_success :: "seconds option"
  st_next_sync :: "seconds option"
  st_items :: int
  st_keys :: key_changes
  st_synthetic_names :: "string list option"
  st_providers :: "pyval dict"
  st_events :: "string dict list"
  st_usage :: pyval
  st_synthetic :: "pyval list"
  st_guard :: pyval
  st_check :: "pyval dict"

definition new_store :: "path \<Rightarrow> int \<Rightarrow> string dict \<Rightarrow> seconds \<Rightarrow> store" where
  "new_store p interval versions now = \<lparr>
     st_path = p, st_interval = interval, st_versions = versions, st_started = now,
     st_status = ''starting'', st_error = None, st_last_attempt = None, st_last_success = None,
     st_next_sync = None, st_items = 0,
     st_keys = \<lparr>kc_names = [], kc_added = [], kc_removed = [], kc_changed = []\<rparr>,
     st_synthetic_names = None, st_providers = [], st_events = [],
     st_usage = PDict [(''enabled'', PBool False)], st_synthetic = [], st_guard = PNone,
     st_check = [(''enabled'', PBool False), (''interval'', PInt 0), (''last_check_at'', PNone), (''result'', PNone)]\<rparr>"

section \<open>The previous run\<close>

fun as_list :: "pyval \<Rightarrow> pyval list" where
  "as_list (PList vs) = vs" | "as_list _ = []"

fun as_int :: "pyval \<Rightarrow> int" where
  "as_int (PInt i) = i" | "as_int (PBool b) = (if b then 1 else 0)" | "as_int _ = 0"

definition names_of :: "(pyval \<Rightarrow> string) \<Rightarrow> pyval \<Rightarrow> string list" where
  "names_of repr v = map (py_str repr) (as_list v)"

text \<open>An event of the previous run: the four texts are required, only texts are kept.\<close>

definition event_keys :: "string list" where
  "event_keys = [''at'', ''level'', ''code'', ''message'']"

fun load_event :: "pyval \<Rightarrow> string dict list" where
  "load_event (PDict d) =
     (if list_all (\<lambda>k. is_str (vget d k)) event_keys
      then [concat (map (\<lambda>(k, v). case v of PStr s \<Rightarrow> [(k, s)] | _ \<Rightarrow> []) d)] else [])"
| "load_event _ = []"

definition load_keys :: "(pyval \<Rightarrow> string) \<Rightarrow> pyval \<Rightarrow> key_changes \<Rightarrow> key_changes" where
  "load_keys repr v old =
     (case v of
        PDict d \<Rightarrow>
          (if list_all (\<lambda>k. is_list (vget d k)) [''names'', ''added'', ''removed'', ''changed'']
           then \<lparr>kc_names = names_of repr (vget d ''names''), kc_added = names_of repr (vget d ''added''),
                 kc_removed = names_of repr (vget d ''removed''), kc_changed = names_of repr (vget d ''changed'')\<rparr>
           else old)
      | _ \<Rightarrow> old)"

text \<open>\<open>parse_iso\<close> on a JSON value: anything but a text raises \<open>TypeError\<close>, which gives None.\<close>

definition parse_iso_val :: "pyval \<Rightarrow> seconds option" where
  "parse_iso_val v = (case v of PStr s \<Rightarrow> parse_iso s | _ \<Rightarrow> None)"

text \<open>\<open>v == 1\<close> in Python, where True and 1.0 equal 1.\<close>

definition equals_one :: "pyval \<Rightarrow> bool" where
  "equals_one v \<longleftrightarrow> (case v of PInt i \<Rightarrow> i = 1 | PBool b \<Rightarrow> b | PFloat l \<Rightarrow> l = ''1.0'' | _ \<Rightarrow> False)"

text \<open>\<open>for event in prev.get("events") or []\<close>: a text or a dictionary yields no event, a number or True
  cannot be iterated.\<close>

definition iterable :: "pyval \<Rightarrow> bool" where
  "iterable v \<longleftrightarrow> (case v of PInt i \<Rightarrow> i = 0 | PBool b \<Rightarrow> \<not> b | PFloat l \<Rightarrow> \<not> truthy v | _ \<Rightarrow> True)"

definition load_document :: "(pyval \<Rightarrow> string) \<Rightarrow> pyval dict \<Rightarrow> store \<Rightarrow> py_exn + store" where
  "load_document repr prev st =
     (if \<not> equals_one (vget prev ''schema_version'') then Inr st
      else if \<not> iterable (vget prev ''events'') then Inl TypeError
      else Inr (st\<lparr>st_last_success := parse_iso_val (vget prev ''last_success_at''),
         st_items := (if is_int (vget prev ''items'') then as_int (vget prev ''items'') else st_items st),
         st_keys := load_keys repr (vget prev ''keys'') (st_keys st),
         st_events := take MAX_EVENTS (st_events st @ concat (map load_event (as_list (vget prev ''events''))))\<rparr>))"

definition load_previous :: "(pyval \<Rightarrow> string) \<Rightarrow> store \<Rightarrow> (os, py_exn, store) prog" where
  "load_previous repr st = (\<lambda>s. case os_read (st_path st) s of
     (Inl _, s') \<Rightarrow> (Inr st, s')
   | (Inr d, s') \<Rightarrow>
       (case Option.bind (utf8_decode d) json_loads of
          Some (PDict prev) \<Rightarrow> load_document repr prev st
        | _ \<Rightarrow> Inr st, s'))"

section \<open>Events and rendering\<close>

definition make_event :: "seconds \<Rightarrow> string \<Rightarrow> string \<Rightarrow> string \<Rightarrow> string option \<Rightarrow> string dict" where
  "make_event now level code message provider =
     [(''at'', iso now), (''level'', level), (''code'', code), (''message'', message)]
       @ (case provider of None \<Rightarrow> [] | Some p \<Rightarrow> if p = [] then [] else [(''provider'', p)])"

definition add_event :: "seconds \<Rightarrow> string \<Rightarrow> string \<Rightarrow> string \<Rightarrow> string option \<Rightarrow> store \<Rightarrow> store" where
  "add_event now level code message provider st =
     st\<lparr>st_events := take MAX_EVENTS (make_event now level code message provider # st_events st)\<rparr>"

text \<open>\<open>int(x)\<close> truncates towards zero.\<close>

definition trunc :: "seconds \<Rightarrow> int" where
  "trunc x = (if x < 0 then - \<lfloor>- x\<rfloor> else \<lfloor>x\<rfloor>)"

definition opt_str :: "string option \<Rightarrow> pyval" where
  "opt_str o_s = (case o_s of None \<Rightarrow> PNone | Some s \<Rightarrow> PStr s)"

definition opt_iso :: "seconds option \<Rightarrow> pyval" where
  "opt_iso t = opt_str (map_option iso t)"

definition strs :: "string list \<Rightarrow> pyval" where
  "strs ss = PList (map PStr ss)"

definition sdict :: "string dict \<Rightarrow> pyval" where
  "sdict d = PDict (map (\<lambda>(k, v). (k, PStr v)) d)"

definition age :: "seconds \<Rightarrow> store \<Rightarrow> int option" where
  "age now st = map_option (\<lambda>t. trunc (now - t)) (st_last_success st)"

definition stale :: "seconds \<Rightarrow> store \<Rightarrow> bool" where
  "stale now st \<longleftrightarrow>
     2 * of_int (st_interval st) < (case age now st of Some a \<Rightarrow> of_int a | None \<Rightarrow> now - st_started st)"

definition keys_val :: "store \<Rightarrow> pyval" where
  "keys_val st =
     PDict ([(''names'', strs (kc_names (st_keys st))), (''added'', strs (kc_added (st_keys st))),
             (''removed'', strs (kc_removed (st_keys st))), (''changed'', strs (kc_changed (st_keys st)))]
       @ (case st_synthetic_names st of None \<Rightarrow> [] | Some ns \<Rightarrow> [(''synthetic'', strs ns)]))"

definition render :: "seconds \<Rightarrow> store \<Rightarrow> pyval" where
  "render now st = PDict [
     (''schema_version'', PInt 1),
     (''status'', PStr (st_status st)),
     (''generated_at'', PStr (iso now)),
     (''interval'', PInt (st_interval st)),
     (''last_attempt_at'', opt_iso (st_last_attempt st)),
     (''last_success_at'', opt_iso (st_last_success st)),
     (''age_seconds'', case age now st of None \<Rightarrow> PNone | Some a \<Rightarrow> PInt a),
     (''stale'', PBool (stale now st)),
     (''items'', PInt (st_items st)),
     (''error_code'', opt_str (st_error st)),
     (''next_sync_at'', opt_iso (st_next_sync st)),
     (''versions'', sdict (st_versions st)),
     (''providers'', PDict (st_providers st)),
     (''keys'', keys_val st),
     (''events'', PList (map sdict (st_events st))),
     (''usage'', st_usage st),
     (''synthetic'', PList (st_synthetic st)),
     (''guard'', st_guard st),
     (''check'', PDict (st_check st))]"

section \<open>Saving\<close>

text \<open>
  \<open>save\<close>: an \<open>OSError\<close> of the body is logged and swallowed; the clean-up in \<open>finally\<close> is outside the
  handler, so an error of its \<open>unlink\<close> is raised.
\<close>

definition save_body :: "path \<Rightarrow> bytes \<Rightarrow> (os \<times> path option, oserr, unit) prog" where
  "save_body p data =
     andthen (on_os (mkdir_parents (parent p)))
      (bnd (on_os (os_mkstemp (parent p) ''.state.'' ''.tmp'')) (\<lambda>tmp s. case s of (s', _) \<Rightarrow>
        (andthen (on_os (os_write tmp data))
          (andthen (on_os (os_chmod tmp 420))
            (andthen (on_os (os_replace tmp p)) (\<lambda>(s, _). (Inr (), (s, None)))))) (s', Some tmp)))"

definition save_document :: "path \<Rightarrow> bytes \<Rightarrow> (os, oserr, unit) prog" where
  "save_document p data = (\<lambda>s.
     case try_finally (catch (save_body p data) (\<lambda>_. ret ()))
        (\<lambda>(s', l). case l of None \<Rightarrow> (Inr (), (s', l)) | Some tmp \<Rightarrow> on_os (os_unlink True tmp) (s', l))
        (s, None) of
      (r, (s', _)) \<Rightarrow> (r, s'))"

definition save :: "seconds \<Rightarrow> store \<Rightarrow> (os, oserr, unit) prog" where
  "save now st = save_document (st_path st) (json_dumps (Some 2) True (sort_vals (render now st)))"

section \<open>The event list is bounded\<close>

definition events_ok :: "store \<Rightarrow> bool" where
  "events_ok st \<longleftrightarrow> length (st_events st) \<le> MAX_EVENTS
     \<and> list_all (\<lambda>e. \<forall>k \<in> set event_keys. k \<in> set (keys e)) (st_events st)"

lemma new_store_ok: "events_ok (new_store p i vs now)"
  by (simp add: events_ok_def new_store_def)

lemma list_all_take: "list_all P xs \<Longrightarrow> list_all P (take n xs)"
  by (metis append_take_drop_id list_all_append)

lemma add_event_ok: "events_ok st \<Longrightarrow> events_ok (add_event now level code message provider st)"
  by (auto simp: events_ok_def add_event_def make_event_def event_keys_def intro!: list_all_take split: option.splits)

lemma load_event_keys: "e \<in> set (load_event v) \<Longrightarrow> k \<in> set event_keys \<Longrightarrow> k \<in> set (keys e)"
proof (induction v rule: load_event.induct)
  case (1 d)
  then have e: "e = concat (map (\<lambda>(k, v). case v of PStr s \<Rightarrow> [(k, s)] | _ \<Rightarrow> []) d)"
    and "is_str (vget d k)" by (auto simp: list_all_iff split: if_splits)
  then obtain s where "vget d k = PStr s" by (cases "vget d k") auto
  then have "(k, PStr s) \<in> set d" by (auto simp: vget_def dest: map_of_SomeD split: option.splits)
  then show ?case unfolding e by force
qed auto

lemma load_document_ok: "events_ok st \<Longrightarrow> load_document repr prev st = Inr st' \<Longrightarrow> events_ok st'"
  by (auto simp: load_document_def events_ok_def list_all_iff dest!: in_set_takeD load_event_keys split: if_splits) force+

section \<open>Crash safety of the state file\<close>

lemma save_document_rule:
  fixes x d old data
  defines "G \<equiv> old_or_new x old data"
  assumes x: "plain_name x" and ne: "\<And>t. tmp_name ''state'' t \<noteq> x"
  shows "valid (dirst B d G (\<lambda>_. True)) (save_document (d @ [x]) data) (\<lambda>_. dirst B d G (\<lambda>_. True)) (\<lambda>_. dirst B d G (\<lambda>_. True))"
proof -
  let ?T = "\<lambda>v. True" and ?F = "\<lambda>_. wfail B d G ''state''"
  let ?H = "\<lambda>t data v. \<exists>m. v (tmp_name ''state'' t) = Some (NFile data m)"
  have upd: "G (v(tmp_name ''state'' t := n))" if "G v" for v t n
    using that ne [of t] by (simp add: G_def old_or_new_def)
  have put: "G (v(x := Some (NFile data m)))" for v m
    by (simp add: G_def old_or_new_def)
  have call: "valid (wst B d G R l) (on_os m) (\<lambda>r. wst B d G (Q r) l) ?F"
    if "valid (dirst B d G R) m (\<lambda>r. dirst B d G (Q r)) (\<lambda>_. dirst B d G R')" "l = None \<or> l = Some (d @ [tmp_name ''state'' t])"
    for R m Q R' l t
    by (rule wst_call [OF that])
  have mk: "valid (wst B d G ?T None) (on_os (mkdir_parents d)) (\<lambda>_. wst B d G ?T None) ?F"
    by (rule call [OF dir_mkdir_parents]) simp
  have tmp: "valid (wst B d G ?T None) (on_os (os_mkstemp d ''.state.'' ''.tmp''))
      (\<lambda>p. wst B d G (\<lambda>v. \<exists>t. p = d @ [tmp_name ''state'' t] \<and> ?H t [] v) None) ?F"
  proof (rule call)
    show "valid (dirst B d G ?T) (os_mkstemp d ''.state.'' ''.tmp'')
        (\<lambda>p. dirst B d G (\<lambda>v. \<exists>t. p = d @ [tmp_name ''state'' t] \<and> ?H t [] v)) (\<lambda>_. dirst B d G ?T)"
    proof (rule valid_weaken)
      show "valid (dirst B d G ?T) (os_mkstemp d ''.state.'' ''.tmp'')
        (\<lambda>p. dirst B d G (\<lambda>v. \<exists>t v'. p = d @ [''.state.'' @ t @ ''.tmp''] \<and> ?T v' \<and> v' (''.state.'' @ t @ ''.tmp'') = None
           \<and> v = v'(''.state.'' @ t @ ''.tmp'' := Some (NFile [] 384)))) (\<lambda>_. dirst B d G ?T)"
        by (rule dir_mkstemp) (use plain_tmp_name [of "''state''"] upd in \<open>auto simp: tmp_name_def\<close>)
    qed (auto elim!: dirst_mono simp: tmp_name_def)
  qed simp
  have rest: "valid (wst B d G (?H t []) (Some (d @ [tmp_name ''state'' t])))
      (andthen (on_os (os_write (d @ [tmp_name ''state'' t]) data))
        (andthen (on_os (os_chmod (d @ [tmp_name ''state'' t]) 420))
          (andthen (on_os (os_replace (d @ [tmp_name ''state'' t]) (d @ [x]))) (\<lambda>(s, _). (Inr (), (s, None))))))
      (\<lambda>_. wst B d G ?T None) ?F" for t
  proof -
    let ?l = "Some (d @ [tmp_name ''state'' t])"
    have h1: "valid (wst B d G (?H t []) ?l) (on_os (os_write (d @ [tmp_name ''state'' t]) data)) (\<lambda>_. wst B d G (?H t data) ?l) ?F"
      by (rule call [OF dir_write [OF plain_tmp_name, where R = "?H t []" and Q = "?H t data"]]) (use upd in auto)
    have h2: "valid (wst B d G (?H t data) ?l) (on_os (os_chmod (d @ [tmp_name ''state'' t]) 420)) (\<lambda>_. wst B d G (?H t data) ?l) ?F"
      by (rule call [OF dir_chmod [OF plain_tmp_name, where R = "?H t data" and Q = "?H t data"]]) (use upd in auto)
    have h3: "valid (wst B d G (?H t data) ?l) (on_os (os_replace (d @ [tmp_name ''state'' t]) (d @ [x]))) (\<lambda>_. wst B d G ?T ?l) ?F"
      by (rule call [OF dir_replace [OF plain_tmp_name x ne, where R = "?H t data" and Q = ?T]]) (use put in auto)
    have h4: "valid (wst B d G ?T ?l) (\<lambda>(s, _). (Inr (), (s, None))) (\<lambda>_. wst B d G ?T None) ?F"
      by (auto simp: valid_def wst_def)
    show ?thesis by (rule valid_andthen [OF h1 valid_andthen [OF h2 valid_andthen [OF h3 h4]]])
  qed
  have body: "valid (wst B d G ?T None) (save_body (d @ [x]) data) (\<lambda>_. wst B d G ?T None) ?F"
    unfolding save_body_def parent_def butlast_snoc
  proof (rule valid_andthen [OF mk], rule valid_bnd [OF tmp])
    fix p
    show "valid (wst B d G (\<lambda>v. \<exists>t. p = d @ [tmp_name ''state'' t] \<and> ?H t [] v) None)
        (\<lambda>s. case s of (s', _) \<Rightarrow>
          (andthen (on_os (os_write p data)) (andthen (on_os (os_chmod p 420))
            (andthen (on_os (os_replace p (d @ [x]))) (\<lambda>(s, _). (Inr (), (s, None)))))) (s', Some p))
        (\<lambda>_. wst B d G ?T None) ?F"
    proof (cases "\<exists>t. p = d @ [tmp_name ''state'' t]")
      case True
      then obtain t where p: "p = d @ [tmp_name ''state'' t]" ..
      show ?thesis using rest [of t] unfolding p valid_def by (auto simp: wst_def)
    qed (auto simp: valid_def wst_def dirst_def)
  qed
  have lift: "lift_exn (\<lambda>e. e) m = m" for m :: "(os, oserr, unit) prog"
    by (auto simp: lift_exn_def catch_def fun_eq_iff split: prod.splits sum.splits)
  have "valid (wst B d G ?T None) (catch (save_body (d @ [x]) data) (\<lambda>_. ret ()))
      (\<lambda>r s. wst B d G ?T None s \<or> True \<and> wfail B d G ''state'' s) ?F"
    by (rule valid_catch [where E' = ?F], rule valid_weaken [OF body]) (auto intro: valid_ret)
  from run_tmp_rule [OF this, where f = "\<lambda>e. e" and c = "\<lambda>(s', l). case l of None \<Rightarrow> (Inr (), (s', l))
      | Some tmp \<Rightarrow> on_os (os_unlink True tmp) (s', l)"]
  show ?thesis unfolding save_document_def using upd ne
    by (auto simp: lift G_def old_or_new_def)
qed

lemma save_since:
  assumes "plain_dir (fsys s) d" "plain_name x" "\<forall>t. x \<noteq> ''.state.'' @ t @ ''.tmp''"
    and "st_path st = d @ [x]" "save now st s = (r, s')"
  shows "since (trace s) (\<lambda>f. only_in d s f
    \<and> old_or_new x (view d (fsys s) x) (json_dumps (Some 2) True (sort_vals (render now st))) (view d f)) s'"
proof -
  let ?data = "json_dumps (Some 2) True (sort_vals (render now st))"
  have pre: "dirst (base_of s) d (old_or_new x (view d (fsys s) x) ?data) (\<lambda>_. True) s"
    by (rule start_dirst [OF assms(1)]) (simp_all add: old_or_new_def)
  have "tmp_name ''state'' t \<noteq> x" for t using assms(3) by (auto simp: tmp_name_def)
  note rule = save_document_rule [OF assms(2) this, where B = "base_of s" and d = d
      and old = "view d (fsys s) x" and data = ?data]
  have "dirst (base_of s) d (old_or_new x (view d (fsys s) x) ?data) (\<lambda>_. True) s'"
    using keepsD [OF rule pre] assms(4,5) by (simp add: save_def)
  from dirst_since [OF this] show ?thesis
    unfolding base_of_def snd_conv by (rule since_mono) (simp add: only_in_def outside_def)
qed

text \<open>C10. Crash safety of \<open>state.json\<close>: whatever fails and wherever the process is stopped during \<open>save\<close>, the
  file shows its previous content or the complete new document, and nothing outside its directory
  changes.\<close>

theorem save_crash_safe:
  assumes "plain_dir (fsys s) d" "plain_name x" "\<forall>t. x \<noteq> ''.state.'' @ t @ ''.tmp''" "trace s = []"
    and "st_path st = d @ [x]" "save now st s = (r, s')"
  shows "\<forall>f \<in> set (fsys s' # trace s').
    (content (view d f x) = content (view d (fsys s) x)
     \<or> content (view d f x) = Some (json_dumps (Some 2) True (sort_vals (render now st))))
    \<and> (\<forall>q. \<not> child_of d q \<longrightarrow> node_at f q = node_at (fsys s) q)"
proof
  fix f assume "f \<in> set (fsys s' # trace s')"
  with save_since [OF assms(1-3,5,6)] assms(4)
  have "only_in d s f \<and> old_or_new x (view d (fsys s) x) (json_dumps (Some 2) True (sort_vals (render now st))) (view d f)"
    by (auto dest: since_all)
  then show "(content (view d f x) = content (view d (fsys s) x)
     \<or> content (view d f x) = Some (json_dumps (Some 2) True (sort_vals (render now st))))
    \<and> (\<forall>q. \<not> child_of d q \<longrightarrow> node_at f q = node_at (fsys s) q)"
    by (auto simp: only_in_def old_or_new_def)
qed

text \<open>A state directory and a fresh store.\<close>

theorem save_crash_safe_witness:
  "let s = \<lparr>fsys = [([''data''], NDir)], faults = [False, True], rnd = [''aa''], trace = []\<rparr>;
       st = new_store [''data'', ''state.json''] 300 [] 0;
       s' = snd (save 5 st s) in
   \<forall>f \<in> set (fsys s' # trace s').
    (content (view [''data''] f ''state.json'') = None
     \<or> content (view [''data''] f ''state.json'') = Some (json_dumps (Some 2) True (sort_vals (render 5 st))))
    \<and> (\<forall>q. \<not> child_of [''data''] q \<longrightarrow> node_at f q = node_at (fsys s) q)"
proof -
  let ?s = "\<lparr>fsys = [([''data''], NDir)], faults = [False, True], rnd = [''aa''], trace = []\<rparr>"
  let ?st = "new_store [''data'', ''state.json''] 300 [] 0"
  have p: "plain_dir (fsys ?s) [''data'']" "plain_name ''state.json''" "trace ?s = []"
    by (auto simp: plain_dir_def plain_name_def is_dir_def node_at_def le_Suc_eq)
  have n: "\<forall>t. ''state.json'' \<noteq> ''.state.'' @ t @ ''.tmp''" by simp
  have st: "st_path ?st = [''data''] @ [''state.json'']" by (simp add: new_store_def)
  have old: "content (view [''data''] (fsys ?s) ''state.json'') = None" by (simp add: view_def node_at_def)
  show ?thesis
    using save_crash_safe [OF p(1,2) n p(3) st prod.collapse [symmetric], of 5] unfolding old Let_def .
qed

end
