(* ===== verification/SS_Usage.thy ===== *)
theory SS_Usage
  imports SS_State
begin

text \<open>
  \<open>secrets-sync/app/engine/usage.py\<close> (where \<open>!secret\<close> references occur in the YAML files) and
  \<open>engine/redact.py\<close> (values never reach the log).
\<close>

section \<open>The redactor\<close>

definition MIN_LEN :: nat where "MIN_LEN = 4"

text \<open>\<open>sorted(known, key=len, reverse=True)\<close>: longest first; \<open>reverse\<close> keeps the order of equal lengths.\<close>

definition longest_first :: "string list \<Rightarrow> string list" where
  "longest_first vs = sort_key (\<lambda>v. - int (length v)) vs"

definition register :: "string list \<Rightarrow> string list \<Rightarrow> string list" where
  "register vals known = longest_first (remdups (known @ filter (\<lambda>v. MIN_LEN \<le> length v) vals))"

fun scrub_with :: "string list \<Rightarrow> string \<Rightarrow> string" where
  "scrub_with [] t = t"
| "scrub_with (v # vs) t = scrub_with vs (if contains v t then replace v ''***'' t else t)"

definition scrub :: "string list \<Rightarrow> string \<Rightarrow> string" where
  "scrub known t = scrub_with known t"

record log_record =
  lr_msg :: string
  lr_args :: "string list"

text \<open>\<open>filter\<close>: \<open>get_message\<close> formats the record (\<open>msg % args\<close>).\<close>

definition redact_filter :: "(log_record \<Rightarrow> string) \<Rightarrow> string list \<Rightarrow> log_record \<Rightarrow> log_record" where
  "redact_filter get_message known r =
     (let message = get_message r; scrubbed = scrub known message in
      if scrubbed \<noteq> message then r\<lparr>lr_msg := scrubbed, lr_args := []\<rparr> else r)"

section \<open>One line\<close>

definition SKIP_DIRS :: "string list" where
  "SKIP_DIRS = [''custom_components'', ''deps'', ''node_modules'', ''backups'', ''__pycache__'', ''secrets_files'']"

definition SECRETS_NAME :: string where "SECRETS_NAME = ''secrets.yaml''"
definition MAX_FILES :: nat where "MAX_FILES = 20000"
definition MAX_FILE_BYTES :: nat where "MAX_FILE_BYTES = 1024 * 1024"
definition MAX_REFS_PER_KEY :: nat where "MAX_REFS_PER_KEY = 20"
definition TIME_BUDGET :: seconds where "TIME_BUDGET = 20"

text \<open>\<open>_COMMENT.sub("", line)\<close>: everything from a \<open>#\<close> at the start or after white space, which goes too.\<close>

fun strip_comment :: "bool \<Rightarrow> string \<Rightarrow> string" where
  "strip_comment start [] = []"
| "strip_comment start (c # s) =
     (if start \<and> c = CHR ''#'' then []
      else if is_space c \<and> starts_with ''#'' s then []
      else c # strip_comment False s)"

definition quote1 :: char where "quote1 = CHR 0x27"

definition plain_key_char :: "char \<Rightarrow> bool" where
  "plain_key_char c \<longleftrightarrow> \<not> is_space c \<and> c \<notin> {CHR '','', CHR '']'', CHR ''}'', CHR ''#'', dquote, quote1}"

text \<open>The tag value after \<open>!secret\<close> and white space: the key and what follows it.\<close>

definition match_value :: "string \<Rightarrow> (string \<times> string) option" where
  "match_value s =
     (case s of
        [] \<Rightarrow> None
      | c # t \<Rightarrow>
          if c = dquote \<or> c = quote1
          then (let k = takeWhile (\<lambda>d. d \<noteq> c) t in
                if k \<noteq> [] \<and> length k < length t then Some (k, drop (Suc (length k)) t) else None)
          else (let k = takeWhile plain_key_char s in if k \<noteq> [] then Some (k, drop (length k) s) else None))"

text \<open>\<open>_REF.finditer\<close>: the keys in order; \<open>n\<close> bounds the positions tried.\<close>

fun find_refs :: "nat \<Rightarrow> string \<Rightarrow> string list" where
  "find_refs 0 s = []"
| "find_refs (Suc n) [] = []"
| "find_refs (Suc n) (c # s) =
     (if starts_with ''!secret'' (c # s) \<and> drop 7 (c # s) \<noteq> [] \<and> is_space (hd (drop 7 (c # s)))
      then (case match_value (dropWhile is_space (drop 7 (c # s))) of
          Some (k, rest) \<Rightarrow> k # find_refs n rest
        | None \<Rightarrow> find_refs n s)
      else find_refs n s)"

definition line_refs :: "string \<Rightarrow> string list" where
  "line_refs line =
     (if \<not> contains ''!secret'' line then []
      else (let s = strip_comment True line in find_refs (length s) s))"

text \<open>\<open>errors="ignore"\<close>: undecodable bytes are dropped.\<close>

fun utf8_ignore :: "bytes \<Rightarrow> string" where
  "utf8_ignore [] = []"
| "utf8_ignore [c] = (if (of_char c :: nat) < 128 then [c] else [])"
| "utf8_ignore (c # d # s) =
     (if (of_char c :: nat) < 128 then c # utf8_ignore (d # s)
      else (case utf8_decode [c, d] of Some u \<Rightarrow> u @ utf8_ignore s | None \<Rightarrow> utf8_ignore (d # s)))"

section \<open>The scan\<close>

record scan_result =
  sc_files :: nat
  sc_truncated :: bool
  sc_refs :: "(string \<times> nat) list dict"
  sc_counts :: "nat dict"
  sc_roots :: "string list"

definition empty_scan :: scan_result where
  "empty_scan = \<lparr>sc_files = 0, sc_truncated = False, sc_refs = [], sc_counts = [], sc_roots = []\<rparr>"

definition dget_or :: "'v dict \<Rightarrow> string \<Rightarrow> 'v \<Rightarrow> 'v" where
  "dget_or d k x = (case dget d k of None \<Rightarrow> x | Some v \<Rightarrow> v)"

definition add_ref :: "string \<Rightarrow> nat \<Rightarrow> string \<Rightarrow> scan_result \<Rightarrow> scan_result" where
  "add_ref shown number key r =
     (let refs = dget_or (sc_refs r) key [] in
      r\<lparr>sc_counts := AList.update key (dget_or (sc_counts r) key 0 + 1) (sc_counts r),
        sc_refs := AList.update key (if length refs < MAX_REFS_PER_KEY then refs @ [(shown, number)] else refs) (sc_refs r)\<rparr>)"

definition scan_line :: "string \<Rightarrow> nat \<times> string \<Rightarrow> scan_result \<Rightarrow> scan_result" where
  "scan_line shown nl r = fold (add_ref shown (fst nl)) (line_refs (snd nl)) r"

definition scan_text :: "string \<Rightarrow> string \<Rightarrow> scan_result \<Rightarrow> scan_result" where
  "scan_text shown t r =
     fold (scan_line shown) (enumerate 1 (splitlines t)) (r\<lparr>sc_files := Suc (sc_files r)\<rparr>)"

text \<open>
  The file system is only read.  \<open>_own_scope\<close> with its cache: the directory of the nearest
  \<open>secrets.yaml\<close> between \<open>directory\<close> and \<open>base\<close>.
\<close>

definition is_plain_file :: "fs \<Rightarrow> path \<Rightarrow> bool" where
  "is_plain_file f p \<longleftrightarrow> (\<exists>d m. node_at f p = Some (NFile d m))"

lemma is_plain_file_code [code]:
  "is_plain_file f p \<longleftrightarrow> (case node_at f p of Some (NFile d m) \<Rightarrow> True | _ \<Rightarrow> False)"
  by (auto simp: is_plain_file_def split: option.splits node.splits)

function own_scope :: "fs \<Rightarrow> path \<Rightarrow> path \<Rightarrow> (path \<times> path option) list \<Rightarrow> path option \<times> (path \<times> path option) list" where
  "own_scope f base directory cache =
     (case map_of cache directory of
        Some found \<Rightarrow> (found, cache)
      | None \<Rightarrow>
          (let (found, cache') =
             (if is_plain_file f (directory @ [SECRETS_NAME]) then (Some directory, cache)
              else if directory = base \<or> directory = [] then (None, cache)
              else own_scope f base (butlast directory) cache) in
           (found, AList.update directory found cache')))"
  by pat_completeness auto
termination
  by (relation "measure (\<lambda>(f, base, directory, cache). length directory)") auto

declare own_scope.simps [simp del]

text \<open>The same without a cache.\<close>

function scope_of :: "fs \<Rightarrow> path \<Rightarrow> path \<Rightarrow> path option" where
  "scope_of f base directory =
     (if is_plain_file f (directory @ [SECRETS_NAME]) then Some directory
      else if directory = base \<or> directory = [] then None
      else scope_of f base (butlast directory))"
  by pat_completeness auto
termination
  by (relation "measure (\<lambda>(f, base, directory). length directory)") auto

declare scope_of.simps [simp del]

text \<open>
  \<open>os.walk(root, followlinks=False)\<close>: names sorted as the loop sorts them; a link to a directory is
  listed with the directories and not entered.
\<close>

definition names_in :: "fs \<Rightarrow> path \<Rightarrow> string list" where
  "names_in f d = sort (dir_entries f d)"

definition leads_to_dir :: "fs \<Rightarrow> path \<Rightarrow> bool" where
  "leads_to_dir f p = (case resolve max_links f True [] p of Inl e \<Rightarrow> False | Inr q \<Rightarrow> is_dir f q)"

definition wanted_dir :: "fs \<Rightarrow> path \<Rightarrow> string \<Rightarrow> bool" where
  "wanted_dir f here d \<longleftrightarrow> leads_to_dir f (here @ [d]) \<and> \<not> starts_with ''.'' d \<and> d \<notin> set SKIP_DIRS"

fun walk :: "nat \<Rightarrow> fs \<Rightarrow> path \<Rightarrow> (path \<times> string list) list" where
  "walk 0 f here = []"
| "walk (Suc n) f here =
     (here, filter (\<lambda>x. \<not> leads_to_dir f (here @ [x])) (names_in f here))
       # concat (map (\<lambda>d. walk n f (here @ [d]))
           (filter (\<lambda>d. wanted_dir f here d \<and> is_dir f (here @ [d])) (names_in f here)))"

definition walk_fuel :: "fs \<Rightarrow> nat" where
  "walk_fuel f = Suc (Suc (fold max (map (\<lambda>(p, _). length p) f) 0))"

text \<open>The state of the loops: the result, the cache, the clock readings taken, and whether it returned.\<close>

record scan_state =
  ss_result :: scan_result
  ss_cache :: "(path \<times> path option) list"
  ss_ticks :: nat
  ss_done :: bool

definition join_path :: "path \<Rightarrow> string" where
  "join_path p = join ''/'' p"

definition yaml_name :: "string \<Rightarrow> bool" where
  "yaml_name n \<longleftrightarrow> (ends_with ''.yaml'' n \<or> ends_with ''.yml'' n) \<and> n \<noteq> SECRETS_NAME"

definition scan_file ::
  "fs \<Rightarrow> (nat \<Rightarrow> seconds) \<Rightarrow> nat \<Rightarrow> string \<Rightarrow> path \<Rightarrow> path \<Rightarrow> string \<Rightarrow> scan_state \<Rightarrow> scan_state" where
  "scan_file f clock index label base here name st =
     (if ss_done st \<or> \<not> yaml_name name then st
      else if MAX_FILES \<le> sc_files (ss_result st)
      then st\<lparr>ss_done := True, ss_result := (ss_result st)\<lparr>sc_truncated := True\<rparr>\<rparr>
      else if TIME_BUDGET < clock (ss_ticks st) - clock 0
      then st\<lparr>ss_ticks := Suc (ss_ticks st), ss_done := True, ss_result := (ss_result st)\<lparr>sc_truncated := True\<rparr>\<rparr>
      else (let st = st\<lparr>ss_ticks := Suc (ss_ticks st)\<rparr> in
        case node_at f (here @ [name]) of
          Some (NFile d m) \<Rightarrow>
            if MAX_FILE_BYTES < length d then st
            else (let rel = join_path (drop (length base) (here @ [name]));
                      shown = (if index = 0 then rel else label @ ''/'' @ rel) in
              st\<lparr>ss_result := scan_text shown (utf8_ignore d) (ss_result st)\<rparr>)
        | _ \<Rightarrow> st))"

definition scan_dir ::
  "fs \<Rightarrow> (nat \<Rightarrow> seconds) \<Rightarrow> nat \<Rightarrow> string \<Rightarrow> path \<Rightarrow> path option \<Rightarrow> path \<times> string list \<Rightarrow> scan_state \<Rightarrow> scan_state" where
  "scan_dir f clock index label base ours hf st =
     (if ss_done st then st
      else (let (here, files) = hf; (scope, cache) = own_scope f base here (ss_cache st);
                st = st\<lparr>ss_cache := cache\<rparr> in
        if scope = None \<or> (index = 0 \<and> scope = ours)
        then fold (scan_file f clock index label base here) (sort files) st else st))"

definition scan_root ::
  "fs \<Rightarrow> (nat \<Rightarrow> seconds) \<Rightarrow> nat \<Rightarrow> string \<times> path \<Rightarrow> scan_state \<times> path option \<Rightarrow> scan_state \<times> path option" where
  "scan_root f clock index lr acc =
     (let (st, ours) = acc; (label, base) = lr in
      if ss_done st \<or> \<not> leads_to_dir f base then acc
      else (let ours = (if index = 0 then Some base else ours);
                st = st\<lparr>ss_cache := [], ss_result := (ss_result st)\<lparr>sc_roots := sc_roots (ss_result st) @ [label]\<rparr>\<rparr> in
        (fold (scan_dir f clock index label base ours) (walk (walk_fuel f) f base) st, ours)))"

definition scan :: "fs \<Rightarrow> (nat \<Rightarrow> seconds) \<Rightarrow> (string \<times> path) list \<Rightarrow> scan_result" where
  "scan f clock roots =
     ss_result (fst (fold (\<lambda>(i, lr). scan_root f clock i lr) (enumerate 0 roots)
       (\<lparr>ss_result = empty_scan, ss_cache = [], ss_ticks = 1, ss_done = False\<rparr>, None)))"

definition usage_entry :: "scan_result \<Rightarrow> string \<Rightarrow> pyval" where
  "usage_entry r key =
     PDict [(''count'', PInt (int (dget_or (sc_counts r) key 0))),
            (''refs'', PList (map (\<lambda>(f, n). PDict [(''file'', PStr f), (''line'', PInt (int n))]) (dget_or (sc_refs r) key [])))]"

definition summarize_used :: "scan_result \<Rightarrow> string list \<Rightarrow> string list" where
  "summarize_used r known = filter (\<lambda>k. k \<in> set known) (sort (keys (sc_refs r)))"

definition summarize_missing :: "scan_result \<Rightarrow> string list \<Rightarrow> string list" where
  "summarize_missing r known = filter (\<lambda>k. k \<notin> set known) (sort (keys (sc_refs r)))"

definition summarize_unused :: "scan_result \<Rightarrow> string list \<Rightarrow> string list" where
  "summarize_unused r known = sorted_set (filter (\<lambda>k. k \<notin> set (keys (sc_refs r))) known)"

definition summarize :: "scan_result \<Rightarrow> string list \<Rightarrow> pyval dict" where
  "summarize r known =
     [(''enabled'', PBool True),
      (''roots'', strs (sc_roots r)),
      (''files_scanned'', PInt (int (sc_files r))),
      (''truncated'', PBool (sc_truncated r)),
      (''used'', PDict (map (\<lambda>k. (k, usage_entry r k)) (summarize_used r known))),
      (''missing'', PDict (map (\<lambda>k. (k, usage_entry r k)) (summarize_missing r known))),
      (''unused'', strs (summarize_unused r known))]"

section \<open>The redactor removes what it knows\<close>

lemma starts_with_replace:
  "CHR ''*'' \<notin> set p \<Longrightarrow> starts_with p (replace v ''***'' t) \<Longrightarrow> starts_with p t"
proof (induction v "''***''" t arbitrary: p rule: replace.induct)
  case (2 old c s)
  show ?case
  proof (cases p)
    case (Cons d q)
    then show ?thesis using 2 by (auto split: if_splits)
  qed simp
qed auto

lemma contains_star: "p \<noteq> [] \<Longrightarrow> CHR ''*'' \<notin> set p \<Longrightarrow> contains p (CHR ''*'' # s) \<Longrightarrow> contains p s"
  by (cases p) auto

lemma contains_drop: "contains p (drop n s) \<Longrightarrow> contains p s"
  by (metis append.assoc append_take_drop_id contains_iff)

lemma contains_replace:
  assumes p: "p \<noteq> []" "CHR ''*'' \<notin> set p"
  shows "contains p (replace v ''***'' t) \<Longrightarrow> contains p t"
proof (induction v "''***''" t rule: replace.induct)
  case (2 old c s)
  show ?case
  proof (cases "old \<noteq> [] \<and> starts_with old (c # s)")
    case True
    then have "contains p (CHR ''*'' # CHR ''*'' # CHR ''*'' # replace old ''***'' (drop (length old) (c # s)))"
      using 2(3) by simp
    then have "contains p (replace old ''***'' (drop (length old) (c # s)))"
      using contains_star [OF p] by blast
    then show ?thesis using 2(1) True contains_drop by blast
  next
    case False
    then have eq: "replace old ''***'' (c # s) = c # replace old ''***'' s" by (simp only: replace.simps if_False)
    then have "starts_with p (replace old ''***'' (c # s)) \<or> contains p (replace old ''***'' s)"
      using 2(3) unfolding eq by simp
    then show ?thesis
    proof
      assume "starts_with p (replace old ''***'' (c # s))"
      then have "starts_with p (c # s)" by (rule starts_with_replace [OF p(2)])
      then show ?thesis by simp
    next
      assume "contains p (replace old ''***'' s)"
      then have "contains p s" using 2(2) False by blast
      then show ?thesis by simp
    qed
  qed
qed (use p in simp)

lemma replace_removes:
  "v \<noteq> [] \<Longrightarrow> CHR ''*'' \<notin> set v \<Longrightarrow> \<not> contains v (replace v ''***'' t)"
proof (induction v "''***''" t rule: replace.induct)
  case (2 old c s)
  show ?case
  proof (cases "starts_with old (c # s)")
    case True
    then have IH: "\<not> contains old (replace old ''***'' (drop (length old) (c # s)))" using 2 by blast
    have eq: "replace old ''***'' (c # s)
        = CHR ''*'' # CHR ''*'' # CHR ''*'' # replace old ''***'' (drop (length old) (c # s))"
      using True 2(3) by simp
    show ?thesis unfolding eq using IH contains_star [OF 2(3,4)] by blast
  next
    case False
    then have eq: "replace old ''***'' (c # s) = c # replace old ''***'' s" by simp
    have "\<not> starts_with old (replace old ''***'' (c # s))"
      using starts_with_replace [OF 2(4)] False by blast
    then show ?thesis using 2(2) [OF _ 2(3,4)] False unfolding eq by simp
  qed
qed simp

lemma scrub_keeps_clean: "p \<noteq> [] \<Longrightarrow> CHR ''*'' \<notin> set p \<Longrightarrow> \<not> contains p t \<Longrightarrow> \<not> contains p (scrub_with vs t)"
  by (induction vs arbitrary: t) (auto dest: contains_replace)

lemma scrub_with_removes:
  "v \<in> set vs \<Longrightarrow> v \<noteq> [] \<Longrightarrow> CHR ''*'' \<notin> set v \<Longrightarrow> \<not> contains v (scrub_with vs t)"
proof (induction vs arbitrary: t)
  case (Cons w vs)
  then show ?case
    using scrub_keeps_clean [of v "if contains w t then replace w ''***'' t else t" vs] replace_removes [of v t]
    by (cases "v = w") auto
qed simp



section \<open>Bounds of the scan\<close>

definition refs_ok :: "scan_result \<Rightarrow> bool" where
  "refs_ok r \<longleftrightarrow> sc_files r \<le> MAX_FILES \<and>
     (\<forall>k. length (dget_or (sc_refs r) k []) = min MAX_REFS_PER_KEY (dget_or (sc_counts r) k 0))"

lemma dget_or_update [simp]: "dget_or (AList.update k v d) k' x = (if k' = k then v else dget_or d k' x)"
  by (simp add: dget_or_def)

lemma add_ref_ok: "refs_ok r \<Longrightarrow> refs_ok (add_ref shown n key r)"
  by (auto simp: refs_ok_def add_ref_def Let_def)

lemma fold_ok: "refs_ok r \<Longrightarrow> (\<And>x r. x \<in> set xs \<Longrightarrow> refs_ok r \<Longrightarrow> refs_ok (g x r)) \<Longrightarrow> refs_ok (fold g xs r)"
  by (induction xs arbitrary: r) auto

lemma scan_line_ok: "refs_ok r \<Longrightarrow> refs_ok (scan_line shown nl r)"
  unfolding scan_line_def by (erule fold_ok) (rule add_ref_ok)

lemma scan_text_ok: "refs_ok r \<Longrightarrow> sc_files r < MAX_FILES \<Longrightarrow> refs_ok (scan_text shown t r)"
  unfolding scan_text_def by (rule fold_ok [OF _ scan_line_ok]) (simp_all add: refs_ok_def)

lemma fold_state_ok:
  "refs_ok (ss_result st) \<Longrightarrow> (\<And>x st. refs_ok (ss_result st) \<Longrightarrow> refs_ok (ss_result (g x st))) \<Longrightarrow>
   refs_ok (ss_result (fold g xs st))"
  by (induction xs arbitrary: st) auto

lemma refs_ok_ext [simp]:
  "refs_ok (r\<lparr>sc_truncated := b\<rparr>) = refs_ok r" "refs_ok (r\<lparr>sc_roots := l\<rparr>) = refs_ok r"
  by (simp_all add: refs_ok_def)

lemma scan_file_ok:
  "refs_ok (ss_result st) \<Longrightarrow> refs_ok (ss_result (scan_file f clock index label base here name st))"
  by (auto simp: scan_file_def Let_def intro: scan_text_ok split: option.splits node.splits)

lemma scan_dir_ok:
  "refs_ok (ss_result st) \<Longrightarrow> refs_ok (ss_result (scan_dir f clock index label base ours hf st))"
  by (auto simp: scan_dir_def Let_def intro!: fold_state_ok scan_file_ok split: prod.splits)

lemma scan_root_ok:
  "refs_ok (ss_result (fst acc)) \<Longrightarrow> refs_ok (ss_result (fst (scan_root f clock index lr acc)))"
  by (auto simp: scan_root_def Let_def intro!: fold_state_ok scan_dir_ok split: prod.splits)

lemma scan_ok: "refs_ok (scan f clock roots)"
proof -
  have "refs_ok (ss_result (fst (fold (\<lambda>(i, lr). scan_root f clock i lr) xs acc)))"
    if "refs_ok (ss_result (fst acc))" for xs acc
    using that
  proof (induction xs arbitrary: acc)
    case (Cons x xs)
    obtain i lr where x: "x = (i, lr)" by (cases x)
    show ?case using Cons.IH [OF scan_root_ok [OF Cons.prems]] by (simp add: x)
  qed simp
  then show ?thesis unfolding scan_def by (simp add: refs_ok_def empty_scan_def dget_or_def MAX_FILES_def)
qed


section \<open>The scope cache\<close>

definition cache_ok :: "fs \<Rightarrow> path \<Rightarrow> (path \<times> path option) list \<Rightarrow> bool" where
  "cache_ok f base cache \<longleftrightarrow> (\<forall>d r. map_of cache d = Some r \<longrightarrow> r = scope_of f base d)"

text \<open>C31. The cache of \<open>_own_scope\<close> is transparent: with a cache that holds right answers, every lookup returns
  the directory of the nearest \<open>secrets.yaml\<close> as the plain recursion finds it, and the cache still
  holds right answers.\<close>

theorem own_scope_cached:
  "cache_ok f base cache \<Longrightarrow>
   fst (own_scope f base directory cache) = scope_of f base directory
   \<and> cache_ok f base (snd (own_scope f base directory cache))"
proof (induction f base directory cache rule: own_scope.induct)
  case (1 f base directory cache)
  show ?case
  proof (cases "map_of cache directory")
    case None
    then show ?thesis
      using 1 scope_of.simps [of f base directory] own_scope.simps [of f base directory cache]
      by (auto simp: cache_ok_def Let_def update_conv' split: prod.splits if_splits)
  next
    case (Some found)
    then show ?thesis using 1(2) own_scope.simps [of f base directory cache] by (simp add: cache_ok_def)
  qed
qed

theorem own_scope_cached_witness:
  "fst (own_scope [([''c''], NDir), ([''c'', ''secrets.yaml''], NFile [] 0), ([''c'', ''p''], NDir)] [''c''] [''c'', ''p''] [])
     = Some [''c'']"
  using own_scope_cached [of "[([''c''], NDir), ([''c'', ''secrets.yaml''], NFile [] 0), ([''c'', ''p''], NDir)]" "[''c'']" "[]" "[''c'', ''p'']"]
  by (simp add: cache_ok_def scope_of.simps is_plain_file_def node_at_def SECRETS_NAME_def)

end
