(* ===== verification/SS_Synthetic.thy ===== *)
theory SS_Synthetic
  imports SS_Config
begin

text \<open>
  \<open>secrets-sync/app/engine/synthetic.py\<close>: keys composed from the merged ones by small templates.
  Jinja is not part of the repository: parsing a template and rendering it are the parameters
  \<open>parse\<close> and \<open>render\<close>; the syntax tree that \<open>_check\<close> walks is modelled by the node classes it tells
  apart, every other class by its name and its children.
\<close>

section \<open>Syntax trees\<close>

datatype jnode =
    JName string string
  | JGetitem jnode jnode
  | JFilter "jnode option" string "jnode list" "jnode list" bool bool
  | JKeyword string jnode
  | JConst pyval
  | JNode string "jnode list"

text \<open>\<open>JName ctx name\<close>; \<open>JFilter node name args kwargs has_dyn_args has_dyn_kwargs\<close>.\<close>

datatype parsed = Parsed jnode | ParseSyntax | ParseOther

datatype rendered = Rendered string | UndefinedKey string | TooLarge | SecurityError | RenderOther

definition MAX_OUTPUT :: nat where "MAX_OUTPUT = 65536"

definition JINJA_FILTERS :: "string list" where
  "JINJA_FILTERS = [''lower'', ''upper'', ''trim'', ''replace'', ''default'', ''length'', ''join'', ''capitalize'', ''title'']"

definition OWN_FILTERS :: "string list" where
  "OWN_FILTERS = [''substr'', ''urlquote'', ''b64encode'', ''b64decode'']"

definition RESERVED_NAMES :: "string list" where
  "RESERVED_NAMES = [''secrets'', ''self'', ''loop'', ''caller'', ''varargs'', ''kwargs'', ''super'']"

definition ALLOWED_KEYWORDS :: "string list" where
  "ALLOWED_KEYWORDS = [''boolean'', ''length'']"

text \<open>\<open>_ALLOWED_NODES\<close> without \<open>Const\<close>, which has a constructor of its own.\<close>

definition ALLOWED_NODES :: "string list" where
  "ALLOWED_NODES =
     [''Template'', ''Output'', ''TemplateData'', ''If'', ''Compare'', ''Operand'', ''And'', ''Or'', ''Not'', ''Neg'',
      ''Add'', ''Concat'', ''CondExpr'', ''List'', ''Tuple'']"

definition error_text :: "string \<Rightarrow> string" where
  "error_text code = the (map_of
     [(''synthetic_collision'', ''collides with an existing key''),
      (''synthetic_forbidden'', ''template uses a forbidden construct''),
      (''synthetic_syntax'', ''template has a syntax error''),
      (''synthetic_undefined'', ''references an undefined key''),
      (''synthetic_too_large'', ''result is too large''),
      (''synthetic_error'', ''template could not be rendered'')] code)"

text \<open>\<open>SyntheticError(code, name, detail)\<close>: the message is built from these three only.\<close>

datatype synthetic_error = SyntheticError (se_code: string) (se_name: string) (se_detail: string)

definition se_message :: "synthetic_error \<Rightarrow> string" where
  "se_message e = ''synthetic key '' @ quoted (se_name e) @ '': '' @ error_text (se_code e) @ se_detail e"

section \<open>Filters\<close>

text \<open>\<open>_substr\<close> on a text and integers; a negative start counts from the end.\<close>

definition substr :: "string \<Rightarrow> int \<Rightarrow> int option \<Rightarrow> string" where
  "substr t start len =
     (let begin = nat (if start < 0 then max (int (length t) + start) 0 else start) in
      case len of None \<Rightarrow> drop begin t | Some n \<Rightarrow> take (nat (max n 0)) (drop begin t))"

definition url_safe :: "char \<Rightarrow> bool" where
  "url_safe c \<longleftrightarrow> is_alnum c \<or> c \<in> set ''_.-~''"

definition upper_hex :: "nat \<Rightarrow> char" where
  "upper_hex n = (if n < 10 then char_of (48 + n) else char_of (55 + n))"

definition urlquote :: "string \<Rightarrow> string" where
  "urlquote t = concat (map (\<lambda>c. if url_safe c then [c]
     else (let n = (of_char c :: nat) in [CHR ''%'', upper_hex (n div 16), upper_hex (n mod 16)])) (utf8_encode t))"

text \<open>\<open>_capped\<close>: a filter result over the limit raises \<open>_TooLarge\<close>.\<close>

definition capped :: "string \<Rightarrow> rendered" where
  "capped r = (if MAX_OUTPUT < length r then TooLarge else Rendered r)"

definition filter_names :: "string list" where
  "filter_names = JINJA_FILTERS @ OWN_FILTERS"

section \<open>The whitelist\<close>

text \<open>\<open>_check\<close>: True when no \<open>_Forbidden\<close> is raised.\<close>

fun keyword_value :: "jnode \<Rightarrow> jnode" where
  "keyword_value (JKeyword k v) = v"
| "keyword_value n = n"

fun check :: "string list \<Rightarrow> jnode \<Rightarrow> bool" and check_keyword :: "string list \<Rightarrow> jnode \<Rightarrow> bool" where
  "check allowed (JName ctx name) \<longleftrightarrow>
     \<not> (ctx \<noteq> ''load'' \<or> starts_with ''__'' name \<or> name \<in> set RESERVED_NAMES)"
| "check allowed (JGetitem base arg) \<longleftrightarrow> base = JName ''load'' ''secrets'' \<and> check allowed arg"
| "check allowed (JFilter node name args kwargs dyn_args dyn_kwargs) \<longleftrightarrow>
     (case node of
        None \<Rightarrow> False
      | Some n \<Rightarrow> name \<in> set allowed \<and> \<not> dyn_args \<and> \<not> dyn_kwargs \<and> check allowed n
          \<and> list_all (check allowed) args \<and> list_all (check_keyword allowed) kwargs)"
| "check allowed (JKeyword k v) \<longleftrightarrow> False"
| "check allowed (JConst v) \<longleftrightarrow> True"
| "check allowed (JNode cls children) \<longleftrightarrow> cls \<in> set ALLOWED_NODES \<and> list_all (check allowed) children"
| "check_keyword allowed (JKeyword k v) \<longleftrightarrow> k \<in> set ALLOWED_KEYWORDS \<and> check allowed v"
| "check_keyword allowed _ \<longleftrightarrow> False"

text \<open>The node itself and everything below it.\<close>

fun subnodes :: "jnode \<Rightarrow> jnode list" where
  "subnodes (JName ctx name) = [JName ctx name]"
| "subnodes (JGetitem base arg) = JGetitem base arg # subnodes base @ subnodes arg"
| "subnodes (JFilter node name args kwargs da dk) =
     JFilter node name args kwargs da dk # (case node of None \<Rightarrow> [] | Some n \<Rightarrow> subnodes n)
       @ concat (map subnodes args) @ concat (map subnodes kwargs)"
| "subnodes (JKeyword k v) = JKeyword k v # subnodes v"
| "subnodes (JConst v) = [JConst v]"
| "subnodes (JNode cls children) = JNode cls children # concat (map subnodes children)"

text \<open>\<open>_referenced_names\<close>: the names and string constants below the root.\<close>

definition referenced_names :: "jnode \<Rightarrow> string list" where
  "referenced_names tree = concat (map (\<lambda>n. case n of JName ctx name \<Rightarrow> [name] | JConst (PStr s) \<Rightarrow> [s] | _ \<Rightarrow> [])
     (tl (subnodes tree)))"

section \<open>Rendering\<close>

text \<open>\<open>str.isidentifier\<close> on the code points up to 255.\<close>

definition ident_start :: "char \<Rightarrow> bool" where
  "ident_start c \<longleftrightarrow> is_alpha c \<or> c = CHR ''_'' \<or>
     (let n = (of_char c :: nat) in n \<in> {170, 181, 186} \<or> (192 \<le> n \<and> n \<noteq> 215 \<and> n \<noteq> 247))"

definition is_identifier :: "string \<Rightarrow> bool" where
  "is_identifier k \<longleftrightarrow> (case k of [] \<Rightarrow> False
     | c # cs \<Rightarrow> ident_start c \<and> list_all (\<lambda>d. ident_start d \<or> is_digit d \<or> (of_char d :: nat) = 183) cs)"

type_synonym parser = "string \<Rightarrow> parsed"
type_synonym renderer = "string \<Rightarrow> string dict \<Rightarrow> string dict \<Rightarrow> rendered"

text \<open>The first name that is a real key or was defined before.\<close>

fun first_collision :: "string list \<Rightarrow> string list \<Rightarrow> string option" where
  "first_collision taken [] = None"
| "first_collision taken (name # names) =
     (if name \<in> set taken then Some name else first_collision (name # taken) names)"

definition plain_context :: "string dict \<Rightarrow> string dict" where
  "plain_context secrets = filter (\<lambda>(k, v). is_identifier k \<and> \<not> starts_with ''__'' k) secrets"

definition apply_one :: "parser \<Rightarrow> renderer \<Rightarrow> string dict \<Rightarrow> string \<times> string \<Rightarrow> synthetic_error + string" where
  "apply_one parse render secrets d =
     (let (name, template) = d in
      case parse template of
        ParseSyntax \<Rightarrow> Inl (SyntheticError ''synthetic_syntax'' name [])
      | ParseOther \<Rightarrow> Inl (SyntheticError ''synthetic_error'' name [])
      | Parsed tree \<Rightarrow>
          if \<not> check filter_names tree then Inl (SyntheticError ''synthetic_forbidden'' name [])
          else (case render template (plain_context secrets) secrets of
              UndefinedKey ref \<Rightarrow>
                Inl (SyntheticError ''synthetic_undefined'' name
                  (if ref \<in> set (referenced_names tree) then '' (key '' @ quoted ref @ '')'' else []))
            | TooLarge \<Rightarrow> Inl (SyntheticError ''synthetic_too_large'' name [])
            | SecurityError \<Rightarrow> Inl (SyntheticError ''synthetic_forbidden'' name [])
            | RenderOther \<Rightarrow> Inl (SyntheticError ''synthetic_error'' name [])
            | Rendered value \<Rightarrow>
                if MAX_OUTPUT < length value then Inl (SyntheticError ''synthetic_too_large'' name [])
                else Inr value))"

definition apply_synthetic ::
  "parser \<Rightarrow> renderer \<Rightarrow> string dict \<Rightarrow> string dict \<Rightarrow> synthetic_error + string dict" where
  "apply_synthetic parse render secrets defs =
     (if defs = [] then Inr []
      else (case first_collision (keys secrets) (keys defs) of
          Some name \<Rightarrow> Inl (SyntheticError ''synthetic_collision'' name '' (real key of the same name)'')
        | None \<Rightarrow>
            fold_sum (\<lambda>d out. case apply_one parse render secrets d of
                Inl e \<Rightarrow> Inl e
              | Inr value \<Rightarrow> Inr (AList.update (fst d) value out)) defs []))"

record inspection =
  in_name :: string
  in_template :: string
  in_refs :: "string list"
  in_error :: "string option"

definition inspect_one :: "parser \<Rightarrow> string \<times> string \<Rightarrow> inspection" where
  "inspect_one parse d =
     (let (name, template) = d;
          entry = \<lparr>in_name = name, in_template = template, in_refs = [], in_error = None\<rparr> in
      case parse template of
        ParseSyntax \<Rightarrow> entry\<lparr>in_error := Some ''synthetic_syntax''\<rparr>
      | ParseOther \<Rightarrow> entry\<lparr>in_error := Some ''synthetic_error''\<rparr>
      | Parsed tree \<Rightarrow>
          if \<not> check filter_names tree then entry\<lparr>in_error := Some ''synthetic_forbidden''\<rparr>
          else entry\<lparr>in_refs := sorted_set (filter (\<lambda>n. n \<notin> set RESERVED_NAMES) (referenced_names tree))\<rparr>)"

definition inspect :: "parser \<Rightarrow> string dict \<Rightarrow> inspection list" where
  "inspect parse defs = map (inspect_one parse) defs"

section \<open>Soundness of the whitelist\<close>

text \<open>What the sandbox relies on, for one node.\<close>

fun harmless :: "string list \<Rightarrow> jnode \<Rightarrow> bool" where
  "harmless allowed (JName ctx name) \<longleftrightarrow> ctx = ''load'' \<and> \<not> starts_with ''__'' name"
| "harmless allowed (JGetitem base arg) \<longleftrightarrow> base = JName ''load'' ''secrets''"
| "harmless allowed (JFilter node name args kwargs da dk) \<longleftrightarrow> name \<in> set allowed \<and> node \<noteq> None \<and> \<not> da \<and> \<not> dk"
| "harmless allowed (JKeyword k v) \<longleftrightarrow> k \<in> set ALLOWED_KEYWORDS"
| "harmless allowed (JConst v) \<longleftrightarrow> True"
| "harmless allowed (JNode cls children) \<longleftrightarrow> cls \<in> set ALLOWED_NODES"

lemma check_harmless:
  "check allowed t \<Longrightarrow> list_all (harmless allowed) (subnodes t)"
  "check_keyword allowed t \<Longrightarrow> list_all (harmless allowed) (subnodes t)"
proof (induction allowed t and allowed t rule: check_check_keyword.induct)
  case (3 allowed node name args kwargs da dk)
  then show ?case by (auto simp: list_all_iff split: option.splits)
qed (auto simp: list_all_iff)

text \<open>C17. The template whitelist: in a tree that \<open>_check\<close> accepts, every node at any depth is harmless. No name
  is stored to or starts with two underscores, a subscript only ever reads from \<open>secrets\<close>, every
  filter is registered and called without unpacking, keyword arguments are the two allowed ones,
  and every other node is of an allowed class (so there is no attribute access, call, loop, macro
  or import anywhere in the template).\<close>

theorem check_sound:
  assumes "check allowed tree" "n \<in> set (subnodes tree)"
  shows "harmless allowed n"
  using check_harmless(1) [OF assms(1)] assms(2) by (simp add: list_all_iff)

definition demo_tree :: jnode where
  "demo_tree = JNode ''Template'' [JNode ''Output''
     [JFilter (Some (JGetitem (JName ''load'' ''secrets'') (JConst (PStr ''a'')))) ''lower'' [] [] False False]]"

theorem check_sound_witness:
  "check filter_names demo_tree \<and> harmless filter_names (JGetitem (JName ''load'' ''secrets'') (JConst (PStr ''a'')))"
proof -
  have "check filter_names demo_tree"
    by (simp add: demo_tree_def ALLOWED_NODES_def filter_names_def JINJA_FILTERS_def)
  moreover have "JGetitem (JName ''load'' ''secrets'') (JConst (PStr ''a'')) \<in> set (subnodes demo_tree)"
    by (simp add: demo_tree_def)
  ultimately show ?thesis using check_sound by blast
qed

section \<open>The result of apply\<close>

lemma first_collision_None:
  "first_collision taken names = None \<longleftrightarrow> distinct names \<and> set names \<inter> set taken = {}"
  by (induction names arbitrary: taken) auto

lemma first_collision_Some: "first_collision taken names = Some n \<Longrightarrow> n \<in> set names"
  by (induction names arbitrary: taken) (auto split: if_splits)

lemma apply_fold:
  assumes "fold_sum (\<lambda>d out. case apply_one parse render secrets d of
      Inl e \<Rightarrow> Inl e | Inr value \<Rightarrow> Inr (AList.update (fst d) value out)) defs out = Inr out'"
    and "distinct (keys defs)" "set (keys defs) \<inter> set (keys out) = {}"
  shows "keys out' = keys out @ keys defs \<and> take (length out) out' = out
    \<and> list_all (\<lambda>d. apply_one parse render secrets d = Inr (the (dget out' (fst d)))) defs"
  using assms
proof (induction defs arbitrary: out)
  case (Cons d defs)
  obtain v where v: "apply_one parse render secrets d = Inr v" and run:
    "fold_sum (\<lambda>d out. case apply_one parse render secrets d of
      Inl e \<Rightarrow> Inl e | Inr value \<Rightarrow> Inr (AList.update (fst d) value out)) defs (out @ [(fst d, v)]) = Inr out'"
    using Cons.prems by (auto split: sum.splits simp: update_snoc)
  have IH: "keys out' = keys (out @ [(fst d, v)]) @ keys defs \<and> take (length (out @ [(fst d, v)])) out' = out @ [(fst d, v)]
    \<and> list_all (\<lambda>d. apply_one parse render secrets d = Inr (the (dget out' (fst d)))) defs"
    by (rule Cons.IH [OF run]) (use Cons.prems in auto)
  then obtain rest where out': "out' = (out @ [(fst d, v)]) @ rest"
    by (metis append_take_drop_id)
  have "fst d \<notin> set (keys out)" using Cons.prems by auto
  then have "dget out' (fst d) = Some v"
    unfolding out' by (simp add: map_add_def dget_None_iff [THEN iffD2] split: option.splits)
  then show ?case using IH v out' by simp
qed simp

lemma apply_values:
  assumes "apply_synthetic parse render secrets defs = Inr out"
  shows "keys out = keys defs \<and> distinct (keys out) \<and> set (keys out) \<inter> set (keys secrets) = {}
    \<and> list_all (\<lambda>(name, template). \<exists>tree value. parse template = Parsed tree \<and> check filter_names tree
        \<and> render template (plain_context secrets) secrets = Rendered value
        \<and> dget out name = Some value \<and> length value \<le> MAX_OUTPUT) defs"
proof (cases "defs = []")
  case False
  then have none: "first_collision (keys secrets) (keys defs) = None"
    using assms by (auto simp: apply_synthetic_def split: option.splits)
  then have d: "distinct (keys defs)" "set (keys defs) \<inter> set (keys secrets) = {}"
    using first_collision_None [of "keys secrets" "keys defs"] by blast+
  have "fold_sum (\<lambda>d out. case apply_one parse render secrets d of
      Inl e \<Rightarrow> Inl e | Inr value \<Rightarrow> Inr (AList.update (fst d) value out)) defs [] = Inr out"
    using assms none False by (simp add: apply_synthetic_def)
  from apply_fold [OF this d(1)] have run: "keys out = keys defs
    \<and> list_all (\<lambda>d. apply_one parse render secrets d = Inr (the (dget out (fst d)))) defs" by simp
  have "\<exists>tree value. parse template = Parsed tree \<and> check filter_names tree
        \<and> render template (plain_context secrets) secrets = Rendered value
        \<and> dget out name = Some value \<and> length value \<le> MAX_OUTPUT" if "(name, template) \<in> set defs" for name template
  proof -
    have "name \<in> set (keys out)" using run that by force
    then obtain v where v: "dget out name = Some v" by (metis dget_None_iff not_None_eq)
    then have "apply_one parse render secrets (name, template) = Inr v"
      using run that by (auto simp: list_all_iff)
    then show ?thesis using v
      by (auto simp: apply_one_def Let_def split: parsed.splits rendered.splits if_splits)
  qed
  then show ?thesis using run d by (auto simp: list_all_iff)
qed (use assms in \<open>auto simp: apply_synthetic_def\<close>)

lemma demo_apply:
  "apply_synthetic (\<lambda>_. Parsed demo_tree) (\<lambda>_ _ _. Rendered ''x'') [(''a'', ''X'')] [(''lower_a'', ''t'')]
   = Inr [(''lower_a'', ''x'')]"
proof -
  have "check filter_names demo_tree"
    by (simp add: demo_tree_def ALLOWED_NODES_def filter_names_def JINJA_FILTERS_def)
  then show ?thesis by (simp add: apply_synthetic_def apply_one_def MAX_OUTPUT_def)
qed

text \<open>C18. Synthetic keys: \<open>apply\<close> returns a value for exactly the configured names, none of which is a real
  key or defined twice; each value is the rendering of a template that parsed and passed the
  whitelist, from the real secrets only, and is at most \<open>MAX_OUTPUT\<close> characters long.\<close>

theorem apply_result:
  assumes "apply_synthetic parse render secrets defs = Inr out"
  shows "keys out = keys defs \<and> distinct (keys out) \<and> set (keys out) \<inter> set (keys secrets) = {}
    \<and> list_all (\<lambda>(name, template). \<exists>tree value. parse template = Parsed tree \<and> check filter_names tree
        \<and> render template (plain_context secrets) secrets = Rendered value
        \<and> dget out name = Some value \<and> length value \<le> MAX_OUTPUT) defs"
  by (rule apply_values [OF assms])

theorem apply_result_witness:
  "let out = [(''lower_a'', ''x'')] in set (keys out) \<inter> {''a''} = {} \<and> distinct (keys out)"
  using apply_result [OF demo_apply] by (simp add: Let_def)



end
