(* ===== verification/SS_Supervisor.thy ===== *)
theory SS_Supervisor
  imports SS_Usage SS_Synthetic
begin

text \<open>
  \<open>secrets-sync/app/engine/supervisor.py\<close>: the sync cycle and the loop around it.  Everything outside
  the program that a cycle asks is a field of \<open>world\<close>: the clock, the providers, Jinja, PyYAML, the
  Supervisor reload.  The state \<open>sup\<close> has one field per attribute of the class; the file system is
  part of it.  An exception is its type's name.
\<close>

section \<open>The outside world and the state\<close>

datatype fetch_outcome = FetchOk snapshot | FetchError provider_error | FetchCrash string

datatype check_outcome = NoCheck | CheckToken "string option" | CheckError string | CheckCrash string

record world =
  w_now :: seconds
  w_clock :: "nat \<Rightarrow> seconds"
  w_load :: "string \<Rightarrow> load_error option"
  w_validate :: "string \<Rightarrow> string + problem list"
  w_fetch :: "string \<Rightarrow> fetch_outcome"
  w_notices :: "string \<Rightarrow> (string \<times> string \<times> string) list"
  w_check :: "string \<Rightarrow> check_outcome"
  w_jinja :: bool
  w_parse :: parser
  w_render :: renderer
  w_yload :: yaml_loader
  w_repr :: "pyval \<Rightarrow> string"
  w_sha :: "bytes \<Rightarrow> string"
  w_reload :: "string option"

record sup =
  sv_cfg :: config
  sv_os :: os
  sv_store :: store
  sv_known :: "string list"
  sv_loaded :: "string list"
  sv_reload_retry :: "seconds option"
  sv_running :: bool
  sv_pending :: bool
  sv_force :: bool
  sv_last_attempt :: seconds
  sv_fails :: nat
  sv_next_at :: seconds
  sv_last_good :: "snapshot dict"
  sv_pinfo :: "pyval dict dict"
  sv_last_written :: "string dict option"
  sv_last_items :: "int option"
  sv_active :: "string list"
  sv_usage_at :: "seconds option"
  sv_usage_sigs :: "string list"
  sv_tokens :: "string dict"
  sv_next_probe :: "seconds option"
  sv_check_errors :: "string dict"
  sv_announced :: "string dict"

type_synonym 'a step = "(sup, string, 'a) prog"

definition HEARTBEAT :: seconds where "HEARTBEAT = 30"
definition MANUAL_MIN_GAP :: seconds where "MANUAL_MIN_GAP = 10"
definition BACKOFF_START :: int where "BACKOFF_START = 30"
definition USAGE_MIN_GAP :: seconds where "USAGE_MIN_GAP = 60"
definition RETRY_AFTER :: seconds where "RETRY_AFTER = 65"
definition SKIPPED :: string where "SKIPPED = ''skipped''"

definition on_store :: "(store \<Rightarrow> store) \<Rightarrow> unit step" where
  "on_store f = modify (\<lambda>s. s\<lparr>sv_store := f (sv_store s)\<rparr>)"

definition in_os :: "('e \<Rightarrow> 'f) \<Rightarrow> (os, 'e, 'a) prog \<Rightarrow> (sup, 'f, 'a) prog" where
  "in_os g m = (\<lambda>s. case m (sv_os s) of (r, o') \<Rightarrow>
     (case r of Inl e \<Rightarrow> Inl (g e) | Inr x \<Rightarrow> Inr x, s\<lparr>sv_os := o'\<rparr>))"

section \<open>Start\<close>

definition check_enabled :: "int \<Rightarrow> pyval dict" where
  "check_enabled interval = [(''enabled'', PBool True), (''interval'', PInt interval), (''last_check_at'', PNone), (''result'', PNone),
     (''error_code'', PNone), (''triggered_syncs'', PInt 0)]"

definition env_secrets :: "string dict \<Rightarrow> string list" where
  "env_secrets env = map (\<lambda>k. the (dget env k))
     (filter (\<lambda>k. dget env k \<noteq> None \<and> dget env k \<noteq> Some []) [''BW_CLIENTSECRET'', ''BW_PASSWORD'', ''BW_CLIENTID''])"

definition new_sup :: "(pyval \<Rightarrow> string) \<Rightarrow> config \<Rightarrow> string dict \<Rightarrow> string dict \<Rightarrow> seconds \<Rightarrow> os \<Rightarrow> (py_exn + sup) \<times> os" where
  "new_sup repr cfg versions env now o0 =
     (case load_previous repr (new_store (to_path (cf_state_file cfg)) (cf_interval cfg) versions now) o0 of
        (Inl e, o') \<Rightarrow> (Inl e, o')
      | (Inr st, o') \<Rightarrow>
          (Inr \<lparr>sv_cfg = cfg, sv_os = o',
            sv_store = (if 0 < cf_check_interval cfg then st\<lparr>st_check := check_enabled (cf_check_interval cfg)\<rparr> else st),
            sv_known = register (env_secrets env) [], sv_loaded = [], sv_reload_retry = None, sv_running = False, sv_pending = False,
            sv_force = False, sv_last_attempt = 0, sv_fails = 0, sv_next_at = 0, sv_last_good = [], sv_pinfo = [],
            sv_last_written = None, sv_last_items = (if st_last_success st \<noteq> None then Some (st_items st) else None),
            sv_active = [], sv_usage_at = None, sv_usage_sigs = [], sv_tokens = [], sv_next_probe = None,
            sv_check_errors = [], sv_announced = []\<rparr>, o'))"

section \<open>Small helpers\<close>

definition clean :: "sup \<Rightarrow> string \<Rightarrow> string" where
  "clean s t = scrub (sv_known s) t"

definition event :: "world \<Rightarrow> string \<Rightarrow> string \<Rightarrow> string \<Rightarrow> string option \<Rightarrow> unit step" where
  "event w level code message provider = on_store (add_event (w_now w) level code message provider)"

text \<open>\<open>_emit\<close>: an event once per active condition; the signature is returned.\<close>

definition signature_of :: "string option \<Rightarrow> string \<Rightarrow> string \<Rightarrow> string" where
  "signature_of provider code message =
     (case provider of None \<Rightarrow> ''None'' | Some p \<Rightarrow> p) @ '':'' @ code @ '':'' @ message"

definition emit :: "world \<Rightarrow> string \<Rightarrow> string \<Rightarrow> string \<Rightarrow> string option \<Rightarrow> string step" where
  "emit w level code message provider =
     (let sig = signature_of provider code message in
      bnd (gets (\<lambda>s. (sig \<in> set (sv_active s), clean s message))) (\<lambda>(active, cleaned).
        andthen (when_do (\<not> active) (event w level code cleaned provider)) (ret sig)))"

definition problems_val :: "problem list option \<Rightarrow> pyval" where
  "problems_val ps = PList (map (\<lambda>p. PDict [(''code'', PStr (p_code p)), (''message'', PStr (p_message p)),
     (''severity'', PStr (p_severity p))]) (case ps of None \<Rightarrow> [] | Some l \<Rightarrow> l))"

definition diff :: "string dict \<Rightarrow> string dict \<Rightarrow> string list \<times> string list \<times> string list" where
  "diff old new =
     (sorted_set (filter (\<lambda>k. k \<notin> set (keys old)) (keys new)),
      sorted_set (filter (\<lambda>k. k \<notin> set (keys new)) (keys old)),
      sorted_set (filter (\<lambda>k. k \<in> set (keys old) \<and> dget new k \<noteq> dget old k) (keys new)))"

section \<open>Providers\<close>

record fetched =
  f_name :: string
  f_snapshot :: "snapshot option"
  f_code :: "string option"
  f_message :: string
  f_problems :: "problem list option"
  f_collision :: bool

definition failed_fetch :: "string \<Rightarrow> string \<Rightarrow> string \<Rightarrow> problem list \<Rightarrow> bool \<Rightarrow> fetched" where
  "failed_fetch name code message ps collision =
     \<lparr>f_name = name, f_snapshot = None, f_code = Some code, f_message = message, f_problems = Some ps,
      f_collision = collision\<rparr>"

definition fetch_provider :: "world \<Rightarrow> string \<Rightarrow> fetched step" where
  "fetch_provider w name =
     (\<lambda>s. case (if name \<in> set (sv_loaded s) then None else w_load w name) of
        Some (ProviderLoadError code msg) \<Rightarrow> (Inr (failed_fetch name code msg [error_problem code msg] False), s)
      | None \<Rightarrow>
          (let s = s\<lparr>sv_loaded := (if name \<in> set (sv_loaded s) then sv_loaded s else sv_loaded s @ [name])\<rparr>;
               ps = (case w_validate w name of
                       Inl typ \<Rightarrow> [error_problem ''validate_failed'' (''validate raised '' @ typ)]
                     | Inr l \<Rightarrow> l);
               blocking = filter (\<lambda>p. p_severity p = ''error'') ps in
           case blocking of
             p # _ \<Rightarrow> (Inr (failed_fetch name (p_code p) (p_message p) ps False), s)
           | [] \<Rightarrow>
               (case w_fetch w name of
                  FetchError (ProviderError code msg) \<Rightarrow>
                    (Inr (failed_fetch name code (clean s msg) ps (code = ''key_collision'')), s)
                | FetchCrash typ \<Rightarrow>
                    (Inr (failed_fetch name ''provider_internal_error'' (''unexpected '' @ typ) ps False), s)
                | FetchOk snap \<Rightarrow>
                    (Inr \<lparr>f_name = name, f_snapshot = Some snap, f_code = None, f_message = [],
                          f_problems = Some ps, f_collision = False\<rparr>,
                     s\<lparr>sv_known := register (map snd (snap_secrets snap)) (sv_known s)\<rparr>))))"

fun fetch_all :: "world \<Rightarrow> string list \<Rightarrow> fetched list step" where
  "fetch_all w [] = ret []"
| "fetch_all w (n # ns) = bnd (fetch_provider w n) (\<lambda>f. bnd (fetch_all w ns) (\<lambda>fs. ret (f # fs)))"

section \<open>Reloading the Supervisor\<close>

definition reload_supervisor :: "world \<Rightarrow> nat \<Rightarrow> nat \<Rightarrow> unit step" where
  "reload_supervisor w added removed =
     (case w_reload w of
        None \<Rightarrow>
          andthen (modify (\<lambda>s. s\<lparr>sv_reload_retry := Some (w_now w + RETRY_AFTER)\<rparr>))
            (event w ''info'' ''supervisor_reload''
              (''asked the Supervisor to re-read secrets.yaml ('' @ nat_str added @ '' added, '' @ nat_str removed @ '' removed)'') None)
      | Some e \<Rightarrow>
          if e = SKIPPED then ret ()
          else andthen (modify (\<lambda>s. s\<lparr>sv_reload_retry := None\<rparr>))
            (event w ''warning'' ''supervisor_reload_failed'' (''Supervisor secrets reload failed ('' @ e @ '')'') None))"

definition retry_reload :: "seconds \<Rightarrow> unit step" where
  "retry_reload now = modify (\<lambda>s. case sv_reload_retry s of
     Some t \<Rightarrow> if t \<le> now then s\<lparr>sv_reload_retry := None\<rparr> else s | None \<Rightarrow> s)"

section \<open>Usage\<close>

definition secrets_path :: "sup \<Rightarrow> path" where "secrets_path s = to_path (cf_secrets_file (sv_cfg s))"

text \<open>\<open>read_secrets\<close> on the configured file.\<close>

definition known_secrets :: "world \<Rightarrow> (sup, 'e, string dict option) prog" where
  "known_secrets w = (\<lambda>s. case read_secrets (w_yload w) (w_repr w) (secrets_path s) (sv_os s) of
     (Inl (e :: unit), o') \<Rightarrow> (Inr None, s\<lparr>sv_os := o'\<rparr>) | (Inr k, o') \<Rightarrow> (Inr k, s\<lparr>sv_os := o'\<rparr>))"

definition usage_roots :: "sup \<Rightarrow> (string \<times> path) list" where
  "usage_roots s = (''config'', parent (secrets_path s))
     # (if cf_usage_scan (sv_cfg s) = ''all'' then [(''addon_configs'', to_path (cf_addon_configs_dir (sv_cfg s)))] else [])"

definition record_usage :: "world \<Rightarrow> seconds \<Rightarrow> string list \<Rightarrow> unit step" where
  "record_usage w now known =
     bnd (gets (\<lambda>s. scan (fsys (sv_os s)) (w_clock w) (usage_roots s))) (\<lambda>r.
       let missing = summarize_missing r known in
       andthen (on_store (\<lambda>st. st\<lparr>st_usage := PDict (summarize r known @ [(''scanned_at'', PStr (iso now))])\<rparr>))
         (if missing = [] then modify (\<lambda>s. s\<lparr>sv_usage_sigs := []\<rparr>)
          else bnd (emit w ''warning'' ''secret_missing''
                 (''referenced but not in secrets.yaml: '' @ join '', '' (take 20 missing)
                   @ (if 20 < length missing then '' ...'' else [])) None)
               (\<lambda>sig. modify (\<lambda>s. s\<lparr>sv_usage_sigs := [sig], sv_active := sv_active s @ [sig]\<rparr>))))"

definition usage_throttled :: "seconds \<Rightarrow> sup \<Rightarrow> bool" where
  "usage_throttled now s = (case sv_usage_at s of Some t \<Rightarrow> now - t < USAGE_MIN_GAP | None \<Rightarrow> False)"

definition refresh_usage :: "world \<Rightarrow> seconds \<Rightarrow> unit step" where
  "refresh_usage w now =
     bnd (gets (\<lambda>s. cf_usage_scan (sv_cfg s) = ''off'')) (\<lambda>off.
     if off then ret ()
     else andthen (modify (\<lambda>s. s\<lparr>sv_active := sv_active s @ sv_usage_sigs s\<rparr>))
      (bnd (gets (usage_throttled now)) (\<lambda>throttled.
       if throttled then ret ()
       else andthen (modify (\<lambda>s. s\<lparr>sv_usage_at := Some now\<rparr>))
        (bnd (known_secrets w) (\<lambda>known. case known of None \<Rightarrow> ret () | Some d \<Rightarrow> record_usage w now (keys d))))))"

section \<open>The end of a cycle\<close>

definition backoff :: "nat \<Rightarrow> int \<Rightarrow> int" where
  "backoff fails interval = (if fails = 0 then interval else min (BACKOFF_START * 2 ^ (fails - 1)) interval)"

definition absent_provider :: "string \<Rightarrow> string option \<Rightarrow> pyval" where
  "absent_provider status code = PDict [(''status'', PStr status), (''last_success_at'', PNone), (''items'', PInt 0),
     (''error_code'', opt_str code), (''problems'', PList [])]"

definition provider_block :: "sup \<Rightarrow> string option \<Rightarrow> pyval dict" where
  "provider_block s code =
     map (\<lambda>n. (n, case dget (sv_pinfo s) n of
         Some info \<Rightarrow> if info = [] then absent_provider ''error'' code else PDict info
       | None \<Rightarrow> absent_provider ''error'' code)) (cf_providers (sv_cfg s))
     @ map (\<lambda>n. (n, absent_provider ''disabled'' None))
         (filter (\<lambda>n. n \<notin> set (cf_providers (sv_cfg s))) (keys PROVIDER_MODULES))"

fun update_all :: "'v dict \<Rightarrow> 'v dict \<Rightarrow> 'v dict" where
  "update_all [] d = d"
| "update_all ((k, v) # kvs) d = update_all kvs (AList.update k v d)"

definition oserr_name :: "oserr \<Rightarrow> string" where
  "oserr_name e = (case e of ENOENT \<Rightarrow> ''FileNotFoundError'' | EEXIST \<Rightarrow> ''FileExistsError''
     | ENOTDIR \<Rightarrow> ''NotADirectoryError'' | EISDIR \<Rightarrow> ''IsADirectoryError'' | _ \<Rightarrow> ''OSError'')"

definition save_state :: "world \<Rightarrow> unit step" where
  "save_state w = bnd (gets sv_store) (\<lambda>st. in_os oserr_name (save (w_now w) st))"

definition set_outcome :: "seconds \<Rightarrow> string \<Rightarrow> string option \<Rightarrow> string list \<Rightarrow> sup \<Rightarrow> sup" where
  "set_outcome now status code sigs s =
     (let fails = (if status = ''ok'' then 0 else Suc (sv_fails s));
          next_at = now + of_int (backoff fails (cf_interval (sv_cfg s))) in
      s\<lparr>sv_active := filter (\<lambda>x. x \<noteq> []) sigs, sv_fails := fails, sv_next_at := next_at,
        sv_next_probe := (if sv_next_probe s = None \<and> 0 < cf_check_interval (sv_cfg s)
                          then Some (now + of_int (cf_check_interval (sv_cfg s))) else sv_next_probe s),
        sv_store := (sv_store s)\<lparr>st_status := status, st_error := code, st_next_sync := Some next_at\<rparr>\<rparr>)"

definition finish :: "world \<Rightarrow> seconds \<Rightarrow> string \<Rightarrow> string option \<Rightarrow> string list \<Rightarrow> unit step" where
  "finish w now status code sigs =
     andthen (modify (set_outcome now status code sigs))
      (andthen (refresh_usage w now)
        (andthen (modify (\<lambda>s. s\<lparr>sv_store := (sv_store s)\<lparr>st_providers :=
            update_all (provider_block s code) (st_providers (sv_store s))\<rparr>\<rparr>))
          (save_state w)))"

end
