(* ===== verification/SS_Cycle.thy ===== *)
theory SS_Cycle
  imports SS_Supervisor
begin

text \<open>
  \<open>secrets-sync/app/engine/supervisor.py\<close>, continued: one sync cycle (\<open>_cycle\<close>), in the order of the
  code: fetch and record, merge, synthetic keys, shrink guard, write, finish; then \<open>run_once\<close>, the
  change probe, the manual trigger, the preview and the waiting loop.
\<close>

section \<open>Recording the fetches\<close>

definition ok_info :: "seconds \<Rightarrow> fetched \<Rightarrow> snapshot \<Rightarrow> pyval dict" where
  "ok_info now f snap =
     [(''status'', PStr ''ok''), (''last_success_at'', PStr (iso now)), (''items'', PInt (int (length (snap_secrets snap)))),
      (''error_code'', PNone), (''problems'', problems_val (f_problems f)), (''revision'', PStr (snap_revision snap))]"

definition failed_info :: "pyval dict option \<Rightarrow> bool \<Rightarrow> fetched \<Rightarrow> pyval dict" where
  "failed_info old held f =
     update_all [(''status'', PStr (if held then ''degraded'' else ''error'')), (''error_code'', opt_str (f_code f)),
                 (''problems'', problems_val (f_problems f))]
       (case old of Some info \<Rightarrow> info
        | None \<Rightarrow> [(''last_success_at'', PNone), (''items'', PInt 0), (''revision'', PStr [])])"

type_synonym gathered = "(string \<times> snapshot) list \<times> fetched list \<times> string list"

fun emit_problems :: "world \<Rightarrow> string option \<Rightarrow> problem list \<Rightarrow> string list \<Rightarrow> string list step" where
  "emit_problems w provider [] sigs = ret sigs"
| "emit_problems w provider (p # ps) sigs =
     (if p_severity p = ''error''
      then bnd (emit w ''error'' (p_code p) (p_message p) provider) (\<lambda>g. emit_problems w provider ps (sigs @ [g]))
      else emit_problems w provider ps sigs)"

definition or_text :: "string option \<Rightarrow> string \<Rightarrow> string" where
  "or_text o_s d = (case o_s of None \<Rightarrow> d | Some s \<Rightarrow> if s = [] then d else s)"

definition code_text :: "string option \<Rightarrow> string" where
  "code_text c = (case c of None \<Rightarrow> ''None'' | Some s \<Rightarrow> s)"

definition record_fetch :: "world \<Rightarrow> seconds \<Rightarrow> fetched \<Rightarrow> gathered \<Rightarrow> gathered step" where
  "record_fetch w now f acc =
     (let (used, failed, sigs) = acc in
      case f_snapshot f of
        Some snap \<Rightarrow>
          andthen (modify (\<lambda>s. s\<lparr>sv_last_good := AList.update (f_name f) snap (sv_last_good s),
              sv_tokens := AList.update (f_name f) (snap_check snap) (sv_tokens s),
              sv_pinfo := AList.update (f_name f) (ok_info now f snap) (sv_pinfo s)\<rparr>))
            (ret (used @ [(f_name f, snap)], failed, sigs))
      | None \<Rightarrow>
          bnd (gets (\<lambda>s. dget (sv_last_good s) (f_name f))) (\<lambda>held.
            let used' = (case held of Some snap \<Rightarrow> if f_collision f then used else used @ [(f_name f, snap)] | None \<Rightarrow> used);
                detail = (if f_message f \<noteq> [] \<and> Some (f_message f) \<noteq> f_code f then '': '' @ f_message f else []) in
            andthen (modify (\<lambda>s. s\<lparr>sv_pinfo := AList.update (f_name f)
                (failed_info (dget (sv_pinfo s) (f_name f)) (held \<noteq> None) f) (sv_pinfo s)\<rparr>))
             (bnd (emit w ''error'' (or_text (f_code f) ''provider_error'')
                    (''provider '' @ f_name f @ '': '' @ code_text (f_code f) @ detail) (Some (f_name f))) (\<lambda>g.
              bnd (emit_problems w (Some (f_name f)) (case f_problems f of None \<Rightarrow> [] | Some l \<Rightarrow> l) (sigs @ [g])) (\<lambda>sigs.
                ret (used', failed @ [f], sigs))))))"

fun emit_notices :: "world \<Rightarrow> string \<Rightarrow> (string \<times> string \<times> string) list \<Rightarrow> string list \<Rightarrow> string list step" where
  "emit_notices w name [] sigs = ret sigs"
| "emit_notices w name ((level, code, message) # ns) sigs =
     bnd (emit w level code message (Some name)) (\<lambda>g. emit_notices w name ns (sigs @ [g]))"

definition notices_of :: "world \<Rightarrow> fetched \<Rightarrow> string list \<Rightarrow> string list step" where
  "notices_of w f sigs =
     bnd (gets (\<lambda>s. f_name f \<in> set (sv_loaded s)))
       (\<lambda>loaded. emit_notices w (f_name f) (if loaded then w_notices w (f_name f) else []) sigs)"

section \<open>Synthetic keys\<close>

datatype synthetic_failure = SyntheticFailure (sf_code: string) (sf_message: string) (sf_name: string)

definition report_entry :: "bool \<Rightarrow> synthetic_failure option \<Rightarrow> string \<times> string \<times> string list \<times> string option \<Rightarrow> pyval" where
  "report_entry rendered failure e =
     (let (name, template, refs, code0) = e;
          code = (case failure of Some f \<Rightarrow> if code0 = None \<and> sf_name f = name then Some (sf_code f) else code0
                  | None \<Rightarrow> code0) in
      PDict [(''name'', PStr name), (''template'', PStr template), (''refs'', strs refs),
             (''status'', PStr (if code \<noteq> None \<and> code \<noteq> Some [] then ''error'' else if rendered then ''ok'' else ''pending'')),
             (''error_code'', opt_str code)])"

definition synthetic_entries_of :: "world \<Rightarrow> string dict \<Rightarrow> (string \<times> string \<times> string list \<times> string option) list" where
  "synthetic_entries_of w defs =
     (if w_jinja w
      then map (\<lambda>i. (in_name i, in_template i, in_refs i, in_error i)) (inspect (w_parse w) defs)
      else map (\<lambda>(n, t). (n, t, [], Some ''synthetic_unavailable'')) defs)"

definition synthetic_report :: "world \<Rightarrow> bool \<Rightarrow> synthetic_failure option \<Rightarrow> unit step" where
  "synthetic_report w rendered failure =
     modify (\<lambda>s. s\<lparr>sv_store := (sv_store s)\<lparr>st_synthetic :=
       map (report_entry rendered failure) (synthetic_entries_of w (cf_synthetic_keys (sv_cfg s)))\<rparr>\<rparr>)"

definition synthetic_values :: "world \<Rightarrow> string dict \<Rightarrow> (sup, synthetic_failure, string dict) prog" where
  "synthetic_values w secrets = (\<lambda>s.
     let defs = cf_synthetic_keys (sv_cfg s) in
     if defs = [] then (Inr [], s)
     else if \<not> w_jinja w
     then (Inl (SyntheticFailure ''synthetic_unavailable'' ''synthetic keys need jinja2, which is not installed'' []), s)
     else (case apply_synthetic (w_parse w) (w_render w) secrets defs of
         Inl e \<Rightarrow> (Inl (SyntheticFailure (se_code e) (se_message e) (se_name e)), s)
       | Inr out \<Rightarrow> (Inr out, s\<lparr>sv_known := register (map snd out) (sv_known s)\<rparr>)))"

section \<open>The decision\<close>

text \<open>\<open>Inl\<close>: the fatal code and message; \<open>Inr\<close>: what to write, with the names of the synthetic keys.\<close>

type_synonym fatal = "string \<times> string"

definition merge_used :: "config \<Rightarrow> snapshot dict \<Rightarrow> gathered \<Rightarrow> fatal + merged" where
  "merge_used cfg last_good g =
     (let (used, failed, sigs) = g in
      case find f_collision failed of
        Some f \<Rightarrow> Inl (''key_collision'', f_message f)
      | None \<Rightarrow>
          if list_ex (\<lambda>f. f_name f \<notin> set (keys last_good)) failed
          then Inl (or_text (f_code (hd failed)) ''provider_error'', ''provider failed and nothing is held in memory'')
          else (case merge used (cf_collision_policy cfg) of
              Inl e \<Rightarrow> Inl (me_code e, me_message e)
            | Inr m \<Rightarrow> Inr m))"

definition add_synthetic :: "world \<Rightarrow> merged \<Rightarrow> (sup, fatal, merged \<times> string list) prog" where
  "add_synthetic w m = (\<lambda>s.
     if cf_synthetic_keys (sv_cfg s) = [] then (Inr (m, []), s)
     else (case synthetic_values w (mg_secrets m) s of
         (Inl f, s') \<Rightarrow> (Inl (sf_code f, sf_message f), snd (synthetic_report w False (Some f) s'))
       | (Inr out, s') \<Rightarrow>
           (Inr (m\<lparr>mg_secrets := update_all out (mg_secrets m)\<rparr>, sort (keys out)),
            snd (synthetic_report w True None s'))))"

definition previous_secrets :: "world \<Rightarrow> (sup, 'e, string dict) prog" where
  "previous_secrets w = bnd (gets sv_last_written) (\<lambda>d. case d of
     Some d \<Rightarrow> ret d
   | None \<Rightarrow> bnd (known_secrets w) (\<lambda>k. ret (case k of None \<Rightarrow> [] | Some d \<Rightarrow> d)))"

definition opt_int :: "int option \<Rightarrow> pyval" where
  "opt_int i = (case i of None \<Rightarrow> PNone | Some n \<Rightarrow> PInt n)"

definition guard_report :: "world \<Rightarrow> string dict \<Rightarrow> unit step" where
  "guard_report w secrets =
     bnd (previous_secrets w) (\<lambda>previous.
       let (added, removed, changed) = diff previous secrets in
       modify (\<lambda>s. s\<lparr>sv_store := (sv_store s)\<lparr>st_guard := PDict
         [(''new_items'', PInt (int (length secrets))), (''last_items'', opt_int (sv_last_items s)),
          (''removed'', strs removed), (''added'', strs added), (''changed'', strs changed)]\<rparr>\<rparr>))"

definition int_text :: "int option \<Rightarrow> string" where
  "int_text i = (case i of None \<Rightarrow> ''None'' | Some n \<Rightarrow> int_str n)"

definition guarded :: "bool \<Rightarrow> sup \<Rightarrow> merged \<Rightarrow> fatal option" where
  "guarded force s m =
     (let items = int (length (mg_secrets m)) in
      if check_shrink items (sv_last_items s) (cf_shrink_guard_percent (sv_cfg s)) force \<noteq> None
      then Some (''shrink_guard'', ''refusing to write '' @ int_str items @ '' items (last write: '' @ int_text (sv_last_items s) @ '')'')
      else None)"

section \<open>Writing\<close>

definition after_write :: "world \<Rightarrow> merged \<Rightarrow> string dict \<Rightarrow> bool \<Rightarrow> unit step" where
  "after_write w m previous written =
     andthen (modify (\<lambda>s. s\<lparr>sv_last_written := Some (mg_secrets m), sv_last_items := Some (int (length (mg_secrets m)))\<rparr>))
      (if \<not> written then ret ()
       else (let (added, removed, changed) = diff previous (mg_secrets m) in
         andthen (modify (\<lambda>s. s\<lparr>sv_store := (sv_store s)\<lparr>st_keys :=
             (st_keys (sv_store s))\<lparr>kc_added := added, kc_removed := removed, kc_changed := changed\<rparr>\<rparr>\<rparr>))
           (when_do (added \<noteq> [] \<or> removed \<noteq> []) (reload_supervisor w (length added) (length removed)))))"

text \<open>
  The writing part: a \<open>WriteError\<close> becomes the fatal error (its message is the code), any other
  exception of the writer leaves the cycle.
\<close>

datatype cycle_exn = Fatal fatal | Crash string

fun write_exn_to :: "write_exn \<Rightarrow> cycle_exn" where
  "write_exn_to (WriteError c) = (if c = ''UnicodeDecodeError'' then Crash c else Fatal (c, c))"
| "write_exn_to (OsError e) = Crash (oserr_name e)"

definition commit :: "world \<Rightarrow> merged \<Rightarrow> (sup, cycle_exn, bool \<times> string list) prog" where
  "commit w m =
     bnd (gets (\<lambda>s. sv_cfg s)) (\<lambda>cfg.
     bnd (in_os write_exn_to (write_files (w_repr w) (w_sha w) (to_path (cf_files_dir cfg))
            (to_path (cf_data_dir cfg) @ [''files.manifest.json'']) (mg_files m))) (\<lambda>fres.
     bnd (previous_secrets w) (\<lambda>previous.
     bnd (in_os write_exn_to (write_secrets (w_yload w) (to_path (cf_secrets_file cfg)) (mg_secrets m))) (\<lambda>written.
     andthen (lift_exn Crash (after_write w m previous written))
       (ret (written, fr_skipped fres))))))"

section \<open>The cycle\<close>

definition decide :: "world \<Rightarrow> bool \<Rightarrow> gathered \<Rightarrow> (sup, fatal, merged \<times> string list) prog" where
  "decide w force g = (\<lambda>s.
     case merge_used (sv_cfg s) (sv_last_good s) g of
       Inl e \<Rightarrow> (Inl e, s)
     | Inr m \<Rightarrow>
         (case add_synthetic w m s of
            (Inl e, s') \<Rightarrow> (Inl e, s')
          | (Inr (m', names), s') \<Rightarrow>
              (case guarded force s' m' of
                 Some e \<Rightarrow> (Inl e, snd (guard_report w (mg_secrets m') s'))
               | None \<Rightarrow> (Inr (m', names), s'))))"

fun emit_shadowed :: "world \<Rightarrow> (string \<times> string \<times> string) list \<Rightarrow> string list \<Rightarrow> string list step" where
  "emit_shadowed w [] sigs = ret sigs"
| "emit_shadowed w ((name, winner, loser) # ns) sigs =
     bnd (emit w ''info'' ''key_shadowed'' (quoted name @ '' from '' @ loser @ '' shadowed by '' @ winner) None)
       (\<lambda>g. emit_shadowed w ns (sigs @ [g]))"

fun emit_skipped :: "world \<Rightarrow> string list \<Rightarrow> string list \<Rightarrow> string list step" where
  "emit_skipped w [] sigs = ret sigs"
| "emit_skipped w (rel # rels) sigs =
     bnd (emit w ''warning'' ''file_unmanaged'' (''existing unmanaged file '' @ quoted rel @ '' not overwritten'') None)
       (\<lambda>g. emit_skipped w rels (sigs @ [g]))"

definition conclude ::
  "world \<Rightarrow> seconds \<Rightarrow> fetched list \<Rightarrow> string list \<Rightarrow> merged \<Rightarrow> string list \<Rightarrow> bool \<Rightarrow> string list \<Rightarrow> unit step" where
  "conclude w now failed sigs m synth_names written skipped =
     bnd (emit_shadowed w (mg_shadowed m) sigs) (\<lambda>sigs.
     bnd (emit_skipped w skipped sigs) (\<lambda>sigs.
     andthen (modify (\<lambda>s. s\<lparr>sv_store := (sv_store s)\<lparr>st_last_success := Some now, st_items := int (length (mg_secrets m)),
         st_keys := (st_keys (sv_store s))\<lparr>kc_names := sort (keys (mg_secrets m))\<rparr>,
         st_synthetic_names := (if cf_synthetic_keys (sv_cfg s) \<noteq> [] then Some synth_names else None)\<rparr>\<rparr>))
      (bnd (gets (\<lambda>s. (st_status (sv_store s), st_items (sv_store s), st_keys (sv_store s)))) (\<lambda>(status, items, k).
        if failed \<noteq> [] \<or> skipped \<noteq> []
        then finish w now ''degraded'' (case failed of f # _ \<Rightarrow> f_code f | [] \<Rightarrow> Some ''file_unmanaged'') sigs
        else andthen
          (if written
           then event w ''info'' ''sync_ok'' (''synced '' @ int_str items @ '' items ('' @ nat_str (length (kc_added k)) @ '' added, ''
               @ nat_str (length (kc_removed k)) @ '' removed, '' @ nat_str (length (kc_changed k)) @ '' changed)'') None
           else when_do (status \<noteq> ''ok'' \<and> status \<noteq> ''starting'')
             (event w ''info'' ''sync_ok'' (''sync recovered ('' @ int_str items @ '' items)'') None))
          (finish w now ''ok'' None sigs)))))"

definition finish_fatal :: "world \<Rightarrow> seconds \<Rightarrow> string list \<Rightarrow> fatal \<Rightarrow> unit step" where
  "finish_fatal w now sigs f =
     bnd (gets (\<lambda>s. (clean s (snd f), st_last_success (sv_store s) \<noteq> None))) (\<lambda>(msg, had).
     bnd (emit w ''error'' (fst f) msg None) (\<lambda>g.
       finish w now (if had then ''degraded'' else ''error'') (Some (fst f)) (sigs @ [g])))"

definition gather :: "world \<Rightarrow> seconds \<Rightarrow> gathered step" where
  "gather w now =
     bnd (gets (\<lambda>s. cf_providers (sv_cfg s))) (\<lambda>names.
     bnd (fetch_all w names) (\<lambda>fetches.
     bnd (fold_prog (record_fetch w now) fetches ([], [], [])) (\<lambda>(used, failed, sigs).
     bnd (fold_prog (notices_of w) fetches sigs) (\<lambda>sigs. ret (used, failed, sigs)))))"

definition prepare :: "world \<Rightarrow> seconds \<Rightarrow> gathered step" where
  "prepare w now =
     andthen (on_store (\<lambda>st. st\<lparr>st_guard := PNone\<rparr>)) (andthen (synthetic_report w False None) (gather w now))"

definition attempt :: "world \<Rightarrow> bool \<Rightarrow> seconds \<Rightarrow> gathered \<Rightarrow> unit step" where
  "attempt w force now g = (\<lambda>s.
     case decide w force g s of
       (Inl e, s') \<Rightarrow> finish_fatal w now (snd (snd g)) e s'
     | (Inr (m, names), s') \<Rightarrow>
         (case commit w m s' of
            (Inl (Fatal e), s'') \<Rightarrow> finish_fatal w now (snd (snd g)) e s''
          | (Inl (Crash t), s'') \<Rightarrow> (Inl t, s'')
          | (Inr (written, skipped), s'') \<Rightarrow>
              conclude w now (fst (snd g)) (snd (snd g)) m names written skipped s''))"

definition config_errors :: "sup \<Rightarrow> problem list" where
  "config_errors s = filter (\<lambda>p. p_severity p = ''error'') (cf_problems (sv_cfg s))"

definition cycle :: "world \<Rightarrow> bool \<Rightarrow> unit step" where
  "cycle w force =
     andthen (on_store (\<lambda>st. st\<lparr>st_last_attempt := Some (w_now w)\<rparr>))
      (bnd (gets config_errors) (\<lambda>errors.
       if errors \<noteq> []
       then bnd (emit_problems w None errors []) (\<lambda>sigs. finish w (w_now w) ''error'' (Some (p_code (hd errors))) sigs)
       else bnd (prepare w (w_now w)) (attempt w force (w_now w))))"

section \<open>The loop\<close>

definition run_once :: "world \<Rightarrow> bool \<Rightarrow> string step" where
  "run_once w force =
     andthen (modify (\<lambda>s. s\<lparr>sv_running := True, sv_pending := False, sv_last_attempt := w_now w\<rparr>))
      (andthen
        (finally_do
          (catch (cycle w force)
            (\<lambda>e. bnd (gets (\<lambda>s. (case st_last_success (sv_store s) of Some t \<Rightarrow> t \<noteq> 0 | None \<Rightarrow> False)))
              (\<lambda>had. finish w (w_now w) (if had then ''degraded'' else ''error'') (Some ''internal_error'') [])))
          (\<lambda>s. s\<lparr>sv_running := False\<rparr>))
        (gets (\<lambda>s. st_status (sv_store s))))"

definition trigger_sync :: "seconds \<Rightarrow> bool \<Rightarrow> sup \<Rightarrow> bool \<times> sup" where
  "trigger_sync now force s =
     (if sv_running s \<or> sv_pending s \<or> now - sv_last_attempt s < MANUAL_MIN_GAP then (False, s)
      else (True, s\<lparr>sv_pending := True, sv_force := force\<rparr>))"

text \<open>One provider of the change probe; the accumulator holds the count, the changed names and the first error.\<close>

definition short :: "string \<Rightarrow> string" where "short t = take 12 t"

definition probe_one ::
  "world \<Rightarrow> string \<Rightarrow> nat \<times> string list \<times> string option \<Rightarrow> (nat \<times> string list \<times> string option) step" where
  "probe_one w name acc =
     (let (probed, changed, first_error) = acc;
          failed = (\<lambda>code.
            bnd (gets (\<lambda>s. (dget (sv_check_errors s) name, clean s (''change check failed for '' @ name @ '': '' @ code)))) (\<lambda>(old, msg).
              andthen (when_do (old \<noteq> Some code)
                (andthen (modify (\<lambda>s. s\<lparr>sv_check_errors := AList.update name code (sv_check_errors s)\<rparr>))
                  (event w ''warning'' ''check_failed'' msg (Some name))))
                (ret (Suc probed, changed, if first_error = None \<or> first_error = Some [] then Some code else first_error)))) in
      bnd (gets (\<lambda>s. if name \<in> set (sv_loaded s) then w_check w name else NoCheck)) (\<lambda>out.
      case out of
        NoCheck \<Rightarrow> ret acc
      | CheckError code \<Rightarrow> if code = [] then ret acc else failed code
      | CheckCrash typ \<Rightarrow> failed ''check_internal_error''
      | CheckToken None \<Rightarrow> ret acc
      | CheckToken (Some token) \<Rightarrow>
          andthen (modify (\<lambda>s. s\<lparr>sv_check_errors := AList.delete name (sv_check_errors s)\<rparr>))
           (bnd (gets (\<lambda>s. (dget (sv_tokens s) name, dget (sv_announced s) name))) (\<lambda>(stored, announced).
             case stored of
               None \<Rightarrow> andthen (modify (\<lambda>s. s\<lparr>sv_tokens := AList.update name token (sv_tokens s)\<rparr>))
                        (ret (Suc probed, changed, first_error))
             | Some t \<Rightarrow>
                 if t = [] then andthen (modify (\<lambda>s. s\<lparr>sv_tokens := AList.update name token (sv_tokens s)\<rparr>))
                                (ret (Suc probed, changed, first_error))
                 else if token = t then ret (Suc probed, changed, first_error)
                 else andthen (when_do (announced \<noteq> Some token)
                     (andthen (modify (\<lambda>s. s\<lparr>sv_announced := AList.update name token (sv_announced s)\<rparr>))
                       (event w ''info'' ''source_changed'' (name @ '': source changed ('' @ short t @ '' -> '' @ short token @ '')'') (Some name))))
                   (ret (Suc probed, changed @ [name], first_error))))))"

definition set_check :: "string \<Rightarrow> pyval \<Rightarrow> store \<Rightarrow> store" where
  "set_check k v st = st\<lparr>st_check := AList.update k v (st_check st)\<rparr>"

definition probe :: "world \<Rightarrow> seconds \<Rightarrow> unit step" where
  "probe w now =
     bnd (gets (\<lambda>s. (truthy (vget (st_check (sv_store s)) ''enabled''), cf_providers (sv_cfg s)))) (\<lambda>(enabled, names).
     if \<not> enabled then ret ()
     else bnd (fold_prog (probe_one w) names (0, [], None)) (\<lambda>(probed, changed, first_error).
       andthen (on_store (set_check ''last_check_at'' (PStr (iso now))))
       (andthen (on_store (set_check ''error_code'' (opt_str first_error)))
       (andthen (on_store (set_check ''result'' (PStr
           (if probed = 0 then ''unsupported'' else if first_error \<noteq> None then ''error''
            else if changed \<noteq> [] then ''changed'' else ''unchanged''))))
        (\<lambda>s. if changed \<noteq> [] \<and> sv_fails s = 0
             then (let (started, s') = trigger_sync (w_now w) False s in
               if started then on_store (\<lambda>st. set_check ''triggered_syncs''
                   (PInt (as_int (vget (st_check st) ''triggered_syncs'') + 1)) st) s'
               else (Inr (), s'))
             else (Inr (), s))))))"

definition run_check :: "world \<Rightarrow> unit step" where
  "run_check w =
     andthen (modify (\<lambda>s. s\<lparr>sv_next_probe := Some (w_now w + of_int (cf_check_interval (sv_cfg s)))\<rparr>))
      (andthen (catch (probe w (w_now w)) (\<lambda>_. ret ())) (save_state w))"

text \<open>
  What \<open>_sleep\<close> does at one point in time: leave for the next cycle, run a change probe, or wait for
  at most the given number of seconds.
\<close>

datatype sleep_action = Leave | Probe | Wait seconds

definition next_probe_at :: "sup \<Rightarrow> seconds option" where
  "next_probe_at s = (if 0 < cf_check_interval (sv_cfg s) then sv_next_probe s else None)"

definition sleep_action :: "seconds \<Rightarrow> sup \<Rightarrow> sleep_action" where
  "sleep_action now s =
     (if sv_next_at s \<le> now then Leave
      else (case next_probe_at s of
          Some t \<Rightarrow>
            if t \<le> now then Probe
            else Wait (min (case sv_reload_retry s of
                None \<Rightarrow> min (sv_next_at s) t - now
              | Some r \<Rightarrow> min (min (sv_next_at s) t - now) (max (r - now) 1)) HEARTBEAT)
        | None \<Rightarrow>
            Wait (min (case sv_reload_retry s of
                None \<Rightarrow> sv_next_at s - now
              | Some r \<Rightarrow> min (sv_next_at s - now) (max (r - now) 1)) HEARTBEAT)))"

section \<open>The preview\<close>

record preview =
  pv_added :: "string list"
  pv_removed :: "string list"
  pv_changed :: "string list"
  pv_errors :: "(string option \<times> string option \<times> string) list"
  pv_synthetic :: "string list option"

definition no_preview :: preview where
  "no_preview = \<lparr>pv_added = [], pv_removed = [], pv_changed = [], pv_errors = [], pv_synthetic = None\<rparr>"

text \<open>\<open>acquired\<close>: the cycle lock was free within the waiting time.\<close>

definition preview_of :: "world \<Rightarrow> string dict \<Rightarrow> string dict \<Rightarrow> preview step" where
  "preview_of w secrets synth =
     bnd (known_secrets w) (\<lambda>current.
       let (added, removed, changed) = diff (case current of None \<Rightarrow> [] | Some d \<Rightarrow> d) (update_all synth secrets) in
       gets (\<lambda>s. no_preview\<lparr>pv_added := added, pv_removed := removed, pv_changed := changed,
         pv_synthetic := (if cf_synthetic_keys (sv_cfg s) \<noteq> [] then Some (sort (keys synth)) else None)\<rparr>))"

definition preview_merged :: "world \<Rightarrow> merged \<Rightarrow> preview step" where
  "preview_merged w m =
     catch (bnd (synthetic_values w (mg_secrets m)) (\<lambda>synth. lift_exn (\<lambda>_. SyntheticFailure [] [] []) (preview_of w (mg_secrets m) synth)))
       (\<lambda>f. ret (no_preview\<lparr>pv_errors := [(None, Some (sf_code f), sf_message f)]\<rparr>))"

definition preview_result :: "world \<Rightarrow> bool \<Rightarrow> preview step" where
  "preview_result w acquired =
     (if \<not> acquired then ret (no_preview\<lparr>pv_errors := [(None, Some ''busy'', ''a sync is running'')]\<rparr>)
      else bnd (gets (\<lambda>s. cf_providers (sv_cfg s))) (\<lambda>names.
        bnd (fetch_all w names) (\<lambda>fetches.
          let errors = map (\<lambda>f. (Some (f_name f), f_code f, f_message f)) (filter (\<lambda>f. f_snapshot f = None) fetches);
              contributions = concat (map (\<lambda>f. case f_snapshot f of None \<Rightarrow> [] | Some sn \<Rightarrow> [(f_name f, sn)]) fetches) in
          if errors \<noteq> [] then ret (no_preview\<lparr>pv_errors := errors\<rparr>)
          else bnd (gets (\<lambda>s. (merge contributions (cf_collision_policy (sv_cfg s)), s))) (\<lambda>(r, s). case r of
              Inl e \<Rightarrow> ret (no_preview\<lparr>pv_errors := [(None, Some (me_code e), clean s (me_message e))]\<rparr>)
            | Inr m \<Rightarrow> preview_merged w m))))"

end
