(* ===== verification/SS_Files.thy ===== *)
theory SS_Files
  imports SS_Writer_Proofs
begin

text \<open>
  Containment of the provider files: \<open>write_files\<close> changes nothing outside the files directory and the
  directory of its manifest, whatever paths the providers deliver, whatever links lie in the way and
  whichever calls fail.
\<close>

section \<open>Assertions over a whole run\<close>

definition below :: "path \<Rightarrow> path \<Rightarrow> bool" where
  "below D q \<longleftrightarrow> length D < length q \<and> take (length D) q = D"

lemma child_ofD: "child_of d q \<Longrightarrow> \<exists>x. q = d @ [x]"
  unfolding child_of_def by (metis append_butlast_last_id)

lemma below_child: "D = d \<or> below D d \<Longrightarrow> child_of d q \<Longrightarrow> below D q"
  by (auto simp: below_def dest!: child_ofD)

lemma below_append [simp]: "below D (D @ p) \<longleftrightarrow> p \<noteq> []"
  by (simp add: below_def)

lemma below_take: "below D (take n q) \<Longrightarrow> below D q"
  by (auto simp: below_def min_def split: if_splits)

lemma not_below_take: "\<not> below D (take n D)"
  by (simp add: below_def)

lemma below_parent: "below D q \<Longrightarrow> butlast q = D \<or> below D (butlast q)"
  by (auto simp: below_def butlast_conv_take min_def)

definition sst :: "fs list \<Rightarrow> (fs \<Rightarrow> bool) \<Rightarrow> (fs \<Rightarrow> bool) \<Rightarrow> os \<Rightarrow> bool" where
  "sst T J R s \<longleftrightarrow> since T J s \<and> R (fsys s)"

lemma sst_mono: "sst T J R s \<Longrightarrow> (\<And>f. J f \<Longrightarrow> R f \<Longrightarrow> R' f) \<Longrightarrow> sst T J R' s"
  by (auto simp: sst_def dest: since_now)

lemma sst_call:
  assumes "\<And>f r f'. J f \<Longrightarrow> R f \<Longrightarrow> act f = Inr (r, f') \<Longrightarrow> J f' \<and> Q r f'"
  shows "valid (sst T J R) (sys act) (\<lambda>r. sst T J (Q r)) (\<lambda>_. sst T J R)"
proof (rule valid_sys)
  fix s x f assume s: "sst T J R s" "act (fsys s) = Inr (x, f)"
  then have "J f \<and> Q x f" by (intro assms) (auto simp: sst_def dest: since_now)
  with s show "sst T J (Q x) (s\<lparr>faults := tl (faults s), fsys := f, trace := f # trace s\<rparr>)"
    by (auto simp: sst_def intro!: since_step)
qed (auto simp: sst_def)

lemma sst_read:
  assumes "\<And>f x f'. act f = Inr (x, f') \<Longrightarrow> f' = f"
  shows "keeps (sst T J R) (sys act)"
  by (rule sst_call) (auto dest: assms)

lemma sst_keeps_reads: "keeps (sst T J R) (os_lstat p)" "keeps (sst T J R) (os_stat p)"
  "keeps (sst T J R) (os_read p)" "keeps (sst T J R) os_fsync"
  unfolding os_lstat_def os_stat_def os_read_def os_fsync_def
  by (rule sst_read; auto simp: lstat_act_def read_act_def split: option.splits node.splits
      dest!: at_path_read [rotated])+

text \<open>What the paths outside the two directories look like.\<close>

definition confined :: "path \<Rightarrow> path \<Rightarrow> fs \<Rightarrow> fs \<Rightarrow> bool" where
  "confined D M f0 f \<longleftrightarrow> (\<forall>q. \<not> below D q \<and> \<not> child_of M q \<longrightarrow> node_at f q = node_at f0 q)"

lemma confined_refl: "confined D M f f"
  by (simp add: confined_def)

lemma confined_child:
  "confined D M f0 f \<Longrightarrow> D = d \<or> below D d \<or> M = d \<Longrightarrow> (\<And>q. \<not> child_of d q \<Longrightarrow> node_at f' q = node_at f q) \<Longrightarrow>
   confined D M f0 f'"
  unfolding confined_def using below_child by metis

lemma plain_dir_same:
  "plain_dir f d \<Longrightarrow> (\<And>n. n \<le> length d \<Longrightarrow> node_at f' (take n d) = node_at f (take n d)) \<Longrightarrow> plain_dir f' d"
  by (simp add: plain_dir_def is_dir_def)

definition apart :: "path \<Rightarrow> path \<Rightarrow> bool" where
  "apart D M \<longleftrightarrow> \<not> below D M \<and> \<not> below M D"

lemma child_below: "child_of M q \<Longrightarrow> below M q"
  by (rule below_child) auto

lemma confined_prefix:
  assumes "confined D M f0 f" "apart D M" "q = take n D \<or> q = take n M"
  shows "node_at f q = node_at f0 q"
proof -
  have "\<not> below D q" using assms(2,3) below_take [of D n M] not_below_take [of D n] by (auto simp: apart_def)
  moreover have "\<not> child_of M q"
    using assms(2,3) child_below [of M q] below_take [of M n D] not_below_take [of M n] by (auto simp: apart_def)
  ultimately show ?thesis using assms(1) by (simp add: confined_def)
qed

lemma confined_plain:
  assumes "confined D M f0 f" "apart D M" "plain_dir f0 D" "plain_dir f0 M"
  shows "plain_dir f D \<and> plain_dir f M"
  using plain_dir_same [OF assms(3), of f] plain_dir_same [OF assms(4), of f] confined_prefix [OF assms(1,2)] by blast

section \<open>The walk to a target\<close>

text \<open>The two directories, fixed for the run: they are real directories and neither lies in the other.\<close>

abbreviation dirs_ok :: "path \<Rightarrow> path \<Rightarrow> fs \<Rightarrow> bool" where
  "dirs_ok D M f0 \<equiv> apart D M \<and> plain_dir f0 D \<and> plain_dir f0 M"

definition at_dir :: "path \<Rightarrow> path \<Rightarrow> fs \<Rightarrow> bool" where
  "at_dir D d f \<longleftrightarrow> plain_dir f d \<and> (d = D \<or> below D d)"

definition target_ok :: "path \<Rightarrow> bool \<Rightarrow> path option \<Rightarrow> fs \<Rightarrow> bool" where
  "target_ok D create t f \<longleftrightarrow> (t = None \<longrightarrow> \<not> create) \<and> (\<forall>p. t = Some p \<longrightarrow> (\<exists>d x. p = d @ [x] \<and> at_dir D d f \<and> plain_name x
     \<and> (\<forall>l. node_at f p \<noteq> Some (NLink l))))"

lemma at_dir_child: "at_dir D d f \<Longrightarrow> node_at f (d @ [x]) = Some NDir \<Longrightarrow> plain_name x \<Longrightarrow> at_dir D (d @ [x]) f"
  unfolding at_dir_def plain_dir_def is_dir_def
  by (auto simp: le_Suc_eq below_def)

lemma lstat_rule:
  assumes "plain_name x"
  shows "valid (sst T J (at_dir D d)) (catch (lift_exn OsError (bnd (os_lstat (d @ [x])) (\<lambda>n. ret (Some n))))
        (\<lambda>e. if e = OsError ENOENT then ret None else raise e))
     (\<lambda>n. sst T J (\<lambda>f. at_dir D d f \<and> (\<forall>m. n = Some m \<longrightarrow> node_at f (d @ [x]) = Some m)
        \<and> (n = None \<longrightarrow> (\<forall>l. node_at f (d @ [x]) \<noteq> Some (NLink l))))) (\<lambda>_. sst T J (\<lambda>_. True))"
proof -
  have ok: "valid (sst T J (at_dir D d)) (os_lstat (d @ [x]))
      (\<lambda>n. sst T J (\<lambda>f. at_dir D d f \<and> node_at f (d @ [x]) = Some n)) (\<lambda>_. sst T J (at_dir D d))"
    unfolding os_lstat_def
  proof (rule sst_call)
    fix f r f' assume f: "J f" "at_dir D d f" and a: "at_path False (d @ [x]) lstat_act f = Inr (r, f')"
    have "lstat_act (d @ [x]) f = Inr (r, f')"
      using a f(2) assms by (simp add: at_path_child at_dir_def)
    then show "J f' \<and> at_dir D d f' \<and> node_at f' (d @ [x]) = Some r"
      using f by (auto simp: lstat_act_def split: option.splits)
  qed
  have "valid (sst T J (at_dir D d)) (os_lstat (d @ [x]))
      (\<lambda>n. sst T J (\<lambda>f. at_dir D d f \<and> node_at f (d @ [x]) = Some n))
      (\<lambda>e. sst T J (\<lambda>f. at_dir D d f \<and> (e = ENOENT \<longrightarrow> node_at f (d @ [x]) = None)))"
  proof (rule validI)
    fix s e s' assume s: "sst T J (at_dir D d) s" "os_lstat (d @ [x]) s = (Inl e, s')"
    have pl: "plain_dir (fsys s) d" using s(1) by (simp add: sst_def at_dir_def)
    have "s' = s\<lparr>faults := tl (faults s)\<rparr>" "e = ENOENT \<longrightarrow> node_at (fsys s) (d @ [x]) = None"
      using s(2) by (auto simp: os_lstat_def sys_def Let_def at_path_child [OF pl] assms lstat_act_def
          split: sum.splits prod.splits if_splits option.splits)
    then show "sst T J (\<lambda>f. at_dir D d f \<and> (e = ENOENT \<longrightarrow> node_at f (d @ [x]) = None)) s'"
      using s(1) by (simp add: sst_def)
  qed (use valid_Inr [OF ok] in blast)
  then have l: "valid (sst T J (at_dir D d)) (lift_exn OsError (bnd (os_lstat (d @ [x])) (\<lambda>n. ret (Some n))))
      (\<lambda>n. sst T J (\<lambda>f. at_dir D d f \<and> n \<noteq> None \<and> node_at f (d @ [x]) = n))
      (\<lambda>e. sst T J (\<lambda>f. at_dir D d f \<and> (e = OsError ENOENT \<longrightarrow> node_at f (d @ [x]) = None)))"
    by (intro valid_lift_exn valid_bnd [where R = "\<lambda>n. sst T J (\<lambda>f. at_dir D d f \<and> node_at f (d @ [x]) = Some n)"])
      (erule valid_weaken, auto intro!: valid_ret elim!: sst_mono)
  show ?thesis
    by (rule valid_catch [where E' = "\<lambda>e. sst T J (\<lambda>f. at_dir D d f \<and> (e = OsError ENOENT \<longrightarrow> node_at f (d @ [x]) = None))"],
        rule valid_weaken [OF l]) (auto intro!: valid_if valid_ret valid_raise elim!: sst_mono)
qed

lemma mkdir_rule:
  assumes "plain_name x" and J: "\<And>f f'. J f \<Longrightarrow> at_dir D d f \<Longrightarrow> (\<And>q. \<not> child_of d q \<Longrightarrow> node_at f' q = node_at f q) \<Longrightarrow> J f'"
  shows "valid (sst T J (at_dir D d)) (os_mkdir (d @ [x])) (\<lambda>_. sst T J (at_dir D (d @ [x]))) (\<lambda>_. sst T J (at_dir D d))"
  unfolding os_mkdir_def
proof (rule sst_call)
  fix f r f' assume f: "J f" "at_dir D d f" and a: "at_path False (d @ [x]) mkdir_act f = Inr (r, f')"
  have "mkdir_act (d @ [x]) f = Inr (r, f')" using a f(2) assms by (simp add: at_path_child at_dir_def)
  then have f': "f' = AList.update (d @ [x]) NDir f" by (auto simp: mkdir_act_def split: if_splits)
  have "J f'" by (rule J [OF f]) (auto simp: f')
  moreover have "at_dir D d f'" using f(2) by (simp add: at_dir_def f' plain_dir_child_update)
  then have "at_dir D (d @ [x]) f'" by (rule at_dir_child) (simp_all add: f' assms)
  ultimately show "J f' \<and> at_dir D (d @ [x]) f'" by blast
qed

text \<open>Changes below a directory that lies within \<open>D\<close> keep the invariant of the run.\<close>

definition local_to :: "path \<Rightarrow> (fs \<Rightarrow> bool) \<Rightarrow> bool" where
  "local_to D J \<longleftrightarrow> (\<forall>d f f'. J f \<longrightarrow> D = d \<or> below D d \<longrightarrow> (\<forall>q. \<not> child_of d q \<longrightarrow> node_at f' q = node_at f q) \<longrightarrow> J f')"

lemma local_toD:
  assumes "local_to D J" "J f" "at_dir D d f" "\<And>q. \<not> child_of d q \<Longrightarrow> node_at f' q = node_at f q"
  shows "J f'"
  using assms(1) [unfolded local_to_def, rule_format, OF assms(2)] assms(3,4) by (auto simp: at_dir_def)

lemma walk_rule:
  assumes J: "local_to D J"
  shows "parts \<noteq> [] \<Longrightarrow> list_all plain_name parts \<Longrightarrow>
    valid (sst T J (at_dir D cur)) (target_walk create cur parts) (\<lambda>t. sst T J (target_ok D create t)) (\<lambda>_. sst T J (\<lambda>_. True))"
proof (induction parts arbitrary: cur)
  case (Cons part parts)
  let ?E = "\<lambda>_. sst T J (\<lambda>_. True)"
  have x: "plain_name part" using Cons.prems by simp
  have IH: "valid (sst T J (at_dir D (cur @ [part]))) (target_walk create (cur @ [part]) parts)
      (\<lambda>t. sst T J (target_ok D create t)) ?E" if "parts \<noteq> []"
    using Cons that by simp
  have mk: "valid (sst T J (at_dir D cur)) (lift_exn OsError (os_mkdir (cur @ [part])))
      (\<lambda>_. sst T J (at_dir D (cur @ [part]))) ?E"
    by (rule valid_lift_exn, rule valid_weaken [OF mkdir_rule [OF x]], rule local_toD [OF J], assumption+)
      (auto elim!: sst_mono)
  show ?case unfolding target_walk.simps Let_def
  proof (rule valid_bnd [OF lstat_rule [OF x]])
    fix mode
    let ?R = "sst T J (\<lambda>f. at_dir D cur f \<and> (\<forall>m. mode = Some m \<longrightarrow> node_at f (cur @ [part]) = Some m)
        \<and> (mode = None \<longrightarrow> (\<forall>l. node_at f (cur @ [part]) \<noteq> Some (NLink l))))"
    have here: "?R s \<Longrightarrow> sst T J (at_dir D cur) s" for s by (erule sst_mono) blast
    show "valid ?R (case mode of
           None \<Rightarrow>
             (if parts = [] then ret (Some (cur @ [part]))
              else if \<not> create then ret None
              else andthen (lift_exn OsError (os_mkdir (cur @ [part]))) (target_walk create (cur @ [part]) parts))
         | Some n \<Rightarrow>
             (case n of
                NLink _ \<Rightarrow> raise unsafe_path
              | NFile _ _ \<Rightarrow> if parts = [] then target_walk create (cur @ [part]) parts else raise unsafe_path
              | NDir \<Rightarrow> if parts = [] then raise unsafe_path else target_walk create (cur @ [part]) parts))
      (\<lambda>t. sst T J (target_ok D create t)) ?E"
    proof (cases mode)
      case None
      have "valid ?R (andthen (lift_exn OsError (os_mkdir (cur @ [part]))) (target_walk create (cur @ [part]) parts))
          (\<lambda>t. sst T J (target_ok D create t)) ?E" if "parts \<noteq> []"
        by (rule valid_weaken [OF valid_andthen [OF mk IH [OF that]]]) (auto dest: here)
      then show ?thesis using None x
        by (auto intro!: valid_if valid_ret elim!: sst_mono simp: target_ok_def)
    next
      case (Some n)
      show ?thesis
      proof (cases n)
        case NDir
        have "valid ?R (target_walk create (cur @ [part]) parts) (\<lambda>t. sst T J (target_ok D create t)) ?E" if "parts \<noteq> []"
          by (rule valid_weaken [OF IH [OF that]])
            (use Some NDir x in \<open>auto elim!: sst_mono intro: at_dir_child\<close>)
        then show ?thesis using Some NDir by (auto intro!: valid_raise elim!: sst_mono)
      qed (use Some x in \<open>auto intro!: valid_raise valid_ret elim!: sst_mono simp: target_ok_def\<close>)
    qed
  qed
qed simp

section \<open>The operations on a target\<close>

text \<open>An operation that stays in one directory, in terms of the whole run.\<close>

lemma via_dirst:
  assumes J: "local_to D J"
    and m: "\<And>B. valid (dirst B d (\<lambda>_. True) R) m (\<lambda>_. dirst B d (\<lambda>_. True) (\<lambda>_. True)) (\<lambda>_. dirst B d (\<lambda>_. True) (\<lambda>_. True))"
  shows "valid (sst T J (\<lambda>f. at_dir D d f \<and> R (view d f))) m (\<lambda>_. sst T J (at_dir D d)) (\<lambda>_. sst T J (at_dir D d))"
proof -
  have *: "sst T J (at_dir D d) s'" if s: "sst T J (\<lambda>f. at_dir D d f \<and> R (view d f)) s" and s': "m s = (r, s')" for s r s'
  proof -
    have at: "at_dir D d (fsys s)" and R: "R (view d (fsys s))" and J0: "since T J s" using s by (auto simp: sst_def)
    have start: "dirst (base_of s) d (\<lambda>_. True) R s"
      by (rule start_dirst) (use at R in \<open>auto simp: at_dir_def\<close>)
    have "dirst (base_of s) d (\<lambda>_. True) (\<lambda>_. True) s'"
      using valid_Inl [OF m start] valid_Inr [OF m start] s' by (cases r) auto
    from dirst_since [OF this]
    have new: "since (trace s) (\<lambda>f. plain_dir f d \<and> outside (base_of s) d f) s'"
      unfolding base_of_def snd_conv by (rule since_mono) simp
    have "J f" if "plain_dir f d \<and> outside (base_of s) d f" for f
      by (rule local_toD [OF J since_now [OF J0] at]) (use that in \<open>simp add: outside_def base_of_def\<close>)
    then have "since T J s'" by (rule since_trans [OF J0 new])
    then show ?thesis using since_now [OF new] at by (simp add: sst_def at_dir_def)
  qed
  show ?thesis by (rule validI) (erule (1) *)+
qed

lemma any_dir:
  assumes "\<And>B. keeps (dirst B d (\<lambda>_. True) (\<lambda>_. True)) m" "local_to D J"
  shows "keeps (sst T J (at_dir D d)) m"
  using via_dirst [OF assms(2), where R = "\<lambda>_. True" and m = m] assms(1) by simp

lemma atomic_write_any: "plain_name x \<Longrightarrow> keeps (dirst B d (\<lambda>_. True) (\<lambda>_. True)) (atomic_write (d @ [x]) data)"
  by (rule valid_weaken [OF atomic_write_rule [where G = "\<lambda>_. True" and R = "\<lambda>_. True" and Q = "\<lambda>_. True"]])
    (auto simp: tmp_free_def)

lemma unlink_any: "plain_name x \<Longrightarrow> keeps (dirst B d (\<lambda>_. True) (\<lambda>_. True)) (os_unlink ok (d @ [x]))"
  by (rule dir_unlink) auto

lemma chmod_any:
  "plain_name x \<Longrightarrow> valid (dirst B d (\<lambda>_. True) (\<lambda>v. \<forall>l. v x \<noteq> Some (NLink l))) (os_chmod (d @ [x]) m)
     (\<lambda>_. dirst B d (\<lambda>_. True) (\<lambda>_. True)) (\<lambda>_. dirst B d (\<lambda>_. True) (\<lambda>_. True))"
  by (rule valid_weaken [OF dir_chmod [where R = "\<lambda>v. \<forall>l. v x \<noteq> Some (NLink l)" and Q = "\<lambda>_. True"]])
    (auto elim!: dirst_mono)

lemma rmdir_any: "plain_name x \<Longrightarrow> keeps (dirst B d (\<lambda>_. True) (\<lambda>_. True)) (os_rmdir (d @ [x]))"
  unfolding os_rmdir_def
proof (rule dir_call)
  fix f r f' assume f: "plain_dir f d" and x: "plain_name x"
    and a: "at_path False (d @ [x]) rmdir_act f = Inr (r, f')"
  have "rmdir_act (d @ [x]) f = Inr (r, f')" using a by (simp add: at_path_child [OF f] x)
  then show "plain_dir f' d \<and> (\<forall>q. \<not> child_of d q \<longrightarrow> node_at f' q = node_at f q) \<and> True \<and> True"
    using f by (auto simp: rmdir_act_def plain_dir_child_delete split: option.splits node.splits if_splits)
qed

lemma prune_rule:
  assumes J: "local_to D J"
  shows "D = d \<or> below D d \<Longrightarrow> list_all plain_name d \<Longrightarrow>
    valid (sst T J (at_dir D d)) (prune_parents D (map (\<lambda>n. take n d) (rev [0..<Suc (length d)]))) (\<lambda>_. sst T J (\<lambda>_. True)) (\<lambda>_. sst T J (\<lambda>_. True))"
proof (induction d rule: rev_induct)
  case (snoc x d)
  show ?case
  proof (cases "d @ [x] = D")
    case False
    then have d: "D = d \<or> below D d" using snoc.prems(1) below_parent [of D "d @ [x]"] by auto
    have take: "map (\<lambda>n. take n (d @ [x])) (rev [0..<Suc (length d)]) = map (\<lambda>n. take n d) (rev [0..<Suc (length d)])"
      by (intro map_cong refl) auto
    have len: "rev [0..<Suc (length (d @ [x]))] = Suc (length d) # rev [0..<Suc (length d)]"
      "take (Suc (length d)) (d @ [x]) = d @ [x]" by simp_all
    have rm: "keeps (sst T J (at_dir D d)) (os_rmdir (d @ [x]))"
      by (rule any_dir [OF rmdir_any J]) (use snoc.prems(2) in simp)
    have IH: "valid (sst T J (at_dir D d)) (prune_parents D (map (\<lambda>n. take n d) (rev [0..<Suc (length d)])))
        (\<lambda>_. sst T J (\<lambda>_. True)) (\<lambda>_. sst T J (\<lambda>_. True))"
      using snoc.IH [OF d] snoc.prems(2) by simp
    have up: "sst T J (at_dir D (d @ [x])) s \<Longrightarrow> sst T J (at_dir D d) s" for s
      by (erule sst_mono) (use d in \<open>auto simp: at_dir_def intro: plain_dir_prefix\<close>)
    let ?qs = "map (\<lambda>n. take n d) (rev [0..<Suc (length d)])"
    have eq: "prune_parents D (map (\<lambda>n. take n (d @ [x])) (rev [0..<Suc (length (d @ [x]))]))
        = (\<lambda>s. case os_rmdir (d @ [x]) s of (Inl _, s') \<Rightarrow> (Inr (), s') | (Inr _, s') \<Rightarrow> prune_parents D ?qs s')"
      unfolding len(1) list.map take len(2) prune_parents.simps if_not_P [OF False] ..
    show ?thesis unfolding eq
    proof (rule validI)
      fix s e s'
      assume s: "sst T J (at_dir D (d @ [x])) s"
        and run: "(case os_rmdir (d @ [x]) s of (Inl _, s') \<Rightarrow> (Inr (), s') | (Inr _, s') \<Rightarrow> prune_parents D ?qs s') = (Inl e, s')"
      then obtain u t where t: "os_rmdir (d @ [x]) s = (Inr u, t)" "prune_parents D ?qs t = (Inl e, s')"
        by (auto split: prod.splits sum.splits)
      show "sst T J (\<lambda>_. True) s'" by (rule valid_Inl [OF IH keepsD [OF rm up [OF s] t(1)] t(2)])
    next
      fix s y s'
      assume s: "sst T J (at_dir D (d @ [x])) s"
        and run: "(case os_rmdir (d @ [x]) s of (Inl _, s') \<Rightarrow> (Inr (), s') | (Inr _, s') \<Rightarrow> prune_parents D ?qs s') = (Inr y, s')"
      obtain r t where t: "os_rmdir (d @ [x]) s = (r, t)" by (cases "os_rmdir (d @ [x]) s")
      note t' = keepsD [OF rm up [OF s] t]
      show "sst T J (\<lambda>_. True) s'"
      proof (cases r)
        case (Inr u)
        then show ?thesis using run t valid_Inr [OF IH t'] by simp
      qed (use run t t' in \<open>auto elim!: sst_mono\<close>)
    qed
  next
    case True
    then show ?thesis by (auto simp: valid_def elim!: sst_mono)
  qed
qed (auto simp: valid_def below_def elim!: sst_mono)

section \<open>The two loops\<close>

text \<open>The run: only paths below \<open>D\<close> or directly in \<open>M\<close> changed, in every state since \<open>T\<close>.\<close>

abbreviation run_ok :: "fs list \<Rightarrow> path \<Rightarrow> path \<Rightarrow> fs \<Rightarrow> os \<Rightarrow> bool" where
  "run_ok T D M f0 \<equiv> sst T (confined D M f0) (\<lambda>_. True)"

lemma confined_local: "local_to D (confined D M f0)"
  by (auto simp: local_to_def intro: confined_child)

lemma run_at:
  assumes "dirs_ok D M f0" "run_ok T D M f0 s"
  shows "sst T (confined D M f0) (at_dir D D) s"
  using assms(2) by (rule sst_mono) (use assms(1) confined_plain [of D M f0] in \<open>auto simp: at_dir_def\<close>)

lemma target_cases:
  assumes "\<And>d x. t = Some (d @ [x]) \<Longrightarrow> plain_name x \<Longrightarrow>
    valid (sst T J (\<lambda>f. at_dir D d f \<and> (\<forall>l. view d f x \<noteq> Some (NLink l)))) m Q E"
    and "create \<or> t \<noteq> None"
  shows "valid (sst T J (target_ok D create t)) m Q E"
proof (rule validI)
  have *: "\<exists>d x. t = Some (d @ [x]) \<and> plain_name x \<and> sst T J (\<lambda>f. at_dir D d f \<and> (\<forall>l. view d f x \<noteq> Some (NLink l))) s"
    if "sst T J (target_ok D create t) s" for s
    using that assms(2) by (cases t) (auto simp: sst_def target_ok_def view_def)
  show "E e s'" if "sst T J (target_ok D create t) s" "m s = (Inl e, s')" for s e s'
    using * [OF that(1)] that(2) valid_Inl [OF assms(1)] by blast
  show "Q y s'" if "sst T J (target_ok D create t) s" "m s = (Inr y, s')" for s y s'
    using * [OF that(1)] that(2) valid_Inr [OF assms(1)] by blast
qed

lemma safe_relpath_plain: "safe_relpath rel = Inr parts \<Longrightarrow> parts \<noteq> [] \<and> list_all plain_name parts"
proof -
  assume s: "safe_relpath rel = Inr parts"
  define ps where "ps = split_on CHR ''/'' rel"
  have "parts = ps \<and> \<not> list_ex (\<lambda>p. p = [] \<or> p = ''.'' \<or> p = ''..'') ps"
    using s unfolding safe_relpath_def ps_def [symmetric] Let_def by (auto split: if_splits)
  then show ?thesis unfolding ps_def by (auto simp: list_ex_iff list_all_iff plain_name_def)
qed

lemma lexists_keeps: "keeps (sst T J R) (lexists p)"
  unfolding lexists_def by (rule validI) (auto split: prod.splits sum.splits dest: keepsD [OF sst_keeps_reads(1)])

lemma install_at_rule:
  assumes x: "plain_name x"
  shows "valid (sst T (confined D M f0) (\<lambda>f. at_dir D d f \<and> (\<forall>l. view d f x \<noteq> Some (NLink l))))
    (install_at manifest rel data digest (d @ [x]) acc) (\<lambda>_. run_ok T D M f0) (\<lambda>_. run_ok T D M f0)"
proof -
  let ?J = "confined D M f0" and ?E = "run_ok T D M f0"
  let ?R = "sst T ?J (\<lambda>f. at_dir D d f \<and> (\<forall>l. view d f x \<noteq> Some (NLink l)))"
  obtain result new_manifest where acc: "acc = (result, new_manifest)" by (cases acc)
  note loc = confined_local [of D M f0]
  have weak: "?R s \<Longrightarrow> sst T ?J (at_dir D d) s" "?R s \<Longrightarrow> ?E s" "sst T ?J (at_dir D d) s \<Longrightarrow> ?E s" for s
    by (auto elim!: sst_mono)
  have aw: "valid ?R (lift_exn OsError (atomic_write (d @ [x]) data)) (\<lambda>_. ?E) (\<lambda>_. ?E)"
    by (rule valid_lift_exn, rule valid_weaken [OF any_dir [OF atomic_write_any [OF x] loc]]) (auto intro: weak)
  have cm: "valid ?R (lift_exn OsError (os_chmod (d @ [x]) 384)) (\<lambda>_. ?E) (\<lambda>_. ?E)"
    by (rule valid_lift_exn, rule valid_weaken [OF via_dirst [OF loc chmod_any [OF x]]]) (auto intro: weak)
  have rd: "valid ?R (lift_exn OsError (bnd (os_read (d @ [x])) (\<lambda>d. ret (Some d)))) (\<lambda>_. ?R) (\<lambda>_. ?E)"
    by (rule valid_lift_exn, rule valid_bnd [where R = "\<lambda>_. ?R"], rule valid_exn [OF sst_keeps_reads(3)])
      (auto intro: weak valid_ret)
  have ex: "valid ?R (lexists (d @ [x])) (\<lambda>_. ?R) (\<lambda>_. ?E)"
    by (rule valid_exn [OF lexists_keeps]) (rule weak)
  have cur: "valid ?R (read_current (d @ [x])) (\<lambda>_. ?R) (\<lambda>_. ?E)"
    unfolding read_current_def
    by (rule valid_catch [where E' = "\<lambda>_. ?E"], rule valid_bnd [OF ex])
      (auto intro!: rd valid_if valid_ret valid_raise split: write_exn.splits)
  show ?thesis unfolding install_at_def acc Let_def prod.case
    by (rule valid_bnd [OF cur]) (auto intro!: valid_if valid_ret valid_andthen [OF aw] valid_andthen [OF cm] intro: weak)
qed

lemma safe_rule: "valid P (of_sum (safe_relpath rel)) (\<lambda>parts s. P s \<and> parts \<noteq> [] \<and> list_all plain_name parts) (\<lambda>_. P)"
  by (rule valid_of_sum) (auto dest: safe_relpath_plain)

lemma walk_from_files_dir:
  assumes ok: "dirs_ok D M f0"
  shows "valid (\<lambda>s. run_ok T D M f0 s \<and> parts \<noteq> [] \<and> list_all plain_name parts) (target_walk create D parts)
    (\<lambda>t. sst T (confined D M f0) (target_ok D create t)) (\<lambda>_. run_ok T D M f0)"
proof (cases "parts \<noteq> [] \<and> list_all plain_name parts")
  case True
  then have "valid (sst T (confined D M f0) (at_dir D D)) (target_walk create D parts)
    (\<lambda>t. sst T (confined D M f0) (target_ok D create t)) (\<lambda>_. run_ok T D M f0)"
    using walk_rule [OF confined_local] by blast
  then show ?thesis by (rule valid_weaken) (use run_at [OF ok] in auto)
qed (auto simp: valid_def)

lemma install_confined:
  assumes ok: "dirs_ok D M f0"
  shows "keeps (run_ok T D M f0) (install_file sha D manifest files rel acc)"
  unfolding install_file_def Let_def
proof (rule valid_bnd [OF safe_rule], rule valid_bnd [OF walk_from_files_dir [OF ok]])
  fix t
  show "valid (sst T (confined D M f0) (target_ok D True t))
      (install_at manifest rel (the (dget files rel)) (sha (the (dget files rel))) (the t) acc) (\<lambda>_. run_ok T D M f0) (\<lambda>_. run_ok T D M f0)"
    by (rule target_cases) (auto intro: install_at_rule)
qed

lemma remove_at_rule:
  assumes x: "plain_name x"
  shows "valid (sst T (confined D M f0) (\<lambda>f. at_dir D d f \<and> (\<forall>l. view d f x \<noteq> Some (NLink l))))
    (remove_at D rel (d @ [x]) result) (\<lambda>_. run_ok T D M f0) (\<lambda>_. run_ok T D M f0)"
proof -
  let ?J = "confined D M f0" and ?E = "run_ok T D M f0"
  let ?A = "sst T ?J (at_dir D d)"
  note loc = confined_local [of D M f0]
  have par: "parents_of (d @ [x]) = map (\<lambda>n. take n d) (rev [0..<Suc (length d)])"
    unfolding parents_of_def by (simp only: length_append_singleton) (intro map_cong refl, auto)
  have prune: "valid ?A (prune_parents D (parents_of (d @ [x]))) (\<lambda>_. ?E) (\<lambda>_. ?E)"
  proof (cases "(D = d \<or> below D d) \<and> list_all plain_name d")
    case True
    then show ?thesis unfolding par using prune_rule [OF loc] by blast
  qed (auto simp: valid_def sst_def at_dir_def plain_dir_def)
  have weak: "?A s \<Longrightarrow> ?E s" for s by (erule sst_mono) simp
  have un: "valid ?A (lift_exn OsError (os_unlink False (d @ [x]))) (\<lambda>_. ?A) (\<lambda>_. ?E)"
    by (rule valid_lift_exn, rule valid_exn [OF any_dir [OF unlink_any [OF x] loc]]) (rule weak)
  have "valid ?A (lexists (d @ [x])) (\<lambda>_. ?A) (\<lambda>_. ?E)"
    by (rule valid_exn [OF lexists_keeps]) (rule weak)
  then have "valid ?A (remove_at D rel (d @ [x]) result) (\<lambda>_. ?E) (\<lambda>_. ?E)"
    unfolding remove_at_def
    by (rule valid_bnd) (auto intro!: valid_if valid_ret valid_andthen [OF un] valid_andthen [OF prune] intro: weak)
  then show ?thesis by (rule valid_weaken) (auto elim!: sst_mono)
qed

lemma remove_confined:
  assumes ok: "dirs_ok D M f0"
  shows "keeps (run_ok T D M f0) (remove_file D rel result)"
proof -
  let ?T = "\<lambda>t. sst T (confined D M f0) (target_ok D False t)"
  have find: "valid (run_ok T D M f0) (bnd (of_sum (safe_relpath rel)) (\<lambda>parts. target_walk False D parts)) ?T (\<lambda>_. run_ok T D M f0)"
    by (rule valid_bnd [OF safe_rule walk_from_files_dir [OF ok]])
  have "valid (run_ok T D M f0) (catch (bnd (of_sum (safe_relpath rel)) (\<lambda>parts. target_walk False D parts))
      (\<lambda>e. if e = unsafe_path then ret None else raise e)) (\<lambda>t s. run_ok T D M f0 s \<and> (t \<noteq> None \<longrightarrow> ?T t s)) (\<lambda>_. run_ok T D M f0)"
    by (rule valid_catch [where E' = "\<lambda>_. run_ok T D M f0"], rule valid_weaken [OF find])
      (auto intro!: valid_if valid_ret valid_raise elim!: sst_mono)
  then show ?thesis unfolding remove_file_def
  proof (rule valid_bnd)
    fix t
    show "valid (\<lambda>s. run_ok T D M f0 s \<and> (t \<noteq> None \<longrightarrow> ?T t s))
        (case t of None \<Rightarrow> ret result | Some target \<Rightarrow> remove_at D rel target result) (\<lambda>_. run_ok T D M f0) (\<lambda>_. run_ok T D M f0)"
    proof (cases t)
      case (Some p)
      have "valid (?T t) (remove_at D rel (the t) result) (\<lambda>_. run_ok T D M f0) (\<lambda>_. run_ok T D M f0)"
        by (rule target_cases) (auto simp: Some intro: remove_at_rule)
      then show ?thesis unfolding Some option.sel option.case by (rule valid_weaken) auto
    qed (auto intro: valid_ret)
  qed
qed

section \<open>The whole run\<close>

lemma reads_run: "keeps (run_ok T D M f0) (load_manifest repr p)"
  unfolding load_manifest_def
  by (rule validI) (auto split: prod.splits sum.splits dest: keepsD [OF sst_keeps_reads(3)])

lemma in_dir_run:
  assumes "dirs_ok D M f0" "d = D \<or> d = M" "\<And>B. keeps (dirst B d (\<lambda>_. True) (\<lambda>_. True)) m"
  shows "keeps (run_ok T D M f0) m"
proof -
  have "run_ok T D M f0 s'" if s: "run_ok T D M f0 s" and s': "m s = (r, s')" for s r s'
  proof -
    have J: "confined D M f0 (fsys s)" using s by (auto simp: sst_def dest: since_now)
    have "plain_dir (fsys s) d" using confined_plain [OF J] assms(1,2) by blast
    then have start: "dirst (base_of s) d (\<lambda>_. True) (\<lambda>_. True) s" by (rule start_dirst) simp_all
    have "since (trace s) (\<lambda>f. plain_dir f d \<and> outside (base_of s) d f) s'"
      using dirst_since [OF keepsD [OF assms(3) start s']] unfolding base_of_def snd_conv by (rule since_mono) simp
    moreover have "confined D M f0 f" if "plain_dir f d \<and> outside (base_of s) d f" for f
      by (rule confined_child [OF J, where d = d]) (use assms(2) that in \<open>auto simp: outside_def base_of_def\<close>)
    ultimately show ?thesis using since_trans s by (auto simp: sst_def)
  qed
  then show ?thesis by (auto intro: validI)
qed

lemma keeps_os_to_write: "keeps I m \<Longrightarrow> keeps I (os_to_write m)"
  unfolding os_to_write_def by (rule valid_catch [where E' = "\<lambda>_. I"]) (auto intro: valid_raise split: write_exn.splits)

lemma write_files_keeps:
  assumes ok: "dirs_ok D M f0" and x: "plain_name x"
  shows "keeps (run_ok T D M f0) (write_files repr sha D (M @ [x]) files)"
proof -
  let ?I = "run_ok T D M f0"
  have mk: "keeps ?I (lift_exn OsError (mkdir_parents d))" if "d = D \<or> d = M" for d
    by (rule valid_lift_exn, rule in_dir_run [OF ok that dir_mkdir_parents])
  have aw: "keeps ?I (lift_exn OsError (atomic_write (M @ [x]) data))" for data
    by (rule valid_lift_exn, rule in_dir_run [OF ok _ atomic_write_any [OF x]]) simp
  have loop1: "keeps ?I (fold_prog (install_file sha D manifest files) names acc)" for manifest names acc
    by (rule valid_fold_prog) (rule install_confined [OF ok])
  have loop2: "keeps ?I (fold_prog (remove_file D) names acc)" for names acc
    by (rule valid_fold_prog) (rule remove_confined [OF ok])
  have loops: "keeps ?I (os_to_write (bnd (fold_prog (install_file sha D manifest files) names (no_files, []))
      (\<lambda>(result, new_manifest). bnd (fold_prog (remove_file D) old result) (\<lambda>result. ret (result, new_manifest)))))"
    for manifest names old
    by (rule keeps_os_to_write, rule valid_bnd [OF loop1])
      (auto intro!: valid_bnd [OF loop2] valid_ret split: prod.splits)
  show ?thesis unfolding write_files_def parent_def butlast_snoc
    by (rule valid_bnd [OF reads_run], rule valid_andthen [OF mk [of D]], simp, rule valid_bnd [OF loops])
      (auto intro!: valid_if valid_ret valid_andthen [OF keeps_os_to_write [OF valid_andthen [OF mk [of M] aw]]] split: prod.splits)
qed

text \<open>C5. Containment of provider files: whatever paths and contents the providers deliver, whatever links, files
  and manifest entries are found and whichever calls fail, \<open>write_files\<close> changes only what lies below the
  files directory and the entries of the directory of its manifest, in every state on the way.\<close>

theorem write_files_contained:
  assumes "plain_dir (fsys s) D" "plain_dir (fsys s) M" "apart D M" "plain_name x" "trace s = []"
    and "write_files repr sha D (M @ [x]) files s = (r, s')"
  shows "\<forall>f \<in> set (fsys s' # trace s'). \<forall>q. \<not> below D q \<and> \<not> child_of M q \<longrightarrow> node_at f q = node_at (fsys s) q"
proof -
  have "run_ok [] D M (fsys s) s"
    using assms(5) since_start [of "confined D M (fsys s)" s] by (simp add: sst_def confined_refl)
  from keepsD [OF write_files_keeps this assms(6)] assms(1-4)
  have "since [] (confined D M (fsys s)) s'" by (simp add: sst_def)
  then show ?thesis using since_all [of "confined D M (fsys s)" s'] by (simp add: confined_def)
qed

text \<open>A provider that tries to write through a link in the files directory.\<close>

definition link_os :: os where
  "link_os = \<lparr>fsys = [([''config''], NDir), ([''data''], NDir), ([''config'', ''files''], NDir), ([''etc''], NDir),
     ([''config'', ''files'', ''sub''], NLink [''etc'']), ([''etc'', ''passwd''], NFile ''root'' 420)],
     faults = [], rnd = [''aa'', ''bb''], trace = []\<rparr>"

theorem write_files_contained_witness:
  "let (r, s') = write_files (\<lambda>_. []) (\<lambda>_. ''d'') [''config'', ''files''] [''data'', ''files.manifest.json'']
       [(''sub/passwd'', ''x'')] link_os in
   \<forall>f \<in> set (fsys s' # trace s'). node_at f [''etc'', ''passwd''] = Some (NFile ''root'' 420)"
proof -
  obtain r s' where run: "write_files (\<lambda>_. []) (\<lambda>_. ''d'') [''config'', ''files''] ([''data''] @ [''files.manifest.json''])
       [(''sub/passwd'', ''x'')] link_os = (r, s')" by fastforce
  have p: "plain_dir (fsys link_os) [''config'', ''files'']" "plain_dir (fsys link_os) [''data'']"
    "apart [''config'', ''files''] [''data'']" "plain_name ''files.manifest.json''" "trace link_os = []"
    by (auto simp: plain_dir_def plain_name_def is_dir_def node_at_def le_Suc_eq link_os_def apart_def below_def)
  have "\<not> below [''config'', ''files''] [''etc'', ''passwd'']" "\<not> child_of [''data''] [''etc'', ''passwd'']"
    by (simp_all add: below_def child_of_def)
  moreover have "node_at (fsys link_os) [''etc'', ''passwd''] = Some (NFile ''root'' 420)"
    by (simp add: link_os_def node_at_def)
  ultimately show ?thesis using write_files_contained [OF p run] run by simp
qed

end
