(* ===== verification/SS_Quiet.thy ===== *)
theory SS_Quiet
  imports SS_Cycle SS_Files
begin

text \<open>
  The steps of the supervisor that only keep its books: they read files but write none, and leave the
  configuration, the status, the failure counter and the flags of the loop alone.  Every assertion that is
  closed under such changes is kept by all of them (locale \<open>quiet_assertion\<close>), which serves the crash-safety
  proof and the invariant of the loop alike.
\<close>

section \<open>Quiet changes\<close>

definition reads :: "os \<Rightarrow> os \<Rightarrow> bool" where
  "reads a b \<longleftrightarrow> fsys b = fsys a \<and> (\<exists>n. trace b = replicate n (fsys a) @ trace a)"

definition quiet_store :: "store \<Rightarrow> store \<Rightarrow> bool" where
  "quiet_store a b \<longleftrightarrow> st_path b = st_path a \<and> st_status b = st_status a \<and> st_last_success b = st_last_success a
     \<and> (events_ok a \<longrightarrow> events_ok b)"

definition quiet_change :: "sup \<Rightarrow> sup \<Rightarrow> bool" where
  "quiet_change s t \<longleftrightarrow> reads (sv_os s) (sv_os t) \<and> quiet_store (sv_store s) (sv_store t) \<and> sv_cfg t = sv_cfg s
     \<and> sv_fails t = sv_fails s \<and> sv_next_at t = sv_next_at s \<and> sv_running t = sv_running s \<and> sv_pending t = sv_pending s
     \<and> sv_last_attempt t = sv_last_attempt s"

lemma reads_refl [simp]: "reads a a"
  by (auto simp: reads_def intro: exI [where x = 0])

lemma quiet_store_refl [simp]: "quiet_store a a"
  by (simp add: quiet_store_def)

lemma reads_since: "reads a b \<Longrightarrow> since T J a \<Longrightarrow> since T J b"
  by (auto simp: reads_def since_def list_all_iff)

lemma os_read_reads: "os_read p s = (r, s') \<Longrightarrow> reads s s'"
proof -
  assume run: "os_read p s = (r, s')"
  have "sst (trace s) (\<lambda>f. f = fsys s) (\<lambda>_. True) s'"
    by (rule keepsD [OF sst_keeps_reads(3) _ run]) (simp add: sst_def since_def)
  then obtain new where new: "fsys s' = fsys s" "trace s' = new @ trace s" "list_all (\<lambda>f. f = fsys s) new"
    by (auto simp: sst_def since_def)
  then have "new = replicate (length new) (fsys s)" by (auto simp: list_all_iff intro: replicate_eqI)
  then show ?thesis using new unfolding reads_def by metis
qed

lemma read_secrets_reads: "read_secrets y r q s = (x, s') \<Longrightarrow> reads s s'"
  unfolding read_secrets_def by (auto dest: os_read_reads split: prod.splits sum.splits)

named_theorems quiet_rules

locale quiet_assertion =
  fixes I :: "sup \<Rightarrow> bool"
  assumes closed: "I s \<Longrightarrow> quiet_change s t \<Longrightarrow> I t"
begin

lemma quiet_result: "(\<And>s r t. m s = (r, t) \<Longrightarrow> quiet_change s t) \<Longrightarrow> keeps I m"
  by (rule validI) (auto intro: closed)

lemma quiet_modify: "(\<And>s. quiet_change s (f s)) \<Longrightarrow> keeps I (modify f)"
  by (rule quiet_result) auto

lemma quiet_on_store [quiet_rules]: "(\<And>st. quiet_store st (f st)) \<Longrightarrow> keeps I (on_store f)"
  unfolding on_store_def by (rule quiet_modify) (simp add: quiet_change_def)

lemma quiet_event [quiet_rules]: "keeps I (event w level code message provider)"
  unfolding event_def by (rule quiet_on_store) (simp add: quiet_store_def add_event_ok, simp add: add_event_def)

lemma quiet_fetch [quiet_rules]: "keeps I (fetch_provider w n)"
  unfolding fetch_provider_def
  by (rule quiet_result)
    (auto simp: quiet_change_def Let_def split: option.splits load_error.splits list.splits fetch_outcome.splits provider_error.splits)

lemma quiet_synthetic_values [quiet_rules]: "keeps I (synthetic_values w d)"
  unfolding synthetic_values_def
  by (rule quiet_result) (auto simp: quiet_change_def Let_def split: sum.splits if_splits)

lemma quiet_known [quiet_rules]: "keeps I (known_secrets w)"
  unfolding known_secrets_def
  by (rule quiet_result) (auto simp: quiet_change_def dest: read_secrets_reads split: prod.splits sum.splits)

lemma quiet_gets [quiet_rules]: "valid I (gets f) (\<lambda>_. I) E"
  by (simp add: valid_def)

lemma quiet_ret [quiet_rules]: "valid I (ret x) (\<lambda>_. I) E"
  by (simp add: valid_def)

lemma quiet_Pair [quiet_rules]: "valid I (Pair (Inr x)) (\<lambda>_. I) E"
  by (simp add: valid_def)

lemma quiet_when [quiet_rules]: "keeps I m \<Longrightarrow> keeps I (when_do b m)"
  by (cases b) (simp_all add: quiet_ret)

lemma quiet_bnd [quiet_rules]:
  "keeps I m \<Longrightarrow> (\<And>x. keeps I (f x)) \<Longrightarrow> keeps I (bnd m f)"
  by (rule valid_bnd)

lemma quiet_andthen [quiet_rules]:
  "keeps I m \<Longrightarrow> keeps I n \<Longrightarrow> keeps I (andthen m n)"
  by (rule valid_andthen)

lemma quiet_if [quiet_rules]:
  "keeps I m \<Longrightarrow> keeps I n \<Longrightarrow> keeps I (if b then m else n)"
  by simp

lemma quiet_emit [quiet_rules]: "keeps I (emit w level code message provider)"
  unfolding emit_def Let_def by (intro quiet_rules | simp split: prod.splits add: quiet_rules)+

lemma quiet_fold [quiet_rules]:
  "(\<And>x b. keeps I (f x b)) \<Longrightarrow> keeps I (fold_prog f xs b)"
  by (rule valid_fold_prog)

lemma quiet_fetch_all [quiet_rules]: "keeps I (fetch_all w ns)"
  by (induction ns) (auto intro!: quiet_rules)

lemma quiet_emit_problems [quiet_rules]: "keeps I (emit_problems w provider ps sigs)"
  by (induction ps arbitrary: sigs) (auto intro!: quiet_rules)

lemma quiet_emit_notices [quiet_rules]: "keeps I (emit_notices w n ns sigs)"
  by (induction ns arbitrary: sigs) (auto intro!: quiet_rules)

lemma quiet_emit_shadowed [quiet_rules]: "keeps I (emit_shadowed w ns sigs)"
  by (induction ns arbitrary: sigs) (auto intro!: quiet_rules)

lemma quiet_emit_skipped [quiet_rules]: "keeps I (emit_skipped w ns sigs)"
  by (induction ns arbitrary: sigs) (auto intro!: quiet_rules)

lemma quiet_notices [quiet_rules]: "keeps I (notices_of w f sigs)"
  unfolding notices_of_def by (intro quiet_rules)

lemma quiet_record [quiet_rules]: "keeps I (record_fetch w now f acc)"
  unfolding record_fetch_def Let_def
  by (auto split: prod.splits option.splits intro!: quiet_rules quiet_modify simp: quiet_change_def quiet_store_def events_ok_def)

lemma quiet_gather [quiet_rules]: "keeps I (gather w now)"
  unfolding gather_def by (auto split: prod.splits intro!: quiet_rules)

lemma quiet_synthetic_report [quiet_rules]: "keeps I (synthetic_report w b f)"
  unfolding synthetic_report_def by (rule quiet_modify) (simp add: quiet_change_def quiet_store_def events_ok_def)

lemma quiet_previous [quiet_rules]: "keeps I (previous_secrets w)"
  unfolding previous_secrets_def by (auto split: option.splits intro!: quiet_rules)

lemma quiet_guard_report [quiet_rules]: "keeps I (guard_report w d)"
  unfolding guard_report_def by (auto split: prod.splits intro!: quiet_rules quiet_modify simp: quiet_change_def quiet_store_def events_ok_def)

lemma quiet_snd: "keeps I m \<Longrightarrow> I s \<Longrightarrow> I (snd (m s))"
  by (rule keeps_snd)

lemma quiet_add_synthetic [quiet_rules]: "keeps I (add_synthetic w m)"
proof -
  have "I s'" if s: "I s" and run: "add_synthetic w m s = (r, s')" for s r s'
  proof (cases "cf_synthetic_keys (sv_cfg s) = []")
    case False
    obtain x t where t: "synthetic_values w (mg_secrets m) s = (x, t)" by (cases "synthetic_values w (mg_secrets m) s")
    have "I t" by (rule keepsD [OF quiet_synthetic_values s t])
    then show ?thesis using run t False quiet_snd [OF quiet_synthetic_report]
      by (auto simp: add_synthetic_def split: sum.splits)
  qed (use s run in \<open>simp add: add_synthetic_def\<close>)
  then show ?thesis by (auto intro: validI)
qed

lemma quiet_decide [quiet_rules]: "keeps I (decide w force g)"
proof -
  have "I s'" if s: "I s" and run: "decide w force g s = (r, s')" for s r s'
  proof (cases "merge_used (sv_cfg s) (sv_last_good s) g")
    case (Inr m)
    obtain x t where t: "add_synthetic w m s = (x, t)" by (cases "add_synthetic w m s")
    have "I t" by (rule keepsD [OF quiet_add_synthetic s t])
    then show ?thesis using run t Inr quiet_snd [OF quiet_guard_report]
      by (auto simp: decide_def split: sum.splits option.splits)
  qed (use s run in \<open>simp add: decide_def\<close>)
  then show ?thesis by (auto intro: validI)
qed

lemma quiet_reload [quiet_rules]: "keeps I (reload_supervisor w a r)"
  unfolding reload_supervisor_def by (auto split: option.splits intro!: quiet_rules quiet_modify simp: quiet_change_def quiet_store_def events_ok_def)

lemma quiet_after_write [quiet_rules]: "keeps I (after_write w m previous written)"
  unfolding after_write_def Let_def by (auto split: prod.splits intro!: quiet_rules quiet_modify simp: quiet_change_def quiet_store_def events_ok_def)

lemma quiet_lift [quiet_rules]: "keeps I m \<Longrightarrow> keeps I (lift_exn g m)"
  by (rule valid_lift_exn)

lemma quiet_record_usage [quiet_rules]: "keeps I (record_usage w now known)"
  unfolding record_usage_def Let_def by (intro quiet_rules quiet_modify) (auto simp: quiet_change_def quiet_store_def events_ok_def)

lemma quiet_refresh [quiet_rules]: "keeps I (refresh_usage w now)"
  unfolding refresh_usage_def by (auto split: option.splits intro!: quiet_rules quiet_modify simp: quiet_change_def quiet_store_def events_ok_def)

lemma quiet_preview [quiet_rules]: "keeps I (preview_result w acquired)"
proof -
  have of: "keeps I (preview_of w d e)" for d e
    unfolding preview_of_def Let_def by (auto split: prod.splits intro!: quiet_rules)
  have merged: "keeps I (preview_merged w m)" for m
    unfolding preview_merged_def
    by (rule valid_catch [where E' = "\<lambda>_. I"]) (auto intro!: quiet_rules of)
  show ?thesis
    unfolding preview_result_def Let_def by (auto split: prod.splits sum.splits intro!: quiet_rules merged)
qed

lemma quiet_prepare [quiet_rules]: "keeps I (prepare w now)"
  unfolding prepare_def by (intro quiet_rules) (simp add: quiet_store_def events_ok_def)

end

end
