(* ===== verification/SS_Cycle_Proofs.thy ===== *)
theory SS_Cycle_Proofs
  imports SS_Quiet
begin

text \<open>
  What one run of the supervisor does to the file system and to its own state: \<open>secrets.yaml\<close> only ever
  holds its previous content or the rendering of the set the cycle approved; the decision itself; the
  bookkeeping of failures, triggers and waiting times.
\<close>

section \<open>Steps that do not write\<close>

text \<open>The assertion of the crash-safety proof: the files satisfy \<open>J\<close> in every state since \<open>T\<close>.\<close>

definition calm :: "fs list \<Rightarrow> (fs \<Rightarrow> bool) \<Rightarrow> config \<Rightarrow> path \<Rightarrow> sup \<Rightarrow> bool" where
  "calm T J c p s \<longleftrightarrow> since T J (sv_os s) \<and> sv_cfg s = c \<and> st_path (sv_store s) = p"

interpretation calm: quiet_assertion "calm T J c p" for T J c p
  by unfold_locales (auto simp: calm_def quiet_change_def quiet_store_def intro: reads_since)

lemma calm_modify:
  "(\<And>s. sv_os (f s) = sv_os s \<and> sv_cfg (f s) = sv_cfg s \<and> st_path (sv_store (f s)) = st_path (sv_store s)) \<Longrightarrow>
   keeps (calm T J c p) (modify f)"
  by (auto simp: valid_def calm_def)

lemma calm_on_store: "(\<And>st. st_path (f st) = st_path st) \<Longrightarrow> keeps (calm T J c p) (on_store f)"
  unfolding on_store_def by (rule calm_modify) simp

lemma calm_outcome: "keeps (calm T J c p) (modify (set_outcome now status code sigs))"
  by (rule calm_modify) (simp add: set_outcome_def Let_def)

section \<open>The steps that write\<close>

lemma calm_in_os:
  assumes "\<And>s r s'. since T J s \<Longrightarrow> m s = (r, s') \<Longrightarrow> since T J' s'"
  shows "valid (calm T J c p) (in_os g m) (\<lambda>_. calm T J' c p) (\<lambda>_. calm T J' c p)"
  by (rule validI) (auto simp: in_os_def calm_def split: prod.splits sum.splits intro: assms)

lemma calm_mono: "calm T J c p s \<Longrightarrow> (\<And>f. J f \<Longrightarrow> J' f) \<Longrightarrow> calm T J' c p s"
  by (auto simp: calm_def intro: since_mono)

text \<open>
  The directories of a run: \<open>S\<close> holds \<open>secrets.yaml\<close>, \<open>D\<close> the provider files, \<open>M\<close> the manifest, \<open>Z\<close> the
  state file.  They are real directories; the provider files may lie inside \<open>S\<close>.
\<close>

definition layout :: "fs \<Rightarrow> path \<Rightarrow> path \<Rightarrow> path \<Rightarrow> path \<Rightarrow> bool" where
  "layout f S D M Z \<longleftrightarrow> plain_dir f S \<and> plain_dir f D \<and> plain_dir f M \<and> plain_dir f Z \<and> apart D M
     \<and> S \<noteq> M \<and> S \<noteq> Z \<and> S \<noteq> D \<and> \<not> below D S \<and> \<not> below M S \<and> \<not> below Z S
     \<and> \<not> below D Z \<and> \<not> below M Z \<and> \<not> below S Z"

text \<open>What every state of a run satisfies: \<open>target\<close> is the approved content, if any.\<close>

definition secrets_shown :: "fs \<Rightarrow> path \<Rightarrow> string \<Rightarrow> path \<Rightarrow> bytes option \<Rightarrow> fs \<Rightarrow> bool" where
  "secrets_shown f0 S x Z target f \<longleftrightarrow> plain_dir f S \<and> plain_dir f Z \<and>
     (content (node_at f (S @ [x])) = content (node_at f0 (S @ [x]))
      \<or> target \<noteq> None \<and> content (node_at f (S @ [x])) = target)"

lemma prefix_not_child: "\<not> below d S \<Longrightarrow> \<not> child_of d (take n S)"
  using child_below below_take by blast

lemma only_in_shown:
  assumes "plain_dir f Z" "secrets_shown f0 S x Z target (fsys s)" "only_in Z s f" "S \<noteq> Z" "\<not> below Z S"
  shows "secrets_shown f0 S x Z target f"
proof -
  have eq: "node_at f q = node_at (fsys s) q" if "\<not> child_of Z q" for q using assms(3) that by (simp add: only_in_def)
  have "plain_dir f S"
    using assms(2) prefix_not_child [OF assms(5)] by (auto simp: secrets_shown_def intro: plain_dir_same eq)
  moreover have "node_at f (S @ [x]) = node_at (fsys s) (S @ [x])" using assms(4) by (intro eq) simp
  ultimately show ?thesis using assms(1,2) by (simp add: secrets_shown_def)
qed

lemma confined_shown:
  assumes "layout f0 S D M Z" "confined D M f0 f"
  shows "secrets_shown f0 S x Z target f"
proof -
  have "\<not> below D q \<and> \<not> child_of M q" if "q = take n S \<or> q = take n Z \<or> q = S @ [x]" for n q
  proof -
    have "\<not> below D (S @ [x])" using assms(1) below_parent [of D "S @ [x]"] by (auto simp: layout_def)
    moreover have "\<not> child_of M (S @ [x])" using assms(1) by (auto simp: layout_def)
    ultimately show ?thesis
      using that assms(1) prefix_not_child [of M S n] prefix_not_child [of M Z n] below_take [of D n S] below_take [of D n Z]
      by (auto simp: layout_def)
  qed
  then have eq: "node_at f q = node_at f0 q" if "q = take n S \<or> q = take n Z \<or> q = S @ [x]" for n q
    using assms(2) that unfolding confined_def by blast
  have "plain_dir f S" "plain_dir f Z"
    using assms(1) by (auto simp: layout_def intro: plain_dir_same eq)
  then show ?thesis using eq [of "S @ [x]"] by (simp add: secrets_shown_def)
qed

lemma save_shown:
  assumes "layout f0 S D M Z" "plain_name z" "\<forall>t. z \<noteq> ''.state.'' @ t @ ''.tmp''" "st_path st = Z @ [z]"
    and "since T (secrets_shown f0 S x Z target) s" "save now st s = (r, s')"
  shows "since T (secrets_shown f0 S x Z target) s'"
proof -
  have now: "secrets_shown f0 S x Z target (fsys s)" by (rule since_now [OF assms(5)])
  then have Z: "plain_dir (fsys s) Z" by (simp add: secrets_shown_def)
  have "secrets_shown f0 S x Z target f" if "only_in Z s f" for f
    using that assms(1) by (intro only_in_shown [OF _ now that]) (auto simp: only_in_def layout_def)
  then show ?thesis
    by (intro since_trans [OF assms(5) save_since [OF Z assms(2-4,6)]]) blast
qed

lemma write_shown:
  assumes "layout f0 S D M Z" "plain_name x"
    and "since T (confined D M f0) s" "write_secrets y (S @ [x]) d s = (r, s')"
  shows "since T (secrets_shown f0 S x Z (Some (utf8_encode (render_secrets d)))) s'"
proof -
  let ?J = "secrets_shown f0 S x Z (Some (utf8_encode (render_secrets d)))"
  note C = since_now [OF assms(3)]
  have now: "?J (fsys s)" by (rule confined_shown [OF assms(1) C])
  then have S: "plain_dir (fsys s) S" by (simp add: secrets_shown_def)
  have old: "content (node_at (fsys s) (S @ [x])) = content (node_at f0 (S @ [x]))"
    using confined_shown [OF assms(1) C, of x None] by (simp add: secrets_shown_def)
  have "?J f" if f: "only_in S s f \<and> old_or_new x (view S (fsys s) x) (utf8_encode (render_secrets d)) (view S f)" for f
  proof -
    have "plain_dir f Z"
      by (rule plain_dir_same [of "fsys s"])
        (use f now prefix_not_child [of S Z] assms(1) in \<open>auto simp: only_in_def layout_def secrets_shown_def\<close>)
    then show ?thesis using f old by (auto simp: secrets_shown_def only_in_def old_or_new_def view_def)
  qed
  moreover have "since T ?J s" by (rule since_mono [OF assms(3)]) (rule confined_shown [OF assms(1)])
  ultimately show ?thesis using write_secrets_since [OF S assms(2,4)] by (blast intro: since_trans)
qed

text \<open>The places the configuration names.\<close>

definition places :: "config \<Rightarrow> path \<Rightarrow> string \<Rightarrow> path \<Rightarrow> path \<Rightarrow> bool" where
  "places c S x D M \<longleftrightarrow> to_path (cf_secrets_file c) = S @ [x] \<and> to_path (cf_files_dir c) = D \<and> to_path (cf_data_dir c) = M \<and> plain_name x"

definition state_place :: "path \<Rightarrow> path \<Rightarrow> string \<Rightarrow> bool" where
  "state_place p Z z \<longleftrightarrow> p = Z @ [z] \<and> plain_name z \<and> (\<forall>t. z \<noteq> ''.state.'' @ t @ ''.tmp'')"

definition new_content :: "merged option \<Rightarrow> bytes option" where
  "new_content m = map_option (\<lambda>m. utf8_encode (render_secrets (mg_secrets m))) m"

lemma files_step:
  assumes "layout f0 S D M Z"
  shows "valid (calm T (\<lambda>f. f = f0) c p)
    (in_os write_exn_to (write_files r sha D (M @ [''files.manifest.json'']) files))
    (\<lambda>_. calm T (confined D M f0) c p) (\<lambda>_. calm T (confined D M f0) c p)"
proof (rule calm_in_os)
  fix s x s' assume s: "since T (\<lambda>f. f = f0) s" and run: "write_files r sha D (M @ [''files.manifest.json'']) files s = (x, s')"
  have "run_ok T D M f0 s" using since_mono [OF s, of "confined D M f0"] by (simp add: sst_def confined_refl)
  from keepsD [OF write_files_keeps this run] assms
  show "since T (confined D M f0) s'" by (simp add: sst_def layout_def plain_name_def)
qed

lemma commit_shown:
  assumes lay: "layout f0 S D M Z" and c: "places c S x D M"
  shows "valid (calm T (\<lambda>f. f = f0) c p) (commit w m)
    (\<lambda>_. calm T (secrets_shown f0 S x Z (new_content (Some m))) c p)
    (\<lambda>_. calm T (secrets_shown f0 S x Z (new_content (Some m))) c p)"
proof -
  let ?J = "secrets_shown f0 S x Z (new_content (Some m))"
  have weak: "calm T (confined D M f0) c p s \<Longrightarrow> calm T ?J c p s" for s
    by (erule calm_mono) (rule confined_shown [OF lay])
  have cfg: "valid (calm T (\<lambda>f. f = f0) c p) (gets sv_cfg) (\<lambda>c' s. c' = c \<and> calm T (\<lambda>f. f = f0) c p s) (\<lambda>_. calm T ?J c p)"
    by (simp add: valid_def calm_def)
  have wr: "valid (calm T (confined D M f0) c p)
      (in_os write_exn_to (write_secrets (w_yload w) (S @ [x]) (mg_secrets m))) (\<lambda>_. calm T ?J c p) (\<lambda>_. calm T ?J c p)"
    by (rule calm_in_os) (use write_shown [OF lay, of x] c in \<open>auto simp: new_content_def places_def\<close>)
  have after: "keeps (calm T ?J c p) (lift_exn Crash (after_write w m previous written))" for previous written
    by (intro quiet_rules)
  have prev: "valid (calm T (confined D M f0) c p) (previous_secrets w) (\<lambda>_. calm T (confined D M f0) c p) (\<lambda>_. calm T ?J c p)"
    by (rule valid_exn [OF calm.quiet_previous]) (rule weak)
  have files: "valid (calm T (\<lambda>f. f = f0) c p)
      (in_os write_exn_to (write_files (w_repr w) (w_sha w) D (M @ [''files.manifest.json'']) (mg_files m)))
      (\<lambda>_. calm T (confined D M f0) c p) (\<lambda>_. calm T ?J c p)"
    by (rule valid_exn [OF files_step [OF lay]]) (rule weak)
  show ?thesis unfolding commit_def
  proof (rule valid_bnd [OF cfg])
    fix c'
    show "valid (\<lambda>s. c' = c \<and> calm T (\<lambda>f. f = f0) c p s)
      (bnd (in_os write_exn_to (write_files (w_repr w) (w_sha w) (to_path (cf_files_dir c'))
            (to_path (cf_data_dir c') @ [''files.manifest.json'']) (mg_files m))) (\<lambda>fres.
       bnd (previous_secrets w) (\<lambda>previous.
       bnd (in_os write_exn_to (write_secrets (w_yload w) (to_path (cf_secrets_file c')) (mg_secrets m))) (\<lambda>written.
       andthen (lift_exn Crash (after_write w m previous written)) (ret (written, fr_skipped fres))))))
      (\<lambda>_. calm T ?J c p) (\<lambda>_. calm T ?J c p)"
    proof (cases "c' = c")
      case True
      show ?thesis unfolding True using c
        by (auto simp: places_def intro!: valid_bnd [OF files] valid_bnd [OF prev] valid_bnd [OF wr] valid_andthen [OF after] quiet_rules)
    qed (simp add: valid_def)
  qed
qed

lemma finish_shown:
  assumes lay: "layout f0 S D M Z" and p: "state_place p Z z"
  shows "keeps (calm T (secrets_shown f0 S x Z target) c p) (finish w now status code sigs)"
proof -
  let ?J = "secrets_shown f0 S x Z target"
  have save: "keeps (calm T ?J c p) (save_state w)"
  proof -
    have "calm T ?J c p s'" if s: "calm T ?J c p s" and run: "save_state w s = (r, s')" for s r s'
    proof -
      obtain y o' where o': "save (w_now w) (sv_store s) (sv_os s) = (y, o')" by (cases "save (w_now w) (sv_store s) (sv_os s)")
      have "since T ?J o'"
        using save_shown [OF lay _ _ _ _ o'] s p by (auto simp: calm_def state_place_def)
      then show ?thesis using s run o' by (auto simp: save_state_def in_os_def bnd_app calm_def split: sum.splits)
    qed
    then show ?thesis by (auto intro: validI)
  qed
  show ?thesis unfolding finish_def by (intro quiet_rules save calm_modify calm_outcome) (simp_all add: set_outcome_def Let_def)
qed

section \<open>The whole cycle\<close>

text \<open>The set a cycle decides to write, None when it refuses.\<close>

definition approved :: "world \<Rightarrow> bool \<Rightarrow> sup \<Rightarrow> merged option" where
  "approved w force s =
     (let s1 = s\<lparr>sv_store := (sv_store s)\<lparr>st_last_attempt := Some (w_now w)\<rparr>\<rparr> in
      if config_errors s1 \<noteq> [] then None
      else (case prepare w (w_now w) s1 of
          (Inr g, s2) \<Rightarrow> (case decide w force g s2 of (Inr (m, _), _) \<Rightarrow> Some m | _ \<Rightarrow> None)
        | _ \<Rightarrow> None))"

lemma finish_fatal_rule:
  assumes "layout f0 S D M Z" "state_place p Z z"
  shows "keeps (calm T (secrets_shown f0 S x Z target) c p) (finish_fatal w now sigs e)"
  unfolding finish_fatal_def by (auto split: prod.splits intro!: quiet_rules finish_shown [OF assms])

lemma conclude_rule:
  assumes "layout f0 S D M Z" "state_place p Z z"
  shows "keeps (calm T (secrets_shown f0 S x Z target) c p) (conclude w now failed sigs m names written skipped)"
  unfolding conclude_def
  by (intro quiet_rules calm_modify finish_shown [OF assms]) (auto split: prod.splits intro!: quiet_rules finish_shown [OF assms])

lemma unchanged_shown: "layout f0 S D M Z \<Longrightarrow> f = f0 \<Longrightarrow> secrets_shown f0 S x Z target f"
  by (simp add: secrets_shown_def layout_def)

lemma attempt_shown:
  assumes lay: "layout f0 S D M Z" and c: "places c S x D M" and p: "state_place p Z z"
    and s: "calm T (\<lambda>f. f = f0) c p s" and run: "attempt w force now g s = (r, s')"
    and m: "m = (case decide w force g s of (Inr (m, _), _) \<Rightarrow> Some m | _ \<Rightarrow> None)"
  shows "calm T (secrets_shown f0 S x Z (new_content m)) c p s'"
proof -
  let ?J = "secrets_shown f0 S x Z (new_content m)"
  obtain d t where d: "decide w force g s = (d, t)" by (cases "decide w force g s")
  have t: "calm T (\<lambda>f. f = f0) c p t" by (rule keepsD [OF calm.quiet_decide s d])
  have tJ: "calm T ?J c p t" by (rule calm_mono [OF t]) (rule unchanged_shown [OF lay])
  note fatal = keepsD [OF finish_fatal_rule [OF lay p]]
  show ?thesis
  proof (cases d)
    case (Inl e)
    then show ?thesis using run d fatal [OF tJ] by (auto simp: attempt_def)
  next
    case (Inr mn)
    obtain m' names where mn: "mn = (m', names)" by (cases mn)
    have m': "m = Some m'" using m d Inr mn by simp
    obtain k u where k: "commit w m' t = (k, u)" by (cases "commit w m' t")
    note rule = commit_shown [OF lay c, of T p w m', folded m']
    have u: "calm T ?J c p u"
      using valid_Inl [OF rule t] valid_Inr [OF rule t] k by (cases k) auto
    show ?thesis
    proof (cases k)
      case (Inl e)
      then show ?thesis using run d \<open>d = Inr mn\<close> mn k u fatal [OF u] by (cases e) (auto simp: attempt_def)
    next
      case (Inr ws)
      then show ?thesis using run d \<open>d = Inr mn\<close> mn k keepsD [OF conclude_rule [OF lay p] u]
        by (cases ws) (auto simp: attempt_def)
    qed
  qed
qed

lemma cycle_shown:
  assumes lay: "layout f0 S D M Z" and c: "places c S x D M" and p: "state_place p Z z"
    and s: "calm T (\<lambda>f. f = f0) c p s" and run: "cycle w force s = (r, s')"
  shows "calm T (secrets_shown f0 S x Z (new_content (approved w force s))) c p s'"
proof -
  let ?J = "secrets_shown f0 S x Z (new_content (approved w force s))"
  let ?s1 = "s\<lparr>sv_store := (sv_store s)\<lparr>st_last_attempt := Some (w_now w)\<rparr>\<rparr>"
  have s1: "calm T (\<lambda>f. f = f0) c p ?s1" using s by (simp add: calm_def)
  have s1J: "calm T ?J c p ?s1" by (rule calm_mono [OF s1]) (rule unchanged_shown [OF lay])
  show ?thesis
  proof (cases "config_errors ?s1 = []")
    case False
    then have rr: "bnd (emit_problems w None (config_errors ?s1) [])
        (\<lambda>sigs. finish w (w_now w) ''error'' (Some (p_code (hd (config_errors ?s1)))) sigs) ?s1 = (r, s')"
      using run by (simp add: cycle_def andthen_def bnd_app on_store_def)
    have k: "keeps (calm T ?J c p) (bnd (emit_problems w None (config_errors ?s1) [])
        (\<lambda>sigs. finish w (w_now w) ''error'' (Some (p_code (hd (config_errors ?s1)))) sigs))"
      by (intro quiet_rules finish_shown [OF lay p])
    show ?thesis by (rule keepsD [OF k s1J rr])
  next
    case True
    then have run': "bnd (prepare w (w_now w)) (attempt w force (w_now w)) ?s1 = (r, s')"
      using run by (simp add: cycle_def andthen_def bnd_app on_store_def)
    obtain g s2 where g: "prepare w (w_now w) ?s1 = (g, s2)" by (cases "prepare w (w_now w) ?s1")
    have s2: "calm T (\<lambda>f. f = f0) c p s2" by (rule keepsD [OF calm.quiet_prepare s1 g])
    show ?thesis
    proof (cases g)
      case (Inl e)
      then show ?thesis using run' g calm_mono [OF s2] unchanged_shown [OF lay] by (simp add: bnd_app)
    next
      case (Inr g')
      have "approved w force s = (case decide w force g' s2 of (Inr (m, _), _) \<Rightarrow> Some m | _ \<Rightarrow> None)"
        using True g Inr by (simp add: approved_def Let_def)
      then show ?thesis using attempt_shown [OF lay c p s2] run' g Inr by (simp add: bnd_app)
    qed
  qed
qed

text \<open>The state a run starts its cycle in.\<close>

definition started :: "world \<Rightarrow> sup \<Rightarrow> sup" where
  "started w s = s\<lparr>sv_running := True, sv_pending := False, sv_last_attempt := w_now w\<rparr>"

lemma run_once_shown:
  assumes lay: "layout f0 S D M Z" and c: "places c S x D M" and p: "state_place p Z z"
    and s: "calm T (\<lambda>f. f = f0) c p s" and run: "run_once w force s = (r, s')"
  shows "calm T (secrets_shown f0 S x Z (new_content (approved w force (started w s)))) c p s'"
proof -
  let ?J = "secrets_shown f0 S x Z (new_content (approved w force (started w s)))"
  let ?h = "\<lambda>e :: string. bnd (gets (\<lambda>s. (case st_last_success (sv_store s) of Some t \<Rightarrow> t \<noteq> 0 | None \<Rightarrow> False)))
     (\<lambda>had. finish w (w_now w) (if had then ''degraded'' else ''error'') (Some ''internal_error'') [])"
  have s0: "calm T (\<lambda>f. f = f0) c p (started w s)" using s by (simp add: calm_def started_def)
  obtain q t where q: "cycle w force (started w s) = (q, t)" by (cases "cycle w force (started w s)")
  have t: "calm T ?J c p t" by (rule cycle_shown [OF lay c p s0 q])
  have h: "keeps (calm T ?J c p) (?h e)" for e by (intro quiet_rules finish_shown [OF lay p])
  obtain q' u where u: "catch (cycle w force) ?h (started w s) = (q', u)" by (cases "catch (cycle w force) ?h (started w s)")
  have "calm T ?J c p u" using u q t keepsD [OF h t] by (cases q) (auto simp: catch_app)
  then show ?thesis using run u
    by (auto simp: run_once_def andthen_def bnd_app finally_do_def started_def calm_def split: sum.splits)
qed

section \<open>What the cycle approves\<close>

lemma emit_store: "\<exists>st. emit w level code message provider s = (Inr (signature_of provider code message), s\<lparr>sv_store := st\<rparr>)"
  by (cases "signature_of provider code message \<in> set (sv_active s)")
    (auto simp: emit_def Let_def bnd_app andthen_def event_def on_store_def, metis sup.surjective sup.update_convs(3))

lemma emit_then:
  "\<exists>st. bnd (emit w level code message provider) k s = k (signature_of provider code message) (s\<lparr>sv_store := st\<rparr>)"
  using emit_store [of w level code message provider s] by (auto simp: bnd_app)

lemma emit_problems_store: "\<exists>st g. emit_problems w provider ps sigs s = (Inr g, s\<lparr>sv_store := st\<rparr>)"
proof (induction ps arbitrary: sigs s)
  case Nil
  then show ?case by (auto intro: exI [where x = "sv_store s"])
next
  case (Cons q ps)
  let ?g = "signature_of provider (p_code q) (p_message q)"
  obtain st where st: "emit w ''error'' (p_code q) (p_message q) provider s = (Inr ?g, s\<lparr>sv_store := st\<rparr>)"
    using emit_store by blast
  show ?case
    using Cons.IH [of "sigs @ [?g]" "s\<lparr>sv_store := st\<rparr>"] Cons.IH [of sigs s] st by (auto simp: bnd_app)
qed

lemma emit_notices_store: "\<exists>st g. emit_notices w n ns sigs s = (Inr g, s\<lparr>sv_store := st\<rparr>)"
proof (induction ns arbitrary: sigs s)
  case Nil
  then show ?case by (auto intro: exI [where x = "sv_store s"])
next
  case (Cons q ns)
  obtain l c m where q: "q = (l, c, m)" by (cases q) auto
  let ?g = "signature_of (Some n) c m"
  obtain st where st: "emit w l c m (Some n) s = (Inr ?g, s\<lparr>sv_store := st\<rparr>)" using emit_store by blast
  show ?case using Cons.IH [of "sigs @ [?g]" "s\<lparr>sv_store := st\<rparr>"] st by (auto simp: bnd_app q)
qed

text \<open>The snapshot a provider delivers in this cycle, None when any stage of the fetch fails.\<close>

definition fresh :: "world \<Rightarrow> sup \<Rightarrow> string \<Rightarrow> snapshot option" where
  "fresh w s n =
     (if (n \<in> set (sv_loaded s) \<or> w_load w n = None)
         \<and> (case w_validate w n of Inl _ \<Rightarrow> False | Inr ps \<Rightarrow> list_all (\<lambda>p. p_severity p \<noteq> ''error'') ps)
      then (case w_fetch w n of FetchOk sn \<Rightarrow> Some sn | _ \<Rightarrow> None) else None)"

lemma fresh_loaded: "sv_loaded s' = sv_loaded s \<or> (sv_loaded s' = sv_loaded s @ [m] \<and> w_load w m = None) \<Longrightarrow> fresh w s' n = fresh w s n"
  by (auto simp: fresh_def)

lemma filter_error_Nil: "filter (\<lambda>p. p_severity p = ''error'') ps = [] \<longleftrightarrow> list_all (\<lambda>p. p_severity p \<noteq> ''error'') ps"
  by (auto simp: filter_empty_conv list_all_iff)

lemma fetch_provider_fresh:
  "\<exists>f s'. fetch_provider w n s = (Inr f, s') \<and> f_name f = n \<and> f_snapshot f = fresh w s n
     \<and> sv_last_good s' = sv_last_good s \<and> sv_cfg s' = sv_cfg s \<and> sv_last_items s' = sv_last_items s
     \<and> (sv_loaded s' = sv_loaded s \<or> sv_loaded s' = sv_loaded s @ [n] \<and> w_load w n = None)"
proof (cases "n \<in> set (sv_loaded s) \<or> w_load w n = None")
  case False
  then show ?thesis by (auto simp: fetch_provider_def fresh_def failed_fetch_def split: load_error.splits option.splits)
next
  case True
  then have l: "(if n \<in> set (sv_loaded s) then None else w_load w n) = None" by auto
  define ps where "ps = (case w_validate w n of Inl typ \<Rightarrow> [error_problem ''validate_failed'' (''validate raised '' @ typ)] | Inr l \<Rightarrow> l)"
  have ok: "filter (\<lambda>p. p_severity p = ''error'') ps = [] \<longleftrightarrow> (case w_validate w n of Inl _ \<Rightarrow> False | Inr ps \<Rightarrow> list_all (\<lambda>p. p_severity p \<noteq> ''error'') ps)"
    by (auto simp: ps_def error_problem_def filter_error_Nil split: sum.splits)
  show ?thesis
  proof (cases "filter (\<lambda>p. p_severity p = ''error'') ps")
    case Nil
    then show ?thesis using True ok
      unfolding fetch_provider_def l option.case Let_def ps_def [symmetric]
      by (cases "w_fetch w n") (auto simp: fresh_def failed_fetch_def split: provider_error.splits)
  next
    case (Cons q qs)
    then show ?thesis using True ok
      unfolding fetch_provider_def l option.case Let_def ps_def [symmetric]
      by (auto simp: fresh_def failed_fetch_def)
  qed
qed

lemma fetch_all_fresh:
  "\<exists>fs s'. fetch_all w ns s = (Inr fs, s') \<and> map f_name fs = ns \<and> list_all (\<lambda>f. f_snapshot f = fresh w s (f_name f)) fs
     \<and> sv_last_good s' = sv_last_good s \<and> sv_cfg s' = sv_cfg s \<and> sv_last_items s' = sv_last_items s"
proof (induction ns arbitrary: s)
  case (Cons n ns)
  obtain f t where f: "fetch_provider w n s = (Inr f, t)" "f_name f = n" "f_snapshot f = fresh w s n"
    "sv_last_good t = sv_last_good s" "sv_cfg t = sv_cfg s" "sv_last_items t = sv_last_items s"
    "sv_loaded t = sv_loaded s \<or> sv_loaded t = sv_loaded s @ [n] \<and> w_load w n = None"
    using fetch_provider_fresh [of w n s] by (elim exE conjE) (rule that)
  have "fresh w t m = fresh w s m" for m using fresh_loaded f(7) by blast
  with Cons.IH [of t] show ?case using f(1-6) by (auto simp: bnd_app)
qed simp

text \<open>Recording the results, for fetches whose snapshots are given by \<open>F\<close>.\<close>

lemma record_one:
  "\<exists>s' sigs'. record_fetch w now f (used, failed, sigs) s =
     (Inr (used @ (case f_snapshot f of Some sn \<Rightarrow> [(f_name f, sn)]
             | None \<Rightarrow> (case dget (sv_last_good s) (f_name f) of
                 Some sn \<Rightarrow> if f_collision f then [] else [(f_name f, sn)] | None \<Rightarrow> [])),
           failed @ (if f_snapshot f = None then [f] else []), sigs'), s')
     \<and> sv_last_good s' = (case f_snapshot f of Some sn \<Rightarrow> AList.update (f_name f) sn (sv_last_good s) | None \<Rightarrow> sv_last_good s)
     \<and> sv_cfg s' = sv_cfg s \<and> sv_last_items s' = sv_last_items s"
proof (cases "f_snapshot f")
  case None
  define held where "held = dget (sv_last_good s) (f_name f)"
  define ps where "ps = (case f_problems f of None \<Rightarrow> [] | Some l \<Rightarrow> l)"
  define c m where "c = or_text (f_code f) ''provider_error''" and
    "m = ''provider '' @ f_name f @ '': '' @ code_text (f_code f)
       @ (if f_message f \<noteq> [] \<and> Some (f_message f) \<noteq> f_code f then '': '' @ f_message f else [])"
  define s1 where "s1 = s\<lparr>sv_pinfo := AList.update (f_name f) (failed_info (dget (sv_pinfo s) (f_name f)) (held \<noteq> None) f) (sv_pinfo s)\<rparr>"
  obtain st where st: "emit w ''error'' c m (Some (f_name f)) s1 = (Inr (signature_of (Some (f_name f)) c m), s1\<lparr>sv_store := st\<rparr>)"
    using emit_store by blast
  obtain st' g where g: "emit_problems w (Some (f_name f)) ps (sigs @ [signature_of (Some (f_name f)) c m]) (s1\<lparr>sv_store := st\<rparr>)
      = (Inr g, s1\<lparr>sv_store := st\<rparr>\<lparr>sv_store := st'\<rparr>)"
    using emit_problems_store by blast
  have "record_fetch w now f (used, failed, sigs) s =
      (Inr ((case held of Some snap \<Rightarrow> if f_collision f then used else used @ [(f_name f, snap)] | None \<Rightarrow> used), failed @ [f], g),
       s1\<lparr>sv_store := st'\<rparr>)"
    unfolding record_fetch_def Let_def prod.case None option.case andthen_def bnd_app gets_app modify_app sum.case
      held_def [symmetric] s1_def [symmetric] ps_def [symmetric] c_def [symmetric] m_def [symmetric] st g ret_app by simp
  then show ?thesis using None by (auto simp: s1_def held_def split: option.splits)
qed (simp add: record_fetch_def Let_def andthen_def bnd_app)

lemma record_all:
  assumes "list_all (\<lambda>f. f_snapshot f = F (f_name f)) fs"
  shows "\<exists>add s' sigs'. fold_prog (record_fetch w now) fs (used, failed, sigs) s =
       (Inr (used @ add, failed @ filter (\<lambda>f. f_snapshot f = None) fs, sigs'), s')
     \<and> (\<forall>n. dget (sv_last_good s') n = (if n \<in> f_name ` set fs \<and> F n \<noteq> None then F n else dget (sv_last_good s) n))
     \<and> list_all (\<lambda>(n, sn). F n = Some sn \<or> F n = None \<and> dget (sv_last_good s) n = Some sn) add
     \<and> (list_all (\<lambda>f. f_snapshot f = None \<longrightarrow> \<not> f_collision f \<and> dget (sv_last_good s) (f_name f) \<noteq> None) fs
        \<longrightarrow> map fst add = map f_name fs)
     \<and> sv_cfg s' = sv_cfg s \<and> sv_last_items s' = sv_last_items s"
  using assms
proof (induction fs arbitrary: used failed sigs s)
  case (Cons f fs)
  define new where "new = (case f_snapshot f of Some sn \<Rightarrow> [(f_name f, sn)]
             | None \<Rightarrow> (case dget (sv_last_good s) (f_name f) of
                 Some sn \<Rightarrow> if f_collision f then [] else [(f_name f, sn)] | None \<Rightarrow> []))"
  obtain t sigs1 where t: "record_fetch w now f (used, failed, sigs) s =
      (Inr (used @ new, failed @ (if f_snapshot f = None then [f] else []), sigs1), t)"
    "sv_last_good t = (case f_snapshot f of Some sn \<Rightarrow> AList.update (f_name f) sn (sv_last_good s) | None \<Rightarrow> sv_last_good s)"
    "sv_cfg t = sv_cfg s" "sv_last_items t = sv_last_items s"
    using record_one [of w now f used failed sigs s, folded new_def] by blast
  have F: "f_snapshot f = F (f_name f)" using Cons.prems by simp
  have good: "dget (sv_last_good t) n = (if n = f_name f \<and> F n \<noteq> None then F n else dget (sv_last_good s) n)" for n
    using t(2) F by (auto split: option.splits)
  obtain add s' sigs' where IH: "fold_prog (record_fetch w now) fs (used @ new, failed @ (if f_snapshot f = None then [f] else []), sigs1) t =
       (Inr ((used @ new) @ add, (failed @ (if f_snapshot f = None then [f] else [])) @ filter (\<lambda>f. f_snapshot f = None) fs, sigs'), s')"
    "\<forall>n. dget (sv_last_good s') n = (if n \<in> f_name ` set fs \<and> F n \<noteq> None then F n else dget (sv_last_good t) n)"
    "list_all (\<lambda>(n, sn). F n = Some sn \<or> F n = None \<and> dget (sv_last_good t) n = Some sn) add"
    "list_all (\<lambda>f. f_snapshot f = None \<longrightarrow> \<not> f_collision f \<and> dget (sv_last_good t) (f_name f) \<noteq> None) fs
        \<longrightarrow> map fst add = map f_name fs"
    "sv_cfg s' = sv_cfg t" "sv_last_items s' = sv_last_items t"
    using Cons.IH [of "used @ new" "failed @ (if f_snapshot f = None then [f] else [])" sigs1 t] Cons.prems
    by (auto simp only: list.pred_inject)
  have run: "fold_prog (record_fetch w now) (f # fs) (used, failed, sigs) s =
       (Inr (used @ (new @ add), failed @ filter (\<lambda>f. f_snapshot f = None) (f # fs), sigs'), s')"
    using t(1) IH(1) by (simp add: bnd_app)
  have g: "\<forall>n. dget (sv_last_good s') n = (if n \<in> f_name ` set (f # fs) \<and> F n \<noteq> None then F n else dget (sv_last_good s) n)"
    using IH(2) good by auto
  have fr: "list_all (\<lambda>(n, sn). F n = Some sn \<or> F n = None \<and> dget (sv_last_good s) n = Some sn) (new @ add)"
    using IH(3) good F by (auto simp: new_def list_all_iff split: option.splits if_splits)
  have names: "list_all (\<lambda>f. f_snapshot f = None \<longrightarrow> \<not> f_collision f \<and> dget (sv_last_good s) (f_name f) \<noteq> None) (f # fs)
        \<longrightarrow> map fst (new @ add) = map f_name (f # fs)"
  proof
    assume h: "list_all (\<lambda>f. f_snapshot f = None \<longrightarrow> \<not> f_collision f \<and> dget (sv_last_good s) (f_name f) \<noteq> None) (f # fs)"
    have "dget (sv_last_good t) n \<noteq> None" if "dget (sv_last_good s) n \<noteq> None" for n using good [of n] that by auto
    then have "map fst add = map f_name fs" using h IH(4) by (auto simp: list_all_iff)
    moreover have "map fst new = [f_name f]" using h by (auto simp: new_def split: option.splits)
    ultimately show "map fst (new @ add) = map f_name (f # fs)" by simp
  qed
  have c: "sv_cfg s' = sv_cfg s" "sv_last_items s' = sv_last_items s" using IH(5,6) t(3,4) by simp_all
  show ?case
    by (rule exI [where x = "new @ add"], rule exI [where x = s'], rule exI [where x = sigs'])
      (intro conjI run g fr names c)
qed (auto intro!: exI [where x = "[]"])

lemma notices_store: "\<exists>st g. fold_prog (notices_of w) fs sigs s = (Inr g, s\<lparr>sv_store := st\<rparr>)"
proof (induction fs arbitrary: sigs s)
  case Nil
  then show ?case by (auto intro: exI [where x = "sv_store s"])
next
  case (Cons f fs)
  obtain st g where st: "notices_of w f sigs s = (Inr g, s\<lparr>sv_store := st\<rparr>)"
    using emit_notices_store [of w "f_name f" "if f_name f \<in> set (sv_loaded s) then w_notices w (f_name f) else []" sigs s]
    by (auto simp: notices_of_def bnd_app)
  show ?case using Cons.IH [of g "s\<lparr>sv_store := st\<rparr>"] st by (auto simp: bnd_app)
qed

text \<open>The state after the start of a cycle; \<open>prepare\<close> always returns.\<close>

lemma prepare_result:
  "\<exists>used failed sigs s'. prepare w now s = (Inr (used, failed, sigs), s')
     \<and> list_all (\<lambda>(n, sn). fresh w s n = Some sn \<or> fresh w s n = None \<and> dget (sv_last_good s) n = Some sn) used
     \<and> (list_all (\<lambda>f. \<not> f_collision f \<and> f_name f \<in> set (keys (sv_last_good s'))) failed \<longrightarrow> map fst used = cf_providers (sv_cfg s))
     \<and> sv_cfg s' = sv_cfg s \<and> sv_last_items s' = sv_last_items s"
proof -
  define s1 where "s1 = snd (synthetic_report w False None (s\<lparr>sv_store := (sv_store s)\<lparr>st_guard := PNone\<rparr>\<rparr>) :: (string + unit) \<times> sup)"
  have s1: "sv_last_good s1 = sv_last_good s" "sv_cfg s1 = sv_cfg s" "sv_last_items s1 = sv_last_items s" "sv_loaded s1 = sv_loaded s"
    by (auto simp: s1_def synthetic_report_def)
  have fr: "fresh w s1 = fresh w s" using s1 by (simp add: fresh_def fun_eq_iff)
  obtain fs s2 where fs: "fetch_all w (cf_providers (sv_cfg s)) s1 = (Inr fs, s2)" "map f_name fs = cf_providers (sv_cfg s)"
    "list_all (\<lambda>f. f_snapshot f = fresh w s (f_name f)) fs"
    "sv_last_good s2 = sv_last_good s" "sv_cfg s2 = sv_cfg s" "sv_last_items s2 = sv_last_items s"
    using fetch_all_fresh [of w "cf_providers (sv_cfg s)" s1] unfolding fr s1 by blast
  obtain add s3 sigs where rec: "fold_prog (record_fetch w now) fs ([], [], []) s2 = (Inr ([] @ add, [] @ filter (\<lambda>f. f_snapshot f = None) fs, sigs), s3)"
     "\<forall>n. dget (sv_last_good s3) n = (if n \<in> f_name ` set fs \<and> fresh w s n \<noteq> None then fresh w s n else dget (sv_last_good s) n)"
     "list_all (\<lambda>(n, sn). fresh w s n = Some sn \<or> fresh w s n = None \<and> dget (sv_last_good s) n = Some sn) add"
     "list_all (\<lambda>f. f_snapshot f = None \<longrightarrow> \<not> f_collision f \<and> dget (sv_last_good s) (f_name f) \<noteq> None) fs \<longrightarrow> map fst add = map f_name fs"
     "sv_cfg s3 = sv_cfg s" "sv_last_items s3 = sv_last_items s"
    using record_all [OF fs(3), of w now "[]" "[]" "[]" s2] unfolding fs(4-6) by blast
  obtain st sigs' where nt: "fold_prog (notices_of w) fs sigs s3 = (Inr sigs', s3\<lparr>sv_store := st\<rparr>)" using notices_store by blast
  have "prepare w now s = (Inr (add, filter (\<lambda>f. f_snapshot f = None) fs, sigs'), s3\<lparr>sv_store := st\<rparr>)"
    using fs(1) rec(1) nt s1(2) by (simp add: prepare_def andthen_def bnd_app on_store_def gather_def s1_def synthetic_report_def)
  moreover have "map fst add = cf_providers (sv_cfg s)"
    if "list_all (\<lambda>f. \<not> f_collision f \<and> f_name f \<in> set (keys (sv_last_good s3))) (filter (\<lambda>f. f_snapshot f = None) fs)"
  proof -
    have "list_all (\<lambda>f. f_snapshot f = None \<longrightarrow> \<not> f_collision f \<and> dget (sv_last_good s) (f_name f) \<noteq> None) fs"
      unfolding list_all_iff
    proof (intro ballI impI conjI)
      fix f assume f: "f \<in> set fs" "f_snapshot f = None"
      then show "\<not> f_collision f" using that by (auto simp: list_all_iff)
      have "fresh w s (f_name f) = None" using f fs(3) by (auto simp: list_all_iff)
      moreover have "dget (sv_last_good s3) (f_name f) \<noteq> None" using f that by (auto simp: list_all_iff dget_None_iff)
      ultimately show "dget (sv_last_good s) (f_name f) \<noteq> None" using rec(2) by auto
    qed
    then show ?thesis using rec(4) fs(2) by simp
  qed
  ultimately show ?thesis using rec(3,5,6) by auto
qed

lemma update_all_dget: "k \<notin> set (keys kvs) \<Longrightarrow> dget (update_all kvs d) k = dget d k"
  by (induction kvs d rule: update_all.induct) auto

lemma update_all_keys: "set (keys (update_all kvs d)) = set (keys d) \<union> set (keys kvs)"
  by (induction kvs d rule: update_all.induct) auto

lemma add_synthetic_result:
  assumes "add_synthetic w m s = (Inr (m', names), s')"
  shows "mg_files m' = mg_files m \<and> set (keys (mg_secrets m')) = set (keys (mg_secrets m)) \<union> set (keys (cf_synthetic_keys (sv_cfg s)))
    \<and> (\<forall>k \<in> set (keys (mg_secrets m)). dget (mg_secrets m') k = dget (mg_secrets m) k)
    \<and> sv_cfg s' = sv_cfg s \<and> sv_last_items s' = sv_last_items s"
proof (cases "cf_synthetic_keys (sv_cfg s) = []")
  case False
  obtain out t where out: "synthetic_values w (mg_secrets m) s = (Inr out, t)" and
    m': "m' = m\<lparr>mg_secrets := update_all out (mg_secrets m)\<rparr>" and s': "s' = snd (synthetic_report w True None t :: (string + unit) \<times> sup)"
    using assms False by (auto simp: add_synthetic_def split: sum.splits prod.splits)
  have ap: "apply_synthetic (w_parse w) (w_render w) (mg_secrets m) (cf_synthetic_keys (sv_cfg s)) = Inr out"
    and t: "sv_cfg t = sv_cfg s" "sv_last_items t = sv_last_items s"
    using out False by (auto simp: synthetic_values_def Let_def split: if_splits sum.splits)
  have out': "set (keys out) = set (keys (cf_synthetic_keys (sv_cfg s)))" "set (keys out) \<inter> set (keys (mg_secrets m)) = {}"
    using apply_values [OF ap] by metis+
  have "set (keys (update_all out (mg_secrets m))) = set (keys (mg_secrets m)) \<union> set (keys (cf_synthetic_keys (sv_cfg s)))"
    unfolding update_all_keys out'(1) ..
  moreover have "dget (update_all out (mg_secrets m)) k = dget (mg_secrets m) k" if "k \<in> set (keys (mg_secrets m))" for k
    by (rule update_all_dget) (use out'(2) that in blast)
  moreover have "sv_cfg s' = sv_cfg s" "sv_last_items s' = sv_last_items s"
    using t by (simp_all add: s' synthetic_report_def)
  ultimately show ?thesis unfolding m' by simp
qed (use assms in \<open>auto simp: add_synthetic_def\<close>)

lemma decide_result:
  assumes "decide w force (used, failed, sigs) s = (Inr (m, names), s')"
  shows "list_all (\<lambda>f. \<not> f_collision f \<and> f_name f \<in> set (keys (sv_last_good s))) failed
    \<and> (\<exists>m0. merge used (cf_collision_policy (sv_cfg s)) = Inr m0 \<and> mg_files m = mg_files m0
      \<and> set (keys (mg_secrets m)) = set (keys (mg_secrets m0)) \<union> set (keys (cf_synthetic_keys (sv_cfg s)))
      \<and> (\<forall>k \<in> set (keys (mg_secrets m0)). dget (mg_secrets m) k = dget (mg_secrets m0) k))
    \<and> check_shrink (int (length (mg_secrets m))) (sv_last_items s) (cf_shrink_guard_percent (sv_cfg s)) force = None"
proof -
  obtain m0 where m0: "merge_used (sv_cfg s) (sv_last_good s) (used, failed, sigs) = Inr m0"
    using assms by (auto simp: decide_def split: sum.splits)
  then have mu: "find f_collision failed = None" "\<not> list_ex (\<lambda>f. f_name f \<notin> set (keys (sv_last_good s))) failed"
    "merge used (cf_collision_policy (sv_cfg s)) = Inr m0"
    by (auto simp: merge_used_def split: option.splits if_splits sum.splits)
  obtain t where t: "add_synthetic w m0 s = (Inr (m, names), t)" "guarded force t m = None"
    using assms m0 by (auto simp: decide_def split: sum.splits prod.splits option.splits)
  note syn = add_synthetic_result [OF t(1)]
  have "check_shrink (int (length (mg_secrets m))) (sv_last_items s) (cf_shrink_guard_percent (sv_cfg s)) force = None"
    using t(2) syn by (auto simp: guarded_def Let_def split: if_splits)
  moreover have "list_all (\<lambda>f. \<not> f_collision f \<and> f_name f \<in> set (keys (sv_last_good s))) failed"
    using mu(1,2) by (auto simp: list_ex_iff list_all_iff find_None_iff)
  ultimately show ?thesis using mu(3) syn by blast
qed

lemma approved_result:
  assumes "approved w force s = Some m"
  shows "config_errors s = [] \<and> (\<exists>used m0. map fst used = cf_providers (sv_cfg s)
    \<and> list_all (\<lambda>(n, sn). fresh w s n = Some sn \<or> fresh w s n = None \<and> dget (sv_last_good s) n = Some sn) used
    \<and> merge used (cf_collision_policy (sv_cfg s)) = Inr m0 \<and> mg_files m = mg_files m0
    \<and> set (keys (mg_secrets m)) = set (keys (mg_secrets m0)) \<union> set (keys (cf_synthetic_keys (sv_cfg s)))
    \<and> (\<forall>k \<in> set (keys (mg_secrets m0)). dget (mg_secrets m) k = dget (mg_secrets m0) k))
    \<and> check_shrink (int (length (mg_secrets m))) (sv_last_items s) (cf_shrink_guard_percent (sv_cfg s)) force = None"
proof -
  define s1 where "s1 = s\<lparr>sv_store := (sv_store s)\<lparr>st_last_attempt := Some (w_now w)\<rparr>\<rparr>"
  have s1: "sv_cfg s1 = sv_cfg s" "sv_last_good s1 = sv_last_good s" "sv_last_items s1 = sv_last_items s" "fresh w s1 = fresh w s"
    by (auto simp: s1_def fresh_def fun_eq_iff)
  have err: "config_errors s = []" using assms by (auto simp: approved_def Let_def config_errors_def split: if_splits)
  have ap: "(case prepare w (w_now w) s1 of (Inr g, s2) \<Rightarrow> (case decide w force g s2 of (Inr (m, _), _) \<Rightarrow> Some m | _ \<Rightarrow> None)
      | _ \<Rightarrow> None) = Some m"
    using assms err by (simp add: approved_def Let_def config_errors_def s1_def)
  obtain used failed sigs s2 where p: "prepare w (w_now w) s1 = (Inr (used, failed, sigs), s2)"
    "list_all (\<lambda>(n, sn). fresh w s n = Some sn \<or> fresh w s n = None \<and> dget (sv_last_good s) n = Some sn) used"
    "list_all (\<lambda>f. \<not> f_collision f \<and> f_name f \<in> set (keys (sv_last_good s2))) failed \<longrightarrow> map fst used = cf_providers (sv_cfg s)"
    "sv_cfg s2 = sv_cfg s" "sv_last_items s2 = sv_last_items s"
    using prepare_result [of w "w_now w" s1] unfolding s1 by blast
  obtain names s3 where d: "decide w force (used, failed, sigs) s2 = (Inr (m, names), s3)"
    using ap p(1) by (auto split: prod.splits sum.splits)
  from decide_result [OF d] show ?thesis using p err by auto
qed

section \<open>The properties of a run\<close>

text \<open>A small installation: one provider, the default places.\<close>

definition demo_config :: config where
  "demo_config = \<lparr>cf_providers = [''sops''], cf_interval = 300, cf_collision_policy = ''error'', cf_shrink_guard_percent = 30,
     cf_log_level = ''info'', cf_provider_cfg = [], cf_secrets_file = ''/config/secrets.yaml'', cf_files_dir = ''/config/secrets_files'',
     cf_state_file = ''/data/state.json'', cf_data_dir = ''/data'', cf_port = 8099, cf_version = ''1'', cf_problems = [],
     cf_usage_scan = ''off'', cf_addon_configs_dir = ''/addon_configs'', cf_check_interval = 0, cf_synthetic_keys = []\<rparr>"

definition demo_world :: world where
  "demo_world = \<lparr>w_now = 1000, w_clock = (\<lambda>_. 0), w_load = (\<lambda>_. None), w_validate = (\<lambda>_. Inr []),
     w_fetch = (\<lambda>_. FetchOk \<lparr>snap_secrets = [(''k'', ''v'')], snap_files = [], snap_revision = ''r'', snap_check = ''r''\<rparr>),
     w_notices = (\<lambda>_. []), w_check = (\<lambda>_. NoCheck), w_jinja = False, w_parse = (\<lambda>_. ParseOther),
     w_render = (\<lambda>_ _ _. RenderOther), w_yload = (\<lambda>_. Some (PDict [(''k'', PStr ''v'')])), w_repr = (\<lambda>_. []), w_sha = (\<lambda>_. []),
     w_reload = None\<rparr>"

definition demo_sup_os :: os where
  "demo_sup_os = \<lparr>fsys = [([''config''], NDir), ([''config'', ''secrets_files''], NDir), ([''data''], NDir),
       ([''config'', ''secrets.yaml''], NFile ''old'' 384)], faults = [], rnd = [''aa'', ''bb'', ''cc'', ''dd'', ''ee''], trace = []\<rparr>"

definition demo_sup :: sup where
  "demo_sup = \<lparr>sv_cfg = demo_config, sv_os = demo_sup_os, sv_store = new_store [''data'', ''state.json''] 300 [] 900,
     sv_known = [], sv_loaded = [], sv_reload_retry = None, sv_running = False, sv_pending = False, sv_force = False,
     sv_last_attempt = 0, sv_fails = 0, sv_next_at = 0, sv_last_good = [], sv_pinfo = [], sv_last_written = None,
     sv_last_items = None, sv_active = [], sv_usage_at = None, sv_usage_sigs = [], sv_tokens = [], sv_next_probe = None,
     sv_check_errors = [], sv_announced = []\<rparr>"

lemma demo_places:
  "layout (fsys (sv_os demo_sup)) [''config''] [''config'', ''secrets_files''] [''data''] [''data'']"
  "places (sv_cfg demo_sup) [''config''] ''secrets.yaml'' [''config'', ''secrets_files''] [''data'']"
  "state_place (st_path (sv_store demo_sup)) [''data''] ''state.json''"
  "trace (sv_os demo_sup) = []"
proof -
  show "layout (fsys (sv_os demo_sup)) [''config''] [''config'', ''secrets_files''] [''data''] [''data'']"
    by (auto simp: layout_def demo_sup_def demo_sup_os_def plain_dir_def plain_name_def is_dir_def node_at_def le_Suc_eq apart_def below_def)
  show "places (sv_cfg demo_sup) [''config''] ''secrets.yaml'' [''config'', ''secrets_files''] [''data'']"
    by (simp add: places_def demo_sup_def demo_config_def to_path_def plain_name_def)
  show "state_place (st_path (sv_store demo_sup)) [''data''] ''state.json''" "trace (sv_os demo_sup) = []"
    by (simp_all add: state_place_def demo_sup_def new_store_def plain_name_def demo_sup_os_def)
qed

text \<open>C1. The main guarantee: during one run of the supervisor (every state after every system call, whatever calls
  fail, whatever the providers deliver, and wherever the run stops), \<open>secrets.yaml\<close> holds either its content from
  before the run or the complete rendering of the set this run approved; when nothing was approved it does not change.\<close>

theorem run_once_secrets:
  assumes "layout (fsys (sv_os s)) S D M Z" "places (sv_cfg s) S x D M" "state_place (st_path (sv_store s)) Z z"
    and "trace (sv_os s) = []" "run_once w force s = (r, s')"
  shows "\<forall>f \<in> set (fsys (sv_os s') # trace (sv_os s')).
    content (node_at f (S @ [x])) = content (node_at (fsys (sv_os s)) (S @ [x]))
    \<or> (\<exists>m. approved w force (started w s) = Some m
        \<and> content (node_at f (S @ [x])) = Some (utf8_encode (render_secrets (mg_secrets m))))"
proof
  fix f assume f: "f \<in> set (fsys (sv_os s') # trace (sv_os s'))"
  have "calm [] (\<lambda>f. f = fsys (sv_os s)) (sv_cfg s) (st_path (sv_store s)) s"
    using since_start [of "\<lambda>f. f = fsys (sv_os s)" "sv_os s"] assms(4) by (simp add: calm_def)
  from run_once_shown [OF assms(1-3) this assms(5)]
  have "since [] (secrets_shown (fsys (sv_os s)) S x Z (new_content (approved w force (started w s)))) (sv_os s')"
    by (simp add: calm_def)
  from since_all [OF this f]
  show "content (node_at f (S @ [x])) = content (node_at (fsys (sv_os s)) (S @ [x]))
    \<or> (\<exists>m. approved w force (started w s) = Some m
        \<and> content (node_at f (S @ [x])) = Some (utf8_encode (render_secrets (mg_secrets m))))"
    by (cases "approved w force (started w s)") (auto simp: secrets_shown_def new_content_def)
qed

theorem run_once_secrets_witness:
  "let (r, s') = run_once demo_world False demo_sup in
   \<forall>f \<in> set (fsys (sv_os s') # trace (sv_os s')).
     content (node_at f [''config'', ''secrets.yaml'']) = Some ''old''
     \<or> (\<exists>m. approved demo_world False (started demo_world demo_sup) = Some m
         \<and> content (node_at f [''config'', ''secrets.yaml'']) = Some (utf8_encode (render_secrets (mg_secrets m))))"
proof -
  obtain r s' where run: "run_once demo_world False demo_sup = (r, s')" by fastforce
  have "content (node_at (fsys (sv_os demo_sup)) [''config'', ''secrets.yaml'']) = Some ''old''"
    by (simp add: demo_sup_def demo_sup_os_def node_at_def)
  then show ?thesis using run_once_secrets [OF demo_places run] run by simp
qed

text \<open>C3. What a run approves: the configuration has no error; every enabled provider contributes exactly once, in the
  configured order, with the snapshot it delivers now or, when it fails, the last good one; these merge without
  error; the synthetic keys are added without changing a real key, the files are the merged ones; and the shrink
  guard accepts the final number of items.\<close>

theorem approved_set:
  assumes "approved w force s = Some m"
  shows "config_errors s = [] \<and> (\<exists>used m0. map fst used = cf_providers (sv_cfg s)
    \<and> list_all (\<lambda>(n, sn). fresh w s n = Some sn \<or> fresh w s n = None \<and> dget (sv_last_good s) n = Some sn) used
    \<and> merge used (cf_collision_policy (sv_cfg s)) = Inr m0 \<and> mg_files m = mg_files m0
    \<and> set (keys (mg_secrets m)) = set (keys (mg_secrets m0)) \<union> set (keys (cf_synthetic_keys (sv_cfg s)))
    \<and> (\<forall>k \<in> set (keys (mg_secrets m0)). dget (mg_secrets m) k = dget (mg_secrets m0) k))
    \<and> check_shrink (int (length (mg_secrets m))) (sv_last_items s) (cf_shrink_guard_percent (sv_cfg s)) force = None"
  by (rule approved_result [OF assms])

lemma demo_approved: "\<exists>m. approved demo_world False demo_sup = Some m"
proof -
  let ?sn = "\<lparr>snap_secrets = [(''k'', ''v'')], snap_files = [], snap_revision = ''r'', snap_check = ''r''\<rparr>"
  let ?f = "\<lparr>f_name = ''sops'', f_snapshot = Some ?sn, f_code = None, f_message = [], f_problems = Some [], f_collision = False\<rparr>"
  have f: "fetch_provider demo_world ''sops'' s = (Inr ?f, s\<lparr>sv_loaded := (if ''sops'' \<in> set (sv_loaded s) then sv_loaded s else sv_loaded s @ [''sops'']),
      sv_known := register [''v''] (sv_known s)\<rparr>)" for s
    by (simp add: fetch_provider_def demo_world_def Let_def)
  have m: "merge [(''sops'', ?sn)] ''error'' = Inr \<lparr>mg_secrets = [(''k'', ''v'')], mg_files = [], mg_shadowed = []\<rparr>"
    by (simp add: merge_def Let_def)
  have r: "record_fetch demo_world now ?f ([], [], []) s = (Inr ([(''sops'', ?sn)], [], []), s\<lparr>sv_last_good := AList.update ''sops'' ?sn (sv_last_good s),
      sv_tokens := AList.update ''sops'' ''r'' (sv_tokens s), sv_pinfo := AList.update ''sops'' (ok_info now ?f ?sn) (sv_pinfo s)\<rparr>)" for s now
    by (simp add: record_fetch_def andthen_def bnd_app)
  have n: "notices_of demo_world ?f [] s = (Inr [], s)" for s
    by (simp add: notices_of_def bnd_app demo_world_def)
  have cfg: "sv_cfg demo_sup = demo_config" "sv_last_items demo_sup = None" "sv_loaded demo_sup = []" "sv_last_good demo_sup = []"
    by (simp_all add: demo_sup_def)
  show ?thesis
    unfolding approved_def Let_def config_errors_def prepare_def gather_def
    by (simp add: cfg demo_config_def andthen_def bnd_app on_store_def synthetic_report_def f r n m decide_def merge_used_def add_synthetic_def guarded_def check_shrink_def)
qed

theorem approved_set_witness:
  "\<exists>(m :: merged) used m0. map fst used = [''sops''] \<and> merge used ''error'' = Inr m0 \<and> mg_files m = mg_files m0
     \<and> check_shrink (int (length (mg_secrets m))) None 30 False = None"
proof -
  obtain m where m: "approved demo_world False demo_sup = Some m" using demo_approved by blast
  have cfg: "cf_providers (sv_cfg demo_sup) = [''sops'']" "cf_collision_policy (sv_cfg demo_sup) = ''error''"
    "sv_last_items demo_sup = None" "cf_shrink_guard_percent (sv_cfg demo_sup) = 30"
    by (simp_all add: demo_sup_def demo_config_def)
  note ok = approved_set [OF m, unfolded cfg]
  obtain used m0 where "map fst used = [''sops'']" "merge used ''error'' = Inr m0" "mg_files m = mg_files m0"
    using conjunct1 [OF conjunct2 [OF ok]] by (elim exE conjE) (rule that)
  then show ?thesis using conjunct2 [OF conjunct2 [OF ok]]
    by (intro exI [of _ m] exI [of _ used] exI [of _ m0]) simp
qed


end
