(* ===== verification/SS_Loop.thy ===== *)
theory SS_Loop
  imports SS_Cycle_Proofs
begin

text \<open>
  The supervisor loop as a state machine: the operations that other threads and the loop itself perform on
  the supervisor, the invariant of its reachable states, and the waiting times.
\<close>

section \<open>Waiting\<close>




section \<open>The invariant of the loop\<close>

text \<open>
  The books: the event log is well formed, the failure counter is zero exactly in the states \<open>ok\<close> and \<open>starting\<close>,
  and a status that promises a written file comes with the time of a success.
\<close>

definition books :: "sup \<Rightarrow> bool" where
  "books s \<longleftrightarrow> events_ok (sv_store s)
     \<and> (sv_fails s = 0 \<longleftrightarrow> st_status (sv_store s) \<in> {''ok'', ''starting''})
     \<and> (st_status (sv_store s) \<in> {''ok'', ''degraded''} \<longrightarrow> st_last_success (sv_store s) \<noteq> None)"

definition scheduled :: "seconds \<Rightarrow> sup \<Rightarrow> bool" where
  "scheduled now s \<longleftrightarrow> books s \<and> sv_next_at s = now + of_int (backoff (sv_fails s) (cf_interval (sv_cfg s)))"

interpretation books: quiet_assertion books
  by unfold_locales (auto simp: books_def quiet_change_def quiet_store_def)

interpretation scheduled: quiet_assertion "scheduled now" for now
  by unfold_locales (auto simp: scheduled_def books_def quiet_change_def quiet_store_def)

lemma books_os: "keeps I (in_os g m)" if "\<And>s o'. I s \<Longrightarrow> I (s\<lparr>sv_os := o'\<rparr>)"
  by (rule validI) (auto simp: in_os_def that split: prod.splits sum.splits)

lemma save_state_books: "keeps (scheduled now) (save_state w)"
  unfolding save_state_def
  by (rule valid_bnd [OF valid_gets [where Q = "\<lambda>_. scheduled now"]]) (auto intro: books_os simp: scheduled_def books_def)

text \<open>\<open>finish\<close> establishes both, when its status is one of the three and a success stands behind it.\<close>

lemma finish_books:
  assumes "status \<in> {''ok'', ''degraded'', ''error''}"
  shows "valid (\<lambda>s. events_ok (sv_store s) \<and> (status \<noteq> ''error'' \<longrightarrow> st_last_success (sv_store s) \<noteq> None))
    (finish w now status code sigs) (\<lambda>_. scheduled now) (\<lambda>_. scheduled now)"
proof -
  let ?P = "\<lambda>s. events_ok (sv_store s) \<and> (status \<noteq> ''error'' \<longrightarrow> st_last_success (sv_store s) \<noteq> None)"
  have out: "valid ?P (modify (set_outcome now status code sigs)) (\<lambda>_. scheduled now) (\<lambda>_. scheduled now)"
    using assms by (auto simp: valid_def set_outcome_def Let_def scheduled_def books_def events_ok_def)
  have prov: "keeps (scheduled now) (modify (\<lambda>s. s\<lparr>sv_store := (sv_store s)\<lparr>st_providers :=
      update_all (provider_block s code) (st_providers (sv_store s))\<rparr>\<rparr>))"
    by (rule scheduled.quiet_modify) (simp add: quiet_change_def quiet_store_def events_ok_def)
  show ?thesis unfolding finish_def
    by (rule valid_andthen [OF out valid_andthen [OF scheduled.quiet_refresh valid_andthen [OF prov save_state_books]]])
qed

definition standing :: "bool \<Rightarrow> sup \<Rightarrow> bool" where
  "standing had s \<longleftrightarrow> books s \<and> (had \<longrightarrow> st_last_success (sv_store s) \<noteq> None)"

interpretation standing: quiet_assertion "standing had" for had
  by unfold_locales (auto simp: standing_def books_def quiet_change_def quiet_store_def)

lemma finish_standing:
  assumes "status \<in> {''ok'', ''degraded'', ''error''}" "status \<noteq> ''error'' \<Longrightarrow> had"
  shows "valid (standing had) (finish w now status code sigs) (\<lambda>_. scheduled now) (\<lambda>_. scheduled now)"
  by (rule valid_weaken [OF finish_books [OF assms(1)]]) (use assms(2) in \<open>auto simp: standing_def books_def\<close>)

text \<open>From here on an exception leaves at least the books in order.\<close>

lemma weak_books: "scheduled now s \<Longrightarrow> books s" "standing had s \<Longrightarrow> books s"
  by (simp_all add: scheduled_def standing_def)

lemma finish_then:
  assumes "status \<in> {''ok'', ''degraded'', ''error''}" "status \<noteq> ''error'' \<Longrightarrow> had"
  shows "valid (standing had) (finish w now status code sigs) (\<lambda>_. scheduled now) (\<lambda>_. books)"
  by (rule valid_exn [OF finish_standing [OF assms]]) (auto dest: weak_books)

lemma emit_standing: "valid (standing had) (emit w level code msg p) (\<lambda>_. standing had) (\<lambda>_. books)"
  by (rule valid_exn [OF standing.quiet_emit]) (rule weak_books)

lemma finish_fatal_books: "valid books (finish_fatal w now sigs f) (\<lambda>_. scheduled now) (\<lambda>_. books)"
  unfolding finish_fatal_def
proof (rule valid_bnd)
  show "valid books (gets (\<lambda>s. (clean s (snd f), st_last_success (sv_store s) \<noteq> None))) (\<lambda>x. standing (snd x)) (\<lambda>_. books)"
    by (rule valid_gets) (simp add: standing_def)
  fix x :: "string \<times> bool"
  obtain msg had where x: "x = (msg, had)" by (cases x)
  show "valid (standing (snd x)) (case x of (msg, had) \<Rightarrow> bnd (emit w ''error'' (fst f) msg None) (\<lambda>g.
       finish w now (if had then ''degraded'' else ''error'') (Some (fst f)) (sigs @ [g]))) (\<lambda>_. scheduled now) (\<lambda>_. books)"
    unfolding x snd_conv prod.case by (rule valid_bnd [OF emit_standing finish_then]) (cases had; simp)+
qed

lemma commit_books: "keeps books (commit w m)"
  unfolding commit_def
  by (intro books.quiet_gets books.quiet_bnd books.quiet_andthen books.quiet_lift books.quiet_previous books.quiet_after_write books.quiet_ret books_os)
    (simp_all add: books_def)

lemma conclude_books: "valid books (conclude w now failed sigs m names written skipped) (\<lambda>_. scheduled now) (\<lambda>_. books)"
proof -
  have upd: "valid books (modify (\<lambda>s. s\<lparr>sv_store := (sv_store s)\<lparr>st_last_success := Some now, st_items := int (length (mg_secrets m)),
         st_keys := (st_keys (sv_store s))\<lparr>kc_names := sort (keys (mg_secrets m))\<rparr>,
         st_synthetic_names := (if cf_synthetic_keys (sv_cfg s) \<noteq> [] then Some names else None)\<rparr>\<rparr>)) (\<lambda>_. standing True) (\<lambda>_. books)"
    by (rule valid_modify) (simp add: standing_def books_def events_ok_def)
  have ev: "valid (standing True) (event w ''info'' ''sync_ok'' t None) (\<lambda>_. standing True) (\<lambda>_. books)" for t
    by (rule valid_exn [OF standing.quiet_event]) (rule weak_books)
  have rest: "valid (standing True)
      (if failed \<noteq> [] \<or> skipped \<noteq> []
        then finish w now ''degraded'' (case failed of f # _ \<Rightarrow> f_code f | [] \<Rightarrow> Some ''file_unmanaged'') sigs
        else andthen
          (if written
           then event w ''info'' ''sync_ok'' a None
           else when_do b (event w ''info'' ''sync_ok'' c None))
          (finish w now ''ok'' None sigs)) (\<lambda>_. scheduled now) (\<lambda>_. books)" for sigs a b c
    by (intro valid_if valid_andthen [where R = "standing True"] finish_then ev valid_when) auto
  show ?thesis unfolding conclude_def
    by (rule valid_bnd [OF books.quiet_emit_shadowed], rule valid_bnd [OF books.quiet_emit_skipped], rule valid_andthen [OF upd],
        rule valid_bnd [where R = "\<lambda>_. standing True"], rule valid_gets, assumption,
        split prod.split, intro allI impI, split prod.split, intro allI impI, rule rest)
qed

lemma attempt_books: "valid books (attempt w force now g) (\<lambda>_. scheduled now) (\<lambda>_. books)"
proof -
  have *: "case r of Inl e \<Rightarrow> books s' | Inr x \<Rightarrow> scheduled now s'" if s: "books s" and run: "attempt w force now g s = (r, s')" for s r s'
  proof -
    obtain d t where d: "decide w force g s = (d, t)" by (cases "decide w force g s")
    have t: "books t" by (rule keepsD [OF books.quiet_decide s d])
    have fatal: "case r of Inl e \<Rightarrow> books s' | Inr x \<Rightarrow> scheduled now s'" if "finish_fatal w now sigs e u = (r, s')" "books u" for sigs e u
      using valid_Inl [OF finish_fatal_books that(2)] valid_Inr [OF finish_fatal_books that(2)] that(1) by (cases r) auto
    show ?thesis
    proof (cases d)
      case (Inl e)
      then show ?thesis using run d fatal [OF _ t] by (simp add: attempt_def)
    next
      case (Inr mn)
      obtain m names where mn: "mn = (m, names)" by (cases mn)
      obtain k u where k: "commit w m t = (k, u)" by (cases "commit w m t")
      have u: "books u" by (rule keepsD [OF commit_books t k])
      show ?thesis
      proof (cases k)
        case (Inl e)
        then show ?thesis using run d Inr mn k u fatal [OF _ u] by (cases e) (auto simp: attempt_def)
      next
        case (Inr ws)
        then have "conclude w now (fst (snd g)) (snd (snd g)) m names (fst ws) (snd ws) u = (r, s')"
          using run d \<open>d = Inr mn\<close> mn k by (cases ws) (simp add: attempt_def)
        then show ?thesis using valid_Inl [OF conclude_books u] valid_Inr [OF conclude_books u] by (cases r) auto
      qed
    qed
  qed
  show ?thesis by (rule validI) (drule (1) *, simp)+
qed

lemma cycle_books: "valid books (cycle w force) (\<lambda>_. scheduled (w_now w)) (\<lambda>_. books)"
proof -
  have err: "valid books (bnd (emit_problems w None errors []) (\<lambda>sigs. finish w (w_now w) ''error'' (Some (p_code (hd errors))) sigs))
      (\<lambda>_. scheduled (w_now w)) (\<lambda>_. books)" for errors
    by (rule valid_bnd [OF books.quiet_emit_problems], rule valid_weaken [OF finish_then [where had = False]]) (simp_all add: standing_def)
  have main: "valid books (bnd (prepare w (w_now w)) (attempt w force (w_now w))) (\<lambda>_. scheduled (w_now w)) (\<lambda>_. books)"
    by (rule valid_bnd [OF books.quiet_prepare attempt_books])
  have upd: "keeps books (on_store (\<lambda>st. st\<lparr>st_last_attempt := Some (w_now w)\<rparr>))"
    by (rule books.quiet_on_store) (simp add: quiet_store_def events_ok_def)
  show ?thesis unfolding cycle_def
    by (rule valid_andthen [OF upd], rule valid_bnd [OF books.quiet_gets]) (intro valid_if err main)
qed

lemma run_once_result:
  assumes "books s" "run_once w force s = (r, s')"
  shows "scheduled (w_now w) s' \<and> \<not> sv_running s'"
proof -
  let ?h = "\<lambda>e :: string. bnd (gets (\<lambda>s. (case st_last_success (sv_store s) of Some t \<Rightarrow> t \<noteq> 0 | None \<Rightarrow> False)))
     (\<lambda>had. finish w (w_now w) (if had then ''degraded'' else ''error'') (Some ''internal_error'') [])"
  have s: "books (started w s)" using assms(1) by (simp add: started_def books_def)
  have h: "valid books (?h e) (\<lambda>_. scheduled (w_now w)) (\<lambda>_. scheduled (w_now w))" for e
  proof (rule valid_bnd)
    show "valid books (gets (\<lambda>s. (case st_last_success (sv_store s) of Some t \<Rightarrow> t \<noteq> 0 | None \<Rightarrow> False))) standing (\<lambda>_. scheduled (w_now w))"
      by (rule valid_gets) (auto simp: standing_def split: option.splits)
    show "valid (standing had) (finish w (w_now w) (if had then ''degraded'' else ''error'') (Some ''internal_error'') [])
        (\<lambda>_. scheduled (w_now w)) (\<lambda>_. scheduled (w_now w))" for had
      by (rule finish_standing) (cases had; simp)+
  qed
  have body: "valid books (catch (cycle w force) ?h) (\<lambda>_. scheduled (w_now w)) (\<lambda>_. scheduled (w_now w))"
    by (rule valid_catch [OF cycle_books h])
  obtain q t where q: "catch (cycle w force) ?h (started w s) = (q, t)" by (cases "catch (cycle w force) ?h (started w s)")
  have "scheduled (w_now w) t" using valid_Inl [OF body s] valid_Inr [OF body s] q by (cases q) auto
  moreover have "s' = t\<lparr>sv_running := False\<rparr>"
    using assms(2) q by (auto simp: run_once_def andthen_def bnd_app finally_do_def started_def split: sum.splits)
  ultimately show ?thesis by (simp add: scheduled_def books_def)
qed

text \<open>The change probe and the manual trigger.\<close>

definition idle :: "sup \<Rightarrow> bool" where
  "idle s \<longleftrightarrow> books s \<and> \<not> sv_running s"

interpretation idle: quiet_assertion idle
  by unfold_locales (auto simp: idle_def books_def quiet_change_def quiet_store_def)

lemma trigger_idle: "idle s \<Longrightarrow> idle (snd (trigger_sync now force s))"
  by (simp add: trigger_sync_def idle_def books_def)

lemma set_check_quiet: "quiet_store st (set_check k v st)"
  by (simp add: set_check_def quiet_store_def events_ok_def)

lemma probe_one_idle: "keeps idle (probe_one w name acc)"
  unfolding probe_one_def Let_def
  by (auto split: prod.splits option.splits check_outcome.splits
      intro!: idle.quiet_bnd idle.quiet_andthen idle.quiet_gets idle.quiet_when idle.quiet_modify idle.quiet_event idle.quiet_ret idle.quiet_Pair
      simp: quiet_change_def)

lemma probe_idle: "keeps idle (probe w now)"
proof -
  have last: "keeps idle (\<lambda>s. if changed \<noteq> [] \<and> sv_fails s = 0
             then (let (started, s') = trigger_sync (w_now w) False s in
               if started then on_store (\<lambda>st. set_check ''triggered_syncs''
                   (PInt (as_int (vget (st_check st) ''triggered_syncs'') + 1)) st) s'
               else (Inr (), s'))
             else (Inr (), s))" for changed :: "string list"
  proof (rule validI)
  qed (auto simp: Let_def on_store_def idle_def books_def trigger_sync_def set_check_def events_ok_def split: if_splits prod.splits)
  show ?thesis unfolding probe_def
    by (auto split: prod.splits intro!: idle.quiet_bnd idle.quiet_andthen idle.quiet_gets idle.quiet_ret idle.quiet_Pair idle.quiet_fold
        idle.quiet_on_store set_check_quiet probe_one_idle last)
qed

lemma run_check_idle: "keeps idle (run_check w)"
proof -
  have at: "keeps idle (modify (\<lambda>s. s\<lparr>sv_next_probe := Some (w_now w + of_int (cf_check_interval (sv_cfg s)))\<rparr>))"
    by (rule idle.quiet_modify) (simp add: quiet_change_def)
  have pr: "keeps idle (catch (probe w (w_now w)) (\<lambda>_. ret ()))"
    by (rule valid_catch [OF probe_idle]) (rule idle.quiet_ret)
  have sv: "keeps idle (save_state w)"
    unfolding save_state_def by (rule idle.quiet_bnd [OF idle.quiet_gets], rule books_os) (simp add: idle_def books_def)
  show ?thesis unfolding run_check_def by (rule idle.quiet_andthen [OF at idle.quiet_andthen [OF pr sv]])
qed

section \<open>Reachable states\<close>

text \<open>The operations of the loop thread and of the web thread, in any order; each takes the lock for its whole duration.\<close>

inductive sup_step :: "sup \<Rightarrow> sup \<Rightarrow> bool" where
  trigger: "sup_step s (snd (trigger_sync now force s))"
| run: "sup_step s (snd (run_once w (sv_force s) (s\<lparr>sv_force := False\<rparr>)))"
| check: "sup_step s (snd (run_check w s))"
| retry: "sup_step s (snd (retry_reload now s :: (string + unit) \<times> sup))"
| preview: "sup_step s (snd (preview_result w acquired s))"

inductive_cases sup_stepE: "sup_step s s'"

inductive reachable :: "sup \<Rightarrow> bool" where
  start: "new_sup repr cfg versions env now o0 = (Inr s, o') \<Longrightarrow> reachable s"
| step: "reachable s \<Longrightarrow> sup_step s s' \<Longrightarrow> reachable s'"

lemma new_sup_idle: "new_sup repr cfg versions env now o0 = (Inr s, o') \<Longrightarrow> idle s"
proof -
  assume new: "new_sup repr cfg versions env now o0 = (Inr s, o')"
  define st0 where "st0 = new_store (to_path (cf_state_file cfg)) (cf_interval cfg) versions now"
  obtain st where st: "load_previous repr st0 o0 = (Inr st, o')"
    and s: "sv_store s = (if 0 < cf_check_interval cfg then st\<lparr>st_check := check_enabled (cf_check_interval cfg)\<rparr> else st)"
      "sv_fails s = 0" "\<not> sv_running s"
    using new by (auto simp: new_sup_def st0_def split: prod.splits sum.splits)
  have st0: "events_ok st0" "st_status st0 = ''starting''"
    unfolding st0_def by (rule new_store_ok) (simp add: new_store_def)
  have "events_ok st \<and> st_status st = ''starting''"
  proof (cases "\<exists>prev. load_document repr prev st0 = Inr st")
    case True
    then obtain prev where "load_document repr prev st0 = Inr st" ..
    then show ?thesis using st0 load_document_ok by (auto simp: load_document_def split: if_splits)
  next
    case False
    then have "st = st0" using st by (auto simp: load_previous_def split: prod.splits sum.splits option.splits pyval.splits)
    then show ?thesis using st0 by simp
  qed
  then show ?thesis using s by (auto simp: idle_def books_def events_ok_def)
qed

lemma step_idle: "sup_step s s' \<Longrightarrow> idle s \<Longrightarrow> idle s'"
proof (induction rule: sup_step.induct)
  case (run s w)
  obtain r t where t: "run_once w (sv_force s) (s\<lparr>sv_force := False\<rparr>) = (r, t)" by (cases "run_once w (sv_force s) (s\<lparr>sv_force := False\<rparr>)")
  have "books (s\<lparr>sv_force := False\<rparr>)" using run by (simp add: idle_def books_def)
  from run_once_result [OF this t] show ?case using t by (simp add: idle_def scheduled_def)
next
  case (retry s now)
  then show ?case by (auto simp: retry_reload_def idle_def books_def split: option.splits)
qed (auto intro: trigger_idle keeps_snd [OF run_check_idle] keeps_snd [OF idle.quiet_preview])

lemma reachable_idle: "reachable s \<Longrightarrow> idle s"
  by (induction rule: reachable.induct) (auto intro: new_sup_idle step_idle)

text \<open>C7. The invariant of the supervisor, in every state reached from a start by any sequence of runs, manual triggers,
  change probes, reload retries and previews: at most 50 well-formed events are kept; the failure counter is zero exactly
  while the status is \<open>ok\<close> or \<open>starting\<close>; a status \<open>ok\<close> or \<open>degraded\<close> comes with the time of a success; and no run is
  marked as running between operations.\<close>

theorem supervisor_invariant:
  assumes "reachable s"
  shows "length (st_events (sv_store s)) \<le> MAX_EVENTS
    \<and> list_all (\<lambda>e. set event_keys \<subseteq> set (keys e)) (st_events (sv_store s))
    \<and> (sv_fails s = 0 \<longleftrightarrow> st_status (sv_store s) \<in> {''ok'', ''starting''})
    \<and> (st_status (sv_store s) \<in> {''ok'', ''degraded''} \<longrightarrow> st_last_success (sv_store s) \<noteq> None)
    \<and> \<not> sv_running s"
  using reachable_idle [OF assms] by (auto simp: idle_def books_def events_ok_def list_all_iff)

text \<open>C9. Whatever happens in a cycle, the loop is scheduled again: after every run, returned or raised, the next cycle is due
  after exactly the backoff of the new failure count, at most one interval later, and the running flag is cleared.\<close>

theorem run_once_scheduled:
  assumes "reachable s" "run_once w force s = (r, s')"
  shows "sv_next_at s' = w_now w + of_int (backoff (sv_fails s') (cf_interval (sv_cfg s')))
    \<and> sv_next_at s' \<le> w_now w + of_int (cf_interval (sv_cfg s'))
    \<and> \<not> sv_running s' \<and> (r = Inr ''ok'' \<longrightarrow> sv_fails s' = 0)"
proof -
  have s: "books s" using reachable_idle [OF assms(1)] by (simp add: idle_def)
  from run_once_result [OF this assms(2)]
  have res: "scheduled (w_now w) s'" "\<not> sv_running s'" by blast+
  have "r = Inr ''ok'' \<Longrightarrow> st_status (sv_store s') = ''ok''"
    using assms(2) by (auto simp: run_once_def andthen_def bnd_app split: prod.splits sum.splits)
  moreover have "of_int (backoff n i) \<le> (of_int i :: rat)" for n i by (simp add: backoff_def)
  ultimately show ?thesis using res by (auto simp: scheduled_def books_def)
qed

lemma demo_reachable: "\<exists>s. reachable s"
proof -
  obtain r o' where new: "new_sup (\<lambda>_. []) demo_config [] [] 900 demo_sup_os = (r, o')" by fastforce
  have "\<exists>e o'. os_read (to_path (cf_state_file demo_config)) demo_sup_os = (Inl e, o')"
    by (simp add: os_read_def sys_def demo_sup_os_def demo_config_def to_path_def at_path_def parent_error_def node_at_def read_act_def
        is_dir_def max_links_def numeral_eq_Suc Let_def)
  then have "\<exists>s. r = Inr s" using new
    by (auto simp: new_sup_def load_previous_def new_store_def split: prod.splits sum.splits)
  then show ?thesis using new reachable.start by blast
qed

theorem supervisor_invariant_witness:
  "\<exists>s. reachable s \<and> length (st_events (sv_store s)) \<le> 50 \<and> (sv_fails s = 0 \<longleftrightarrow> st_status (sv_store s) \<in> {''ok'', ''starting''})"
  using demo_reachable supervisor_invariant by (metis MAX_EVENTS_def)

theorem run_once_scheduled_witness:
  "\<exists>s. reachable s \<and> \<not> sv_running (snd (run_once demo_world False s))"
  using demo_reachable run_once_scheduled by (metis prod.collapse)


end
