(* ===== verification/SS_Bitwarden.thy ===== *)
theory SS_Bitwarden
  imports SS_State
begin

text \<open>
  \<open>secrets-sync/app/providers/bitwarden.py\<close>.  The \<open>bw\<close> program is not part of the repository: its answers
  are a list in the state (\<open>bw_answers\<close>, consumed one per call, whatever they are), and every call is
  logged with its arguments and environment (\<open>bw_calls\<close>).  The debug overview, which only logs, is left out: the
  model runs at a log level above debug.
\<close>

section \<open>State\<close>

datatype bw_outcome = BwTimeout | BwNoStart | BwExit int string string

datatype bw_exn = BwError (bw_code: string) (bw_message: string) | BwExpired | BwCrash string

record bw_result =
  br_rc :: int
  br_stdout :: string
  br_locked :: bool

record bw_provider =
  bw_cfg :: "pyval dict"
  bw_env :: "string dict"
  bw_session :: "string option"
  bw_notices :: "(string \<times> string \<times> string) list"
  bw_answers :: "bw_outcome list"
  bw_calls :: "(string list \<times> string dict) list"

type_synonym 'a bw = "(bw_provider, bw_exn, 'a) prog"

definition DEFAULT_SERVER :: string where "DEFAULT_SERVER = ''https://bitwarden.com''"

definition LOCKED_MARKERS :: "string list" where "LOCKED_MARKERS = [''vault is locked'', ''not logged in'']"

definition CRED_ENV :: "(string \<times> string \<times> string) list" where
  "CRED_ENV =
     [(''client_id'', ''BW_CLIENTID'', ''bw_missing_client_id''),
      (''client_secret'', ''BW_CLIENTSECRET'', ''bw_missing_client_secret''),
      (''master_password'', ''BW_PASSWORD'', ''bw_missing_master_password'')]"

section \<open>Names\<close>

text \<open>The two translation tables of \<open>sanitise\<close>, applied one after the other, then runs of underscores collapse.\<close>

definition tr_space :: "char \<Rightarrow> char" where
  "tr_space c = (if c \<in> set ''?:&,%@-'' then CHR '' '' else c)"

definition tr_underscore :: "char \<Rightarrow> char" where
  "tr_underscore c = (if c \<in> set ''[]{}#*!|> '' then CHR ''_'' else c)"

fun squeeze :: "string \<Rightarrow> string" where
  "squeeze (c # d # s) = (if c = CHR ''_'' \<and> d = CHR ''_'' then squeeze (d # s) else c # squeeze (d # s))"
| "squeeze s = s"

definition sanitise :: "string \<Rightarrow> string" where
  "sanitise name = lower (squeeze (map (tr_underscore \<circ> tr_space) name))"

definition hex_digit_char :: "char \<Rightarrow> bool" where
  "hex_digit_char c \<longleftrightarrow> is_digit c \<or> c \<in> set ''abcdefABCDEF''"

definition uuid_shape :: "string \<Rightarrow> bool" where
  "uuid_shape s \<longleftrightarrow> map length (split_on CHR ''-'' s) = [8, 4, 4, 4, 12]
     \<and> list_all (list_all hex_digit_char) (split_on CHR ''-'' s)"

definition UUID :: "string \<Rightarrow> bool" where "UUID s \<longleftrightarrow> re_match_eol uuid_shape s"

text \<open>\<open>str(cfg.get(k) or "")\<close>, \<open>str(x)\<close> of a missing option, and \<open>casefold\<close>.\<close>

definition text_of :: "(pyval \<Rightarrow> string) \<Rightarrow> pyval \<Rightarrow> string" where
  "text_of repr v = (if truthy v then py_str repr v else [])"

definition get_or :: "pyval dict \<Rightarrow> string \<Rightarrow> pyval \<Rightarrow> pyval" where
  "get_or d k v = (case dget d k of None \<Rightarrow> v | Some x \<Rightarrow> x)"

definition casefold :: "string \<Rightarrow> string" where
  "casefold s = concat (map (\<lambda>c. if (of_char c :: nat) = 223 then ''ss'' else [lower_char c]) s)"

definition rstrip_of :: "char \<Rightarrow> string \<Rightarrow> string" where
  "rstrip_of c s = rev (dropWhile (\<lambda>x. x = c) (rev s))"

definition export_private :: "(pyval \<Rightarrow> string) \<Rightarrow> pyval list \<Rightarrow> bool" where
  "export_private repr flds = list_ex (\<lambda>fld. is_dict fld
     \<and> lower (strip (py_str repr (get_or (as_dict fld) ''name'' (PStr [])))) = ''secrets_sync_export_private_key''
     \<and> lower (strip (py_str repr (get_or (as_dict fld) ''value'' (PStr [])))) = ''true'') flds"

section \<open>Validation\<close>

definition bw_validate :: "(pyval \<Rightarrow> string) \<Rightarrow> string dict \<Rightarrow> pyval dict \<Rightarrow> problem list" where
  "bw_validate repr env cfg =
     (let url = text_of repr (vget cfg ''server_url''); notes_dir = py_str repr (get_or cfg ''notes_dir'' (PStr ''bitwarden'')) in
      (if starts_with ''https://'' url \<or> starts_with ''http://'' url then []
       else [error_problem ''bw_invalid_server_url'' ''bitwarden.server_url must be an http(s) URL''])
      @ concat (map (\<lambda>(option, env_name, code).
            if truthy (vget cfg option) \<or> (case dget env env_name of None \<Rightarrow> False | Some v \<Rightarrow> v \<noteq> []) then []
            else [error_problem code (''bitwarden.'' @ option @ '' is not set'')]) CRED_ENV)
      @ (if get_or cfg ''key_style'' (PStr ''legacy'') \<noteq> PStr ''legacy''
         then [error_problem ''bw_unsupported_key_style'' (''bitwarden.key_style must be '' @ quoted ''legacy'')] else [])
      @ (if starts_with ''/'' notes_dir \<or> bslash \<in> set notes_dir \<or> ''..'' \<in> set (split_on CHR ''/'' notes_dir)
         then [error_problem ''bw_invalid_notes_dir'' ''bitwarden.notes_dir must be a relative path''] else []))"

section \<open>Calling bw\<close>

definition child_env :: "(pyval \<Rightarrow> string) \<Rightarrow> bw_provider \<Rightarrow> string dict" where
  "child_env repr p =
     (let env = fold (\<lambda>(option, env_name, _) env.
            if (case dget env env_name of None \<Rightarrow> True | Some v \<Rightarrow> v = []) \<and> truthy (vget (bw_cfg p) option)
            then AList.update env_name (py_str repr (vget (bw_cfg p) option)) env else env) CRED_ENV (bw_env p);
          env = (if dget env ''BITWARDENCLI_APPDATA_DIR'' = None then AList.update ''BITWARDENCLI_APPDATA_DIR'' ''/data/bw'' env else env);
          env = AList.update ''NODE_NO_WARNINGS'' ''1'' (AList.update ''BW_NOINTERACTION'' ''true'' env);
          env = AList.delete ''BW_SESSION'' env in
      (case bw_session p of
         Some t \<Rightarrow> if t = [] then env else AList.update ''BW_SESSION'' t env
       | None \<Rightarrow> env))"

text \<open>One call: it is logged, and the next answer is taken; with no answer left the program cannot be started.\<close>

definition bw_run :: "(pyval \<Rightarrow> string) \<Rightarrow> string list \<Rightarrow> bw_result bw" where
  "bw_run repr args = (\<lambda>p.
     let p' = p\<lparr>bw_calls := bw_calls p @ [(args, child_env repr p)], bw_answers := tl (bw_answers p)\<rparr> in
     case bw_answers p of
       [] \<Rightarrow> (Inl (BwError ''bw_not_found'' ''bw executable cannot be started''), p')
     | BwNoStart # _ \<Rightarrow> (Inl (BwError ''bw_not_found'' ''bw executable cannot be started''), p')
     | BwTimeout # _ \<Rightarrow> (Inl (BwError ''bw_timeout'' (''bw '' @ hd args @ '' timed out'')), p')
     | BwExit rc out err # _ \<Rightarrow>
         (Inr \<lparr>br_rc = rc, br_stdout = out,
               br_locked = (rc \<noteq> 0 \<and> list_ex (\<lambda>m. contains m (lower err)) LOCKED_MARKERS)\<rparr>, p'))"

definition norm_url :: "(pyval \<Rightarrow> string) \<Rightarrow> pyval \<Rightarrow> string" where
  "norm_url repr url = rstrip_of CHR ''/'' (if truthy url then py_str repr url else DEFAULT_SERVER)"

definition fail :: "string \<Rightarrow> string \<Rightarrow> 'a bw" where
  "fail code message = raise (BwError code message)"

definition bw_status :: "(pyval \<Rightarrow> string) \<Rightarrow> pyval dict bw" where
  "bw_status repr = bnd (bw_run repr [''status'']) (\<lambda>res.
     if br_rc res \<noteq> 0 then fail ''bw_auth_failed'' ''bw status failed''
     else (case json_loads (br_stdout res) of
         None \<Rightarrow> fail ''bw_invalid_json'' ''bw status returned invalid JSON''
       | Some (PDict d) \<Rightarrow> ret d
       | Some _ \<Rightarrow> fail ''bw_invalid_json'' ''bw status returned unexpected JSON''))"

definition set_session :: "string option \<Rightarrow> unit bw" where
  "set_session t = modify (\<lambda>p. p\<lparr>bw_session := t\<rparr>)"

text \<open>A call whose failure is an error with the given code and message.\<close>

definition bw_must :: "(pyval \<Rightarrow> string) \<Rightarrow> string list \<Rightarrow> string \<Rightarrow> string \<Rightarrow> unit bw" where
  "bw_must repr args code message =
     bnd (bw_run repr args) (\<lambda>res. if br_rc res \<noteq> 0 then fail code message else ret ())"

definition login_message :: "string \<Rightarrow> string" where
  "login_message server = ''bw login failed on server '' @ server @ '': check server_url, client_id, client_secret''"

definition unlock_args :: "string list" where
  "unlock_args = [''unlock'', ''--passwordenv'', ''BW_PASSWORD'', ''--raw'']"

definition relogin_unlock :: "(pyval \<Rightarrow> string) \<Rightarrow> string \<Rightarrow> string bw" where
  "relogin_unlock repr server =
     andthen (set_session None)
     (bnd (bw_run repr [''logout'']) (\<lambda>_.
      andthen (bw_must repr [''config'', ''server'', server] ''bw_auth_failed'' ''bw config server failed'')
      (andthen (bw_must repr [''login'', ''--apikey''] ''bw_auth_failed'' (login_message server))
      (bnd (bw_run repr unlock_args) (\<lambda>res.
        let token = strip (br_stdout res) in
        if br_rc res \<noteq> 0 \<or> token = []
        then fail ''bw_unlock_failed'' ''bw unlock failed after a fresh login: check master_password''
        else ret token)))))"

definition switch_server :: "(pyval \<Rightarrow> string) \<Rightarrow> string \<Rightarrow> pyval \<Rightarrow> pyval bw" where
  "switch_server repr want state =
     andthen (when_do (state \<noteq> PStr ''unauthenticated'')
        (andthen (bw_must repr [''logout''] ''bw_auth_failed'' ''bw logout failed'') (set_session None)))
      (andthen (bw_must repr [''config'', ''server'', want] ''bw_auth_failed'' ''bw config server failed'')
        (ret (PStr ''unauthenticated'')))"

definition ensure_session :: "(pyval \<Rightarrow> string) \<Rightarrow> unit bw" where
  "ensure_session repr =
     bnd (bw_status repr) (\<lambda>status.
     bnd (gets (\<lambda>p. norm_url repr (vget (bw_cfg p) ''server_url''))) (\<lambda>want.
     bnd (if norm_url repr (vget status ''serverUrl'') \<noteq> want then switch_server repr want (vget status ''status'')
          else ret (vget status ''status'')) (\<lambda>state.
     bnd (if state = PStr ''unauthenticated''
          then andthen (bw_must repr [''login'', ''--apikey''] ''bw_auth_failed'' (login_message want))
                 (andthen (set_session None) (ret (PStr ''locked'')))
          else ret state) (\<lambda>state.
     bnd (gets bw_session) (\<lambda>session.
       if session = None \<or> state \<noteq> PStr ''unlocked''
       then andthen (set_session None)
         (bnd (bw_run repr unlock_args) (\<lambda>res.
            let token = strip (br_stdout res) in
            bnd (if br_rc res \<noteq> 0 \<or> token = [] then relogin_unlock repr want else ret token)
              (\<lambda>token. set_session (Some token))))
       else ret ())))))"

definition json_list :: "(pyval \<Rightarrow> string) \<Rightarrow> string list \<Rightarrow> pyval dict list option bw" where
  "json_list repr args = bnd (bw_run repr args) (\<lambda>res.
     ret (if br_rc res \<noteq> 0 then None
          else (case json_loads (br_stdout res) of
              Some (PList vs) \<Rightarrow> Some (map as_dict (filter is_dict vs))
            | _ \<Rightarrow> None)))"

text \<open>A UUID, or the display name of an organization or collection.\<close>

definition name_hits :: "(string \<Rightarrow> bool) \<Rightarrow> pyval dict list \<Rightarrow> pyval dict list" where
  "name_hits ok found = filter (\<lambda>f. case vget f ''name'' of PStr n \<Rightarrow> ok n | _ \<Rightarrow> False) found"

definition pick_hit :: "(pyval \<Rightarrow> string) \<Rightarrow> string \<Rightarrow> string \<Rightarrow> string \<Rightarrow> pyval dict list \<Rightarrow> string option bw" where
  "pick_hit repr option what wanted hits =
     (case hits of
        [] \<Rightarrow> ret None
      | [f] \<Rightarrow> ret (Some (py_str repr (vget f ''id'')))
      | _ \<Rightarrow> fail (''bw_'' @ option @ ''_ambiguous'') (option @ '' '' @ quoted wanted @ '' matches '' @ nat_str (length hits) @ '' '' @ what
               @ ''; use the UUID (log_level debug lists the ids)''))"

definition resolve_id :: "(pyval \<Rightarrow> string) \<Rightarrow> string \<Rightarrow> string \<Rightarrow> string option \<Rightarrow> string option bw" where
  "resolve_id repr option what org_id =
     bnd (gets (\<lambda>p. strip (text_of repr (vget (bw_cfg p) option)))) (\<lambda>wanted.
     if wanted = [] then ret None
     else if UUID wanted then ret (Some wanted)
     else bnd (json_list repr [''list'', what]) (\<lambda>res. case res of
         None \<Rightarrow> fail ''bw_list_failed'' (''bw list '' @ what @ '' failed (needed to resolve '' @ option @ '')'')
       | Some all \<Rightarrow>
           let found = (case org_id of Some i \<Rightarrow> if i = [] then all else filter (\<lambda>f. vget f ''organizationId'' = PStr i) all | None \<Rightarrow> all) in
           bnd (pick_hit repr option what wanted (name_hits (\<lambda>n. n = wanted) found)) (\<lambda>hit. case hit of
             Some i \<Rightarrow> ret (Some i)
           | None \<Rightarrow> bnd (pick_hit repr option what wanted (name_hits (\<lambda>n. casefold n = casefold wanted) found)) (\<lambda>hit. case hit of
               Some i \<Rightarrow> ret (Some i)
             | None \<Rightarrow>
                 let names = join '', '' (map (\<lambda>f. repr (vget f ''name'')) found) in
                 fail (''bw_'' @ option @ ''_not_found'')
                   (option @ '' '' @ quoted wanted @ '' not found; the service user sees these '' @ what @ '': ''
                    @ (if names = [] then ''none'' else names))))))"

section \<open>From items to a snapshot\<close>

text \<open>
  The dynamic operations that can raise: \<open>x or {}\<close> followed by \<open>.get\<close> needs a dictionary, \<open>for y in (x or [])\<close>
  something that can be iterated (a text or a dictionary yields no dictionary).
\<close>

definition dict_or_empty :: "pyval \<Rightarrow> bw_exn + pyval dict" where
  "dict_or_empty v = (if \<not> truthy v then Inr [] else (case v of PDict d \<Rightarrow> Inr d | _ \<Rightarrow> Inl (BwCrash ''AttributeError'')))"

definition dicts_in :: "pyval \<Rightarrow> bw_exn + pyval dict list" where
  "dicts_in v = (if iterable v then Inr (map as_dict (filter is_dict (as_list v))) else Inl (BwCrash ''TypeError''))"

record build_state =
  bs_secrets :: "string dict"
  bs_owners :: "string dict"
  bs_files :: "bytes dict"
  bs_file_owners :: "string dict"
  bs_skipped :: nat
  bs_revisions :: "string list"

definition put :: "(pyval \<Rightarrow> string) \<Rightarrow> string \<Rightarrow> string \<times> pyval \<Rightarrow> build_state \<Rightarrow> bw_exn + build_state" where
  "put repr item_name kv b =
     (let (key, value) = kv in
      if value = PNone \<or> value = PStr [] then Inr b
      else (case dget (bs_owners b) key of
          Some owner \<Rightarrow> Inl (BwError ''key_collision''
            (''key '' @ quoted key @ '' produced by items '' @ quoted owner @ '' and '' @ quoted item_name))
        | None \<Rightarrow> Inr (b\<lparr>bs_owners := AList.update key item_name (bs_owners b),
            bs_secrets := AList.update key (py_str repr value) (bs_secrets b)\<rparr>)))"

definition puts :: "(pyval \<Rightarrow> string) \<Rightarrow> string \<Rightarrow> (string \<times> pyval) list \<Rightarrow> build_state \<Rightarrow> bw_exn + build_state" where
  "puts repr item_name kvs b = fold_sum (put repr item_name) kvs b"

text \<open>The keys a login item produces: credentials and notes, numbered addresses, custom fields.\<close>

fun numbered :: "string \<Rightarrow> nat \<Rightarrow> pyval list \<Rightarrow> (string \<times> pyval) list" where
  "numbered base n [] = []"
| "numbered base n (u # us) = (base @ ''_uri_'' @ nat_str n, u) # numbered base (Suc n) us"

definition login_entries :: "string \<Rightarrow> pyval dict \<Rightarrow> pyval dict \<Rightarrow> (string \<times> pyval) list" where
  "login_entries base login item =
     [(base @ ''_username'', vget login ''username''), (base @ ''_password'', vget login ''password''), (base @ ''_notes'', vget item ''notes'')]"

definition field_entries :: "string \<Rightarrow> pyval dict list \<Rightarrow> (string \<times> pyval) list" where
  "field_entries base flds = concat (map (\<lambda>f. case vget f ''name'' of
     PStr n \<Rightarrow> [(base @ ''_'' @ sanitise n, vget f ''value'')] | _ \<Rightarrow> []) flds)"

text \<open>\<open>os.path.splitext(name)[1] != ""\<close> for a name without separators: a dot after the leading dots.\<close>

definition has_extension :: "string \<Rightarrow> bool" where
  "has_extension name \<longleftrightarrow> CHR ''.'' \<in> set (dropWhile (\<lambda>c. c = CHR ''.'') name)"

definition note_path :: "string \<Rightarrow> string \<Rightarrow> string" where
  "note_path notes_dir base =
     (let fname = map (\<lambda>c. if c = CHR ''/'' \<or> c = bslash then CHR ''_'' else c) base;
          fname = (if has_extension fname then fname else fname @ ''.txt'') in
      if notes_dir = [] then fname else notes_dir @ ''/'' @ fname)"

definition add_note :: "(pyval \<Rightarrow> string) \<Rightarrow> string \<Rightarrow> string \<Rightarrow> pyval \<Rightarrow> build_state \<Rightarrow> bw_exn + build_state" where
  "add_note repr path item_name note b =
     (case dget (bs_file_owners b) path of
        Some owner \<Rightarrow> Inl (BwError ''key_collision''
          (''file '' @ quoted path @ '' produced by notes '' @ quoted owner @ '' and '' @ quoted item_name))
      | None \<Rightarrow> Inr (b\<lparr>bs_file_owners := AList.update path item_name (bs_file_owners b),
          bs_files := AList.update path (utf8_encode (py_str repr note)) (bs_files b)\<rparr>))"

text \<open>\<open>kind == n\<close> for an integer (True equals 1; a float with that value equals it too).\<close>

definition equals_int :: "pyval \<Rightarrow> nat \<Rightarrow> bool" where
  "equals_int v n \<longleftrightarrow> (case v of PInt i \<Rightarrow> i = int n | PBool b \<Rightarrow> n = (if b then 1 else 0) | PFloat l \<Rightarrow> l = nat_str n @ ''.0'' | _ \<Rightarrow> False)"

definition build_item :: "(pyval \<Rightarrow> string) \<Rightarrow> string \<Rightarrow> pyval \<Rightarrow> build_state \<Rightarrow> bw_exn + build_state" where
  "build_item repr notes_dir v b =
     (case v of
        PDict item \<Rightarrow>
          (case vget item ''name'' of
             PStr item_name \<Rightarrow>
               (let b = (case vget item ''revisionDate'' of PStr r \<Rightarrow> b\<lparr>bs_revisions := bs_revisions b @ [r]\<rparr> | _ \<Rightarrow> b);
                    base = sanitise item_name; kind = vget item ''type'' in
                if equals_int kind 1 then
                  sbind (dict_or_empty (vget item ''login'')) (\<lambda>login.
                  sbind (puts repr item_name (login_entries base login item) b) (\<lambda>b.
                  sbind (dicts_in (vget login ''uris'')) (\<lambda>uris.
                  sbind (puts repr item_name (numbered base 1 (map (\<lambda>u. vget u ''uri'') uris)) b) (\<lambda>b.
                  sbind (dicts_in (vget item ''fields'')) (\<lambda>flds.
                  puts repr item_name (field_entries base flds) b)))))
                else if equals_int kind 2 then
                  (if truthy (vget item ''notes'')
                   then add_note repr (note_path notes_dir base) item_name (vget item ''notes'') b else Inr b)
                else if equals_int kind 5 then
                  sbind (dict_or_empty (vget item ''sshKey'')) (\<lambda>ssh.
                  sbind (puts repr item_name [(base @ ''_public_key'', vget ssh ''publicKey'')] b) (\<lambda>b.
                  sbind (dicts_in (vget item ''fields'')) (\<lambda>flds.
                  if export_private repr (map PDict flds)
                  then puts repr item_name [(base @ ''_private_key'', vget ssh ''privateKey'')] b else Inr b)))
                else Inr (b\<lparr>bs_skipped := Suc (bs_skipped b)\<rparr>))
           | _ \<Rightarrow> Inr b)
      | _ \<Rightarrow> Inr b)"

definition new_build :: build_state where
  "new_build = \<lparr>bs_secrets = [], bs_owners = [], bs_files = [], bs_file_owners = [], bs_skipped = 0, bs_revisions = []\<rparr>"

definition max_revision :: "string list \<Rightarrow> string" where
  "max_revision rs = (case rs of [] \<Rightarrow> [] | r # rs \<Rightarrow> fold max rs r)"

definition add_notice :: "string \<times> string \<times> string \<Rightarrow> unit bw" where
  "add_notice n = modify (\<lambda>p. p\<lparr>bw_notices := bw_notices p @ [n]\<rparr>)"

definition build_snapshot :: "(pyval \<Rightarrow> string) \<Rightarrow> pyval list \<Rightarrow> snapshot bw" where
  "build_snapshot repr items =
     bnd (gets (\<lambda>p. strip_of CHR ''/'' (py_str repr (get_or (bw_cfg p) ''notes_dir'' (PStr ''bitwarden''))))) (\<lambda>notes_dir.
     bnd (of_sum (fold_sum (build_item repr notes_dir) items new_build)) (\<lambda>b.
       andthen (when_do (bs_skipped b \<noteq> 0)
          (add_notice (''info'', ''item_skipped'', nat_str (bs_skipped b) @ '' card/identity items skipped'')))
        (ret \<lparr>snap_secrets = bs_secrets b, snap_files = bs_files b, snap_revision = max_revision (bs_revisions b), snap_check = []\<rparr>)))"

section \<open>Fetching\<close>

definition is_inactive :: "pyval \<Rightarrow> bool" where
  "is_inactive v \<longleftrightarrow> is_dict v \<and> (truthy (vget (as_dict v) ''archivedDate'') \<or> truthy (vget (as_dict v) ''deletedDate''))"

definition bw_notices_for :: "pyval list \<Rightarrow> bool \<Rightarrow> unit bw" where
  "bw_notices_for items filtered =
     (let active = filter (\<lambda>i. \<not> is_inactive i) items; inactive = length items - length active in
      andthen (when_do (inactive \<noteq> 0)
          (add_notice (''info'', ''item_inactive'', nat_str inactive @ '' archived/trashed items ignored'')))
        (when_do (active = [] \<and> filtered \<and> inactive = 0)
          (add_notice (''warning'', ''bw_filter_empty'', ''the organization/collection filter matched no ''
            @ ''items: check organization_id / collection_id (log_level debug lists what is visible)''))))"

definition list_args :: "string option \<Rightarrow> string option \<Rightarrow> string list" where
  "list_args org coll = [''list'', ''items'']
     @ (case org of Some i \<Rightarrow> if i = [] then [] else [''--organizationid'', i] | None \<Rightarrow> [])
     @ (case coll of Some i \<Rightarrow> if i = [] then [] else [''--collectionid'', i] | None \<Rightarrow> [])"

definition fetch_once :: "(pyval \<Rightarrow> string) \<Rightarrow> snapshot bw" where
  "fetch_once repr =
     andthen (ensure_session repr)
     (bnd (bw_run repr [''sync'']) (\<lambda>synced.
      if br_locked synced then raise BwExpired
      else if br_rc synced \<noteq> 0 then fail ''bw_sync_failed'' ''bw sync failed''
      else bnd (resolve_id repr ''organization_id'' ''organizations'' None) (\<lambda>org.
       bnd (resolve_id repr ''collection_id'' ''collections'' org) (\<lambda>coll.
       bnd (bw_run repr (list_args org coll)) (\<lambda>listed.
         if br_locked listed then raise BwExpired
         else if br_rc listed \<noteq> 0 then fail ''bw_list_failed'' ''bw list items failed''
         else (case json_loads (br_stdout listed) of
             None \<Rightarrow> fail ''bw_invalid_json'' ''bw list returned invalid JSON''
           | Some (PList items) \<Rightarrow>
               andthen (bw_notices_for items (2 < length (list_args org coll)))
                 (build_snapshot repr (filter (\<lambda>i. \<not> is_inactive i) items))
           | Some _ \<Rightarrow> fail ''bw_invalid_json'' ''bw list returned unexpected JSON''))))))"

definition bw_fetch :: "(pyval \<Rightarrow> string) \<Rightarrow> snapshot bw" where
  "bw_fetch repr =
     andthen (modify (\<lambda>p. p\<lparr>bw_notices := []\<rparr>))
      (catch (fetch_once repr) (\<lambda>e. if e = BwExpired
         then andthen (set_session None)
           (catch (fetch_once repr) (\<lambda>e. if e = BwExpired
              then andthen (set_session None) (fail ''bw_auth_failed'' ''bitwarden session expired twice'')
              else raise e))
         else raise e))"

end
