(* ===== verification/SS_Bitwarden_Proofs.thy ===== *)
theory SS_Bitwarden_Proofs
  imports SS_Bitwarden
begin

text \<open>
  The Bitwarden provider: which commands it runs and how many, and which secrets a list of items produces.
\<close>

section \<open>The commands\<close>

text \<open>The argument lists the provider may pass: fixed words, the configured server and identifiers, nothing else.\<close>

definition safe_argv :: "(pyval \<Rightarrow> string) \<Rightarrow> pyval dict \<Rightarrow> string list \<Rightarrow> bool" where
  "safe_argv repr cfg args \<longleftrightarrow>
     args \<in> {[''status''], [''logout''], [''login'', ''--apikey''], unlock_args, [''sync''], [''list'', ''organizations''], [''list'', ''collections'']}
     \<or> args = [''config'', ''server'', norm_url repr (vget cfg ''server_url'')]
     \<or> (\<exists>org coll. args = list_args org coll)"

text \<open>After a state with at most \<open>k\<close> calls: all of them safe, for an unchanged configuration.\<close>

definition called :: "(pyval \<Rightarrow> string) \<Rightarrow> pyval dict \<Rightarrow> nat \<Rightarrow> bw_provider \<Rightarrow> bool" where
  "called repr c k p \<longleftrightarrow> bw_cfg p = c \<and> length (bw_calls p) \<le> k \<and> list_all (\<lambda>(args, env). safe_argv repr c args) (bw_calls p)"

lemma called_mono: "called repr c k p \<Longrightarrow> k \<le> l \<Longrightarrow> called repr c l p"
  by (simp add: called_def)

lemma called_quiet: "(\<And>p. bw_cfg (f p) = bw_cfg p \<and> bw_calls (f p) = bw_calls p) \<Longrightarrow>
  valid (called repr c k) (modify f) (\<lambda>_. called repr c k) E"
  by (simp add: valid_def called_def)

text \<open>A step that makes at most \<open>n\<close> safe calls, however it ends.\<close>

definition calls_at_most :: "nat \<Rightarrow> (pyval \<Rightarrow> string) \<Rightarrow> pyval dict \<Rightarrow> 'a bw \<Rightarrow> bool" where
  "calls_at_most n repr c m \<longleftrightarrow> (\<forall>k. valid (called repr c k) m (\<lambda>_. called repr c (k + n)) (\<lambda>_. called repr c (k + n)))"

named_theorems calls

lemma calls_mono: "calls_at_most n repr c m \<Longrightarrow> n \<le> l \<Longrightarrow> calls_at_most l repr c m"
  unfolding calls_at_most_def by (auto elim!: valid_weaken called_mono)

lemma calls_bnd [calls]:
  assumes "calls_at_most a repr c m" "\<And>x. calls_at_most b repr c (f x)"
  shows "calls_at_most (a + b) repr c (bnd m f)"
  unfolding calls_at_most_def
proof (rule allI, rule valid_bnd)
  fix k
  have "valid (called repr c k) m (\<lambda>_. called repr c (k + a)) (\<lambda>_. called repr c (k + a))"
    using assms(1) by (simp add: calls_at_most_def)
  then show "valid (called repr c k) m (\<lambda>_. called repr c (k + a)) (\<lambda>_. called repr c (k + (a + b)))"
    by (rule valid_exn) (erule called_mono, simp)
  fix x
  show "valid (called repr c (k + a)) (f x) (\<lambda>_. called repr c (k + (a + b))) (\<lambda>_. called repr c (k + (a + b)))"
    using assms(2) [of x] by (simp add: calls_at_most_def add.assoc [symmetric])
qed

lemma calls_andthen: "calls_at_most a repr c m \<Longrightarrow> calls_at_most b repr c n \<Longrightarrow> calls_at_most (a + b) repr c (andthen m n)"
  unfolding andthen_def by (rule calls_bnd)

lemma calls_catch:
  assumes "calls_at_most a repr c m" "\<And>e. calls_at_most b repr c (h e)"
  shows "calls_at_most (a + b) repr c (catch m h)"
  unfolding calls_at_most_def
proof (rule allI, rule valid_catch)
  fix k
  have "valid (called repr c k) m (\<lambda>_. called repr c (k + a)) (\<lambda>_. called repr c (k + a))"
    using assms(1) by (simp add: calls_at_most_def)
  then show "valid (called repr c k) m (\<lambda>_. called repr c (k + (a + b))) (\<lambda>_. called repr c (k + a))"
    by (rule valid_weaken) (auto elim: called_mono)
  fix e
  show "valid (called repr c (k + a)) (h e) (\<lambda>_. called repr c (k + (a + b))) (\<lambda>_. called repr c (k + (a + b)))"
    using assms(2) [of e] by (simp add: calls_at_most_def add.assoc [symmetric])
qed

lemma calls_if: "calls_at_most a repr c m \<Longrightarrow> calls_at_most a repr c n \<Longrightarrow> calls_at_most a repr c (if b then m else n)"
  by simp

lemma calls_pure [simp]:
  "calls_at_most n repr c (ret x)" "calls_at_most n repr c (raise e)" "calls_at_most n repr c (fail code msg)"
  "calls_at_most n repr c (gets g)" "calls_at_most n repr c (of_sum r)" "calls_at_most n repr c (set_session t)"
  "calls_at_most n repr c (add_notice nt)" "calls_at_most n repr c (Pair r)"
  by (auto simp: calls_at_most_def valid_def called_def fail_def set_session_def add_notice_def split: sum.splits)

lemma calls_when: "calls_at_most a repr c m \<Longrightarrow> calls_at_most a repr c (when_do b m)"
  by (cases b) simp_all

lemma calls_run: "safe_argv repr c args \<Longrightarrow> calls_at_most 1 repr c (bw_run repr args)"
  by (auto simp: calls_at_most_def valid_def called_def bw_run_def Let_def split: list.splits bw_outcome.splits)

lemma calls_must: "safe_argv repr c args \<Longrightarrow> calls_at_most 1 repr c (bw_must repr args code msg)"
  unfolding bw_must_def by (rule calls_mono [OF calls_bnd [OF calls_run, where b = 0]]) simp_all

lemma safe_args [simp]:
  "safe_argv repr c [''status'']" "safe_argv repr c [''logout'']" "safe_argv repr c [''login'', ''--apikey'']"
  "safe_argv repr c unlock_args" "safe_argv repr c [''sync'']" "safe_argv repr c [''list'', ''organizations'']"
  "safe_argv repr c [''list'', ''collections'']" "safe_argv repr c (list_args org coll)"
  "safe_argv repr c [''config'', ''server'', norm_url repr (vget c ''server_url'')]"
  by (auto simp: safe_argv_def)

lemma calls_relogin: "calls_at_most 4 repr c (relogin_unlock repr (norm_url repr (vget c ''server_url'')))"
proof -
  have "calls_at_most (0 + (1 + (1 + (1 + (1 + 0))))) repr c (relogin_unlock repr (norm_url repr (vget c ''server_url'')))"
    unfolding relogin_unlock_def by (intro calls_bnd calls_andthen calls_run calls_must) (simp_all add: Let_def)
  then show ?thesis by (rule calls_mono) simp
qed

lemma calls_gets:
  assumes "\<And>p. bw_cfg p = c \<Longrightarrow> calls_at_most n repr c (f (g p))"
  shows "calls_at_most n repr c (bnd (gets g) f)"
  using assms by (auto simp: calls_at_most_def valid_def called_def bnd_app)

lemma calls_status: "calls_at_most 1 repr c (bw_status repr)"
  unfolding bw_status_def
  by (rule calls_mono [OF calls_bnd [OF calls_run, where b = 0]]) (auto split: option.splits pyval.splits)

lemma calls_switch: "calls_at_most 2 repr c (switch_server repr (norm_url repr (vget c ''server_url'')) state)"
proof -
  have "calls_at_most ((1 + 0) + (1 + 0)) repr c (switch_server repr (norm_url repr (vget c ''server_url'')) state)"
    unfolding switch_server_def by (intro calls_andthen calls_when calls_must) simp_all
  then show ?thesis by (rule calls_mono) simp
qed

lemma calls_ensure: "calls_at_most 9 repr c (ensure_session repr)"
proof -
  let ?w = "norm_url repr (vget c ''server_url'')"
  have unlock: "calls_at_most 5 repr c (andthen (set_session None)
         (bnd (bw_run repr unlock_args) (\<lambda>res.
            let token = strip (br_stdout res) in
            bnd (if br_rc res \<noteq> 0 \<or> token = [] then relogin_unlock repr ?w else ret token)
              (\<lambda>token. set_session (Some token)))))"
  proof -
    have "calls_at_most (0 + (1 + (4 + 0))) repr c (andthen (set_session None)
         (bnd (bw_run repr unlock_args) (\<lambda>res.
            let token = strip (br_stdout res) in
            bnd (if br_rc res \<noteq> 0 \<or> token = [] then relogin_unlock repr ?w else ret token)
              (\<lambda>token. set_session (Some token)))))"
      unfolding Let_def by (intro calls_andthen calls_bnd calls_run calls_if calls_relogin) simp_all
    then show ?thesis by (rule calls_mono) simp
  qed
  have login: "calls_at_most 1 repr c (if state = PStr ''unauthenticated''
          then andthen (bw_must repr [''login'', ''--apikey''] ''bw_auth_failed'' (login_message ?w))
                 (andthen (set_session None) (ret (PStr ''locked'')))
          else ret state)" for state
    by (rule calls_mono [OF calls_if [OF calls_andthen [OF calls_must calls_andthen [where a = 0 and b = 0]]]]) simp_all
  have "calls_at_most (1 + (2 + (1 + 5))) repr c (ensure_session repr)"
    unfolding ensure_session_def
  proof (rule calls_bnd [OF calls_status], rule calls_gets)
    fix status p assume "bw_cfg p = c"
    then show "calls_at_most (2 + (1 + 5)) repr c
       (bnd (if norm_url repr (vget status ''serverUrl'') \<noteq> norm_url repr (vget (bw_cfg p) ''server_url'')
          then switch_server repr (norm_url repr (vget (bw_cfg p) ''server_url'')) (vget status ''status'')
          else ret (vget status ''status'')) (\<lambda>state.
       bnd (if state = PStr ''unauthenticated''
          then andthen (bw_must repr [''login'', ''--apikey''] ''bw_auth_failed'' (login_message (norm_url repr (vget (bw_cfg p) ''server_url''))))
                 (andthen (set_session None) (ret (PStr ''locked'')))
          else ret state) (\<lambda>state.
       bnd (gets bw_session) (\<lambda>session.
       if session = None \<or> state \<noteq> PStr ''unlocked''
       then andthen (set_session None)
         (bnd (bw_run repr unlock_args) (\<lambda>res.
            let token = strip (br_stdout res) in
            bnd (if br_rc res \<noteq> 0 \<or> token = [] then relogin_unlock repr (norm_url repr (vget (bw_cfg p) ''server_url'')) else ret token)
              (\<lambda>token. set_session (Some token))))
       else ret ()))))"
      by (simp only:) (intro calls_bnd calls_if calls_switch login calls_gets unlock calls_pure)
  qed
  then show ?thesis by (rule calls_mono) simp
qed

lemma calls_pick [simp]: "calls_at_most n repr c (pick_hit repr option what wanted hits)"
  by (auto simp: pick_hit_def split: list.splits)

lemma calls_resolve:
  assumes "what \<in> {''organizations'', ''collections''}"
  shows "calls_at_most 1 repr c (resolve_id repr option what org)"
proof -
  have list: "calls_at_most 1 repr c (json_list repr [''list'', what])"
    unfolding json_list_def by (rule calls_mono [OF calls_bnd [OF calls_run, where b = 0]]) (use assms in auto)
  have pick: "calls_at_most 0 repr c (bnd (pick_hit repr option what wanted a) f)" if "\<And>x. calls_at_most 0 repr c (f x)" for a f and wanted
    by (rule calls_mono [OF calls_bnd [where a = 0 and b = 0]]) (use that in simp_all)
  have hit: "calls_at_most 0 repr c (case h of Some i \<Rightarrow> ret (Some i) | None \<Rightarrow> m)" if "calls_at_most 0 repr c m"
    for h :: "string option" and m using that by (simp split: option.split)
  have some: "calls_at_most 0 repr c (case res of None \<Rightarrow> fail code msg | Some all \<Rightarrow> g all)" if "\<And>all. calls_at_most 0 repr c (g all)"
    for res :: "pyval dict list option" and code msg g using that by (cases res) (simp_all only: option.case calls_pure)
  show ?thesis unfolding resolve_id_def Let_def
    by (rule calls_gets, intro calls_if calls_pure(1), rule calls_mono [OF calls_bnd [OF list, where b = 0]])
      (intro some pick hit calls_pure(1,3), simp only: le_refl add_0_right)
qed

lemma calls_build: "calls_at_most 0 repr c (build_snapshot repr items)"
proof -
  have "calls_at_most (0 + (0 + (0 + 0))) repr c (build_snapshot repr items)"
    unfolding build_snapshot_def by (intro calls_bnd calls_andthen calls_when calls_pure)
  then show ?thesis by simp
qed

lemma calls_notices: "calls_at_most 0 repr c (bw_notices_for items b)"
proof -
  have "calls_at_most (0 + 0) repr c (bw_notices_for items b)"
    unfolding bw_notices_for_def Let_def by (intro calls_andthen calls_when calls_pure)
  then show ?thesis by simp
qed

lemma calls_fetch_once: "calls_at_most 13 repr c (fetch_once repr)"
proof -
  have "calls_at_most 0 repr c (andthen (bw_notices_for items b) (build_snapshot repr items'))" for items b items'
    using calls_andthen [OF calls_notices calls_build, of repr c] by simp
  then have items: "calls_at_most 0 repr c (case json_loads out of
             None \<Rightarrow> fail ''bw_invalid_json'' ''bw list returned invalid JSON''
           | Some (PList items) \<Rightarrow>
               andthen (bw_notices_for items b)
                 (build_snapshot repr (filter (\<lambda>i. \<not> is_inactive i) items))
           | Some _ \<Rightarrow> fail ''bw_invalid_json'' ''bw list returned unexpected JSON'')" for out b
    by (auto split: option.splits pyval.splits)
  have "calls_at_most (9 + (1 + (1 + (1 + (1 + 0))))) repr c (fetch_once repr)"
    unfolding fetch_once_def
    by (intro calls_andthen [OF calls_ensure] calls_bnd calls_run calls_if calls_resolve items calls_pure) simp_all
  then show ?thesis by (rule calls_mono) simp
qed

lemma calls_fetch: "calls_at_most 26 repr c (bw_fetch repr)"
proof -
  have "calls_at_most (0 + (13 + (0 + (13 + (0 + 0))))) repr c (bw_fetch repr)"
    unfolding bw_fetch_def
    by (intro calls_andthen calls_catch calls_fetch_once calls_if calls_pure) 
       (auto simp: calls_at_most_def valid_def called_def)
  then show ?thesis by (rule calls_mono) simp
qed


section \<open>The secrets of a snapshot\<close>

text \<open>The reference: the candidate entries of one item, in order, with nothing said about collisions or errors.\<close>

definition item_entries :: "(pyval \<Rightarrow> string) \<Rightarrow> pyval \<Rightarrow> (string \<times> pyval) list" where
  "item_entries repr v =
     (case vget (as_dict v) ''name'' of
        PStr n \<Rightarrow>
          (let item = as_dict v; base = sanitise n; kind = vget item ''type''; flds = map as_dict (filter is_dict (as_list (vget item ''fields''))) in
           if equals_int kind 1 then
             (let login = as_dict (vget item ''login'') in
              login_entries base login item
              @ numbered base 1 (map (\<lambda>u. vget u ''uri'') (map as_dict (filter is_dict (as_list (vget login ''uris'')))))
              @ field_entries base flds)
           else if equals_int kind 2 then []
           else if equals_int kind 5 then
             (base @ ''_public_key'', vget (as_dict (vget item ''sshKey'')) ''publicKey'')
             # (if export_private repr (map PDict flds) then [(base @ ''_private_key'', vget (as_dict (vget item ''sshKey'')) ''privateKey'')] else [])
           else [])
      | _ \<Rightarrow> [])"

definition present :: "(pyval \<Rightarrow> string) \<Rightarrow> (string \<times> pyval) list \<Rightarrow> string dict" where
  "present repr kvs = map (\<lambda>(k, v). (k, py_str repr v)) (filter (\<lambda>(k, v). v \<noteq> PNone \<and> v \<noteq> PStr []) kvs)"

lemma present_append [simp]: "present repr (xs @ ys) = present repr xs @ present repr ys" and present_Nil [simp]: "present repr [] = []"
  by (simp_all add: present_def)

definition tracked :: "build_state \<Rightarrow> bool" where
  "tracked b \<longleftrightarrow> keys (bs_owners b) = keys (bs_secrets b) \<and> distinct (keys (bs_secrets b))"

text \<open>\<open>grows kvs b b'\<close>: the step from \<open>b\<close> to \<open>b'\<close> appends exactly the non-empty values of \<open>kvs\<close>, all under new keys.\<close>

definition grows :: "(pyval \<Rightarrow> string) \<Rightarrow> (string \<times> pyval) list \<Rightarrow> build_state \<Rightarrow> build_state \<Rightarrow> bool" where
  "grows repr kvs b b' \<longleftrightarrow> tracked b' \<and> bs_secrets b' = bs_secrets b @ present repr kvs"

lemma update_new: "k \<notin> set (keys d) \<Longrightarrow> AList.update k v d = d @ [(k, v)]"
  by (induction d) auto

lemma put_grows: "tracked b \<Longrightarrow> put repr n kv b = Inr b' \<Longrightarrow> grows repr [kv] b b'"
  by (cases kv) (auto simp: put_def grows_def tracked_def present_def dget_None_iff update_new split: if_splits option.splits)

lemma grows_trans: "grows repr xs a b \<Longrightarrow> grows repr ys b c \<Longrightarrow> grows repr (xs @ ys) a c"
  by (simp add: grows_def)

lemma puts_grows: "tracked b \<Longrightarrow> puts repr n kvs b = Inr b' \<Longrightarrow> grows repr kvs b b'"
proof (induction kvs arbitrary: b)
  case Nil
  then show ?case by (simp add: puts_def grows_def)
next
  case (Cons kv kvs)
  from Cons.prems(2) obtain c where c: "put repr n kv b = Inr c" "puts repr n kvs c = Inr b'"
    by (auto simp: puts_def split: sum.splits)
  have "grows repr [kv] b c" by (rule put_grows [OF Cons.prems(1) c(1)])
  moreover have "grows repr kvs c b'" using Cons.IH [OF _ c(2)] calculation by (simp add: grows_def)
  ultimately show ?case using grows_trans [of repr "[kv]"] by simp
qed

lemma dict_or_empty_Inr: "dict_or_empty v = Inr d \<Longrightarrow> d = as_dict v"
  by (cases v) (auto simp: dict_or_empty_def split: if_splits)

lemma dicts_in_Inr: "dicts_in v = Inr ds \<Longrightarrow> ds = map as_dict (filter is_dict (as_list v))"
  by (auto simp: dicts_in_def split: if_splits)

lemma grows_tracked: "grows repr kvs b b' \<Longrightarrow> tracked b'" by (simp add: grows_def)

lemma login_grows:
  assumes "tracked b"
    and "sbind (dict_or_empty l) (\<lambda>login. sbind (puts repr n (f login) b) (\<lambda>b. sbind (dicts_in (vget login ''uris'')) (\<lambda>uris.
           sbind (puts repr n (g uris) b) (\<lambda>b. sbind (dicts_in fl) (\<lambda>flds. puts repr n (h flds) b))))) = Inr b'"
  shows "grows repr (f (as_dict l) @ g (map as_dict (filter is_dict (as_list (vget (as_dict l) ''uris''))))
           @ h (map as_dict (filter is_dict (as_list fl)))) b b'"
proof -
  from assms(2) obtain c d where
    c: "puts repr n (f (as_dict l)) b = Inr c" and
    d: "puts repr n (g (map as_dict (filter is_dict (as_list (vget (as_dict l) ''uris''))))) c = Inr d" and
    b': "puts repr n (h (map as_dict (filter is_dict (as_list fl)))) d = Inr b'"
    by (auto simp: sbind_Inr dest!: dict_or_empty_Inr dicts_in_Inr)
  note gc = puts_grows [OF assms(1) c]
  note gd = puts_grows [OF grows_tracked [OF gc] d]
  show ?thesis by (rule grows_trans [OF gc grows_trans [OF gd puts_grows [OF grows_tracked [OF gd] b']]])
qed

lemma ssh_grows:
  assumes "tracked b"
    and "sbind (dict_or_empty l) (\<lambda>ssh. sbind (puts repr n [kv ssh] b) (\<lambda>b. sbind (dicts_in fl) (\<lambda>flds.
           if export_private repr (map PDict flds) then puts repr n [kv' ssh] b else Inr b))) = Inr b'"
  shows "grows repr (kv (as_dict l) # (if export_private repr (map PDict (map as_dict (filter is_dict (as_list fl)))) then [kv' (as_dict l)] else [])) b b'"
proof -
  let ?x = "export_private repr (map PDict (map as_dict (filter is_dict (as_list fl))))"
  from assms(2) obtain c where c: "puts repr n [kv (as_dict l)] b = Inr c" and
    b': "(if ?x then puts repr n [kv' (as_dict l)] c else Inr c) = Inr b'"
    by (auto simp: sbind_Inr dest!: dict_or_empty_Inr dicts_in_Inr)
  note gc = puts_grows [OF assms(1) c]
  have "grows repr (if ?x then [kv' (as_dict l)] else []) c b'"
    using b' puts_grows [OF grows_tracked [OF gc], of repr n "[kv' (as_dict l)]" b'] grows_tracked [OF gc]
    by (simp add: grows_def split: if_splits)
  from grows_trans [OF gc this] show ?thesis by simp
qed

lemma build_item_grows:
  assumes "tracked b" "build_item repr nd v b = Inr b'"
  shows "grows repr (item_entries repr v) b b'"
proof (cases "\<exists>item n. v = PDict item \<and> vget item ''name'' = PStr n")
  case False
  have no_name: "(case x of PStr n \<Rightarrow> f n | _ \<Rightarrow> d) = d" if "\<And>n. x \<noteq> PStr n" for x and f :: "string \<Rightarrow> 'z" and d
    using that by (cases x) auto
  have "vget (as_dict v) ''name'' \<noteq> PStr n" for n using False by (cases v) (auto simp: vget_def)
  then have "item_entries repr v = []" unfolding item_entries_def by (rule no_name)
  moreover have "build_item repr nd v b = Inr b"
  proof (cases v)
    case (PDict d)
    with False have "vget d ''name'' \<noteq> PStr n" for n by auto
    then show ?thesis unfolding build_item_def PDict pyval.case by (rule no_name)
  qed (simp_all add: build_item_def)
  ultimately show ?thesis using assms by (simp add: grows_def)
next
  case True
  then obtain item n where v: "v = PDict item" "vget item ''name'' = PStr n" by blast
  define c where "c = (case vget item ''revisionDate'' of PStr r \<Rightarrow> b\<lparr>bs_revisions := bs_revisions b @ [r]\<rparr> | _ \<Rightarrow> b)"
  have c: "tracked c" "bs_secrets c = bs_secrets b" using assms(1) by (auto simp: c_def tracked_def split: pyval.splits)
  note step = assms(2) [unfolded build_item_def v(1) pyval.case v(2) Let_def, folded c_def]
  have "grows repr (item_entries repr v) c b'"
  proof (cases "equals_int (vget item ''type'') 1")
    case True
    then show ?thesis using login_grows [OF c(1), where l = "vget item ''login''" and f = "\<lambda>l. login_entries (sanitise n) l item"
        and g = "\<lambda>uris. numbered (sanitise n) 1 (map (\<lambda>u. vget u ''uri'') uris)" and fl = "vget item ''fields''" and h = "field_entries (sanitise n)"
        and n = n and repr = repr and b' = b'] step
      by (simp add: item_entries_def v Let_def del: map_map)
  next
    case no_login: False
    show ?thesis
    proof (cases "equals_int (vget item ''type'') 5 \<and> \<not> equals_int (vget item ''type'') 2")
      case True
      then show ?thesis using no_login step ssh_grows [OF c(1), where l = "vget item ''sshKey''" and fl = "vget item ''fields''" and n = n and repr = repr and b' = b'
          and kv = "\<lambda>s. (sanitise n @ ''_public_key'', vget s ''publicKey'')"
          and kv' = "\<lambda>s. (sanitise n @ ''_private_key'', vget s ''privateKey'')"]
        by (simp add: item_entries_def v Let_def del: map_map)
    next
      case False
      with no_login step have "tracked b' \<and> bs_secrets b' = bs_secrets c"
        using c(1) by (auto simp: tracked_def add_note_def split: if_splits option.splits)
      then show ?thesis using False no_login by (auto simp: grows_def item_entries_def v Let_def)
    qed
  qed
  then show ?thesis by (simp add: grows_def c(2))
qed

text \<open>C21. Merging the items of a vault never overwrites: when it succeeds, the secrets are exactly the non-empty candidate values of all items, in order, under keys that are pairwise distinct; two candidates with one key make it fail.\<close>
theorem build_exact:
  assumes "fold_sum (build_item repr notes_dir) items new_build = Inr b"
  shows "bs_secrets b = present repr (concat (map (item_entries repr) items)) \<and> distinct (keys (bs_secrets b))"
proof -
  have "grows repr (concat (map (item_entries repr) items)) b0 b"
    if "tracked b0" "fold_sum (build_item repr notes_dir) items b0 = Inr b" for b0
    using that
  proof (induction items arbitrary: b0)
    case Nil
    then show ?case by (simp add: grows_def)
  next
    case (Cons v vs)
    then obtain c where c: "build_item repr notes_dir v b0 = Inr c" "fold_sum (build_item repr notes_dir) vs c = Inr b"
      by (auto split: sum.splits)
    note g = build_item_grows [OF Cons.prems(1) c(1)]
    show ?case using grows_trans [OF g Cons.IH [OF grows_tracked [OF g] c(2)]] by simp
  qed
  from this [OF _ assms] have "grows repr (concat (map (item_entries repr) items)) new_build b" by (simp add: tracked_def new_build_def)
  then have "tracked b" "bs_secrets b = present repr (concat (map (item_entries repr) items))"
    by (simp_all only: grows_def new_build_def build_state.simps append_Nil)
  then show ?thesis by (simp only: tracked_def)
qed

definition demo_items :: "pyval list" where
  "demo_items =
     [PDict [(''name'', PStr ''NAS''), (''type'', PInt 1), (''login'', PDict [(''username'', PStr ''a''), (''password'', PStr ''b'')])],
      PDict [(''name'', PStr ''Key''), (''type'', PInt 5), (''sshKey'', PDict [(''publicKey'', PStr ''p''), (''privateKey'', PStr ''q'')])],
      PDict [(''name'', PStr ''Card''), (''type'', PInt 3)]]"

lemma build_exact_witness:
  "\<exists>b. fold_sum (build_item (\<lambda>_. []) ''bitwarden'') demo_items new_build = Inr b
     \<and> bs_secrets b = [(''nas_username'', ''a''), (''nas_password'', ''b''), (''key_public_key'', ''p'')] \<and> bs_skipped b = 1
     \<and> bs_secrets b = present (\<lambda>_. []) (concat (map (item_entries (\<lambda>_. [])) demo_items))"
proof -
  have run: "(case fold_sum (build_item (\<lambda>_. []) ''bitwarden'') demo_items new_build of Inr b \<Rightarrow>
      bs_secrets b = [(''nas_username'', ''a''), (''nas_password'', ''b''), (''key_public_key'', ''p'')] \<and> bs_skipped b = 1 | Inl _ \<Rightarrow> False)"
    by code_simp
  then obtain b where b: "fold_sum (build_item (\<lambda>_. []) ''bitwarden'') demo_items new_build = Inr b"
    by (auto split: sum.splits)
  from run b build_exact [OF b] show ?thesis by auto
qed

end
