(* ===== verification/Py_Url.thy ===== *)
theory Py_Url
  imports Prelude
begin

text \<open>
  \<open>urllib.parse.urlsplit\<close> and the part of \<open>ipaddress\<close> it uses to check a bracketed host.  A malformed address
  (\<open>ValueError\<close>) is None.  The normalisation check of \<open>urlsplit\<close> never fails on code points up to 255.
\<close>

section \<open>Splitting strings\<close>

text \<open>\<open>s.partition(c)[0]\<close> and \<open>s.partition(c)[2]\<close> for a one-character separator.\<close>

definition before :: "char \<Rightarrow> string \<Rightarrow> string" where "before c s = takeWhile (\<lambda>x. x \<noteq> c) s"

definition after :: "char \<Rightarrow> string \<Rightarrow> string" where "after c s = tl (dropWhile (\<lambda>x. x \<noteq> c) s)"

text \<open>\<open>s.rpartition(c)[0]\<close> (empty when \<open>c\<close> does not occur) and \<open>s.rpartition(c)[2]\<close>.\<close>

definition before_last :: "char \<Rightarrow> string \<Rightarrow> string" where
  "before_last c s = rev (tl (dropWhile (\<lambda>x. x \<noteq> c) (rev s)))"

definition after_last :: "char \<Rightarrow> string \<Rightarrow> string" where
  "after_last c s = rev (takeWhile (\<lambda>x. x \<noteq> c) (rev s))"

section \<open>IPv6 literals\<close>

definition hex_char :: "char \<Rightarrow> bool" where
  "hex_char c \<longleftrightarrow> is_digit c \<or> c \<in> set ''abcdefABCDEF''"

fun dec_value :: "nat \<Rightarrow> string \<Rightarrow> nat" where
  "dec_value acc [] = acc"
| "dec_value acc (c # s) = dec_value (10 * acc + (of_char c - 48)) s"

definition ipv4_octet :: "string \<Rightarrow> bool" where
  "ipv4_octet s \<longleftrightarrow> s \<noteq> [] \<and> list_all is_digit s \<and> length s \<le> 3 \<and> (s = ''0'' \<or> hd s \<noteq> CHR ''0'') \<and> dec_value 0 s \<le> 255"

definition is_ipv4 :: "string \<Rightarrow> bool" where
  "is_ipv4 s \<longleftrightarrow> length (split_on CHR ''.'' s) = 4 \<and> list_all ipv4_octet (split_on CHR ''.'' s)"

definition hextet :: "string \<Rightarrow> bool" where
  "hextet s \<longleftrightarrow> s \<noteq> [] \<and> list_all hex_char s \<and> length s \<le> 4"

text \<open>The colon-separated parts; an embedded IPv4 address at the end counts as two of them.\<close>

definition ipv6_parts :: "string list \<Rightarrow> bool" where
  "ipv6_parts ps \<longleftrightarrow>
     (let n = length ps; inner = filter (\<lambda>i. ps ! i = []) [1..<n - 1] in
      3 \<le> n \<and> n \<le> 9 \<and>
      (case inner of
         [] \<Rightarrow> n = 8 \<and> list_all hextet ps
       | [i] \<Rightarrow>
           (let hi = (if hd ps = [] then i - 1 else i); lo = (if last ps = [] then n - i - 2 else n - i - 1) in
            (hd ps = [] \<longrightarrow> hi = 0) \<and> (last ps = [] \<longrightarrow> lo = 0) \<and> hi + lo \<le> 7
            \<and> list_all hextet (take hi ps) \<and> list_all hextet (drop (n - lo) ps))
       | _ \<Rightarrow> False))"

definition is_ipv6 :: "string \<Rightarrow> bool" where
  "is_ipv6 s \<longleftrightarrow>
     (let addr = before CHR ''%'' s; scope = after CHR ''%'' s; ps = split_on CHR '':'' addr; l = last ps in
      CHR ''/'' \<notin> set s \<and> (CHR ''%'' \<in> set s \<longrightarrow> scope \<noteq> [] \<and> CHR ''%'' \<notin> set scope) \<and> addr \<noteq> []
      \<and> (if CHR ''.'' \<in> set l then is_ipv4 l \<and> 3 \<le> length ps \<and> ipv6_parts (butlast ps @ [''0'', ''0'']) else ipv6_parts ps))"

section \<open>urlsplit\<close>

record url =
  u_scheme :: string
  u_netloc :: string
  u_path :: string
  u_query :: string
  u_fragment :: string

definition scheme_char :: "char \<Rightarrow> bool" where
  "scheme_char c \<longleftrightarrow> is_alnum c \<or> c \<in> set ''+-.''"

text \<open>The check of a bracketed host: nothing before the bracket, a port after it, an IPv6 or IPvFuture literal inside.\<close>

definition ipvfuture :: "string \<Rightarrow> bool" where
  "ipvfuture h \<longleftrightarrow> before CHR ''.'' (tl h) \<noteq> [] \<and> list_all hex_char (before CHR ''.'' (tl h)) \<and> after CHR ''.'' (tl h) \<noteq> []"

definition bracket_ok :: "string \<Rightarrow> bool" where
  "bracket_ok netloc \<longleftrightarrow>
     (let host = after_last CHR ''@'' netloc;
          inner = (if CHR ''['' \<in> set host then before CHR '']'' (after CHR ''['' host) else before CHR '':'' host);
          port = (if CHR ''['' \<in> set host then after CHR '']'' (after CHR ''['' host) else []) in
      (CHR ''['' \<in> set host \<longrightarrow> before CHR ''['' host = []) \<and> (port = [] \<or> hd port = CHR '':'')
      \<and> (if starts_with ''v'' inner then ipvfuture inner else is_ipv6 inner))"

definition netloc_ok :: "string \<Rightarrow> bool" where
  "netloc_ok n \<longleftrightarrow>
     ((CHR ''['' \<in> set n) = (CHR '']'' \<in> set n)) \<and> (CHR ''['' \<in> set n \<longrightarrow> bracket_ok n)"

definition split_scheme :: "string \<Rightarrow> string \<times> string" where
  "split_scheme u =
     (let s = before CHR '':'' u in
      if CHR '':'' \<in> set u \<and> s \<noteq> [] \<and> is_alpha (hd u) \<and> list_all scheme_char s then (lower s, after CHR '':'' u) else ([], u))"

definition urlsplit :: "string \<Rightarrow> url option" where
  "urlsplit s =
     (let u = filter (\<lambda>c. c \<notin> {CHR 0x09, CHR 0x0A, CHR 0x0D}) (dropWhile (\<lambda>c. (of_char c :: nat) \<le> 32) s);
          (scheme, rest) = split_scheme u;
          slashes = starts_with ''//'' rest;
          netloc = (if slashes then takeWhile (\<lambda>c. c \<notin> set ''/?#'') (drop 2 rest) else []);
          rest = (if slashes then dropWhile (\<lambda>c. c \<notin> set ''/?#'') (drop 2 rest) else rest);
          fragment = after CHR ''#'' rest; rest = before CHR ''#'' rest in
      if \<not> netloc_ok netloc then None
      else Some \<lparr>u_scheme = scheme, u_netloc = netloc, u_path = before CHR ''?'' rest, u_query = after CHR ''?'' rest, u_fragment = fragment\<rparr>)"

text \<open>\<open>SplitResult.hostname\<close>: None is the empty string.\<close>

definition hostname :: "url \<Rightarrow> string" where
  "hostname u =
     (let info = after_last CHR ''@'' (u_netloc u) in
      lower (if CHR ''['' \<in> set info then before CHR '']'' (after CHR ''['' info) else before CHR '':'' info))"

subsection \<open>Facts\<close>

lemma before_notin: "c \<notin> set (before c s)"
  by (induction s) (auto simp: before_def)

lemma before_after: "c \<in> set s \<Longrightarrow> s = before c s @ c # after c s"
  by (induction s) (auto simp: before_def after_def)

lemma before_append: "c \<notin> set p \<Longrightarrow> before c (p @ c # s) = p" and after_append: "c \<notin> set p \<Longrightarrow> after c (p @ c # s) = s"
  by (induction p) (auto simp: before_def after_def)

lemma urlsplit_examples:
  "map_option (\<lambda>u. (u_scheme u, u_netloc u, u_path u, hostname u)) (urlsplit ''HTTPS://Git@Host.tld:8/x?y#z'')
     = Some (''https'', ''Git@Host.tld:8'', ''/x'', ''host.tld'')"
  "map_option hostname (urlsplit ''ssh://[fe80::1%25]:22/a'') = Some ''fe80::1%25''"
  "urlsplit ''ssh://[fe80::1::2]/a'' = None" "urlsplit ''https://a[::1]/'' = None"
  "map_option hostname (urlsplit ''https://[::ffff:10.0.0.1]/'') = Some ''::ffff:10.0.0.1''"
  by code_simp+

end
