(* ===== verification/Py_Path.thy ===== *)
theory Py_Path
  imports Py_Os
begin

text \<open>
  \<open>pathlib\<close> on the file-system model: the tests \<open>is_dir\<close>, \<open>is_file\<close>, \<open>is_symlink\<close>, \<open>resolve\<close> and \<open>shutil.rmtree\<close>, with
  what is known of a resolved path.
\<close>

text \<open>\<open>Path.is_dir\<close>, \<open>is_file\<close> and \<open>is_symlink\<close>: false when the path cannot be looked up, other errors are raised.\<close>

definition lookup_fails :: "oserr \<Rightarrow> bool" where
  "lookup_fails e \<longleftrightarrow> e \<in> {ENOENT, ENOTDIR, ELOOP}"

definition test_node :: "(node \<Rightarrow> bool) \<Rightarrow> node io \<Rightarrow> bool io" where
  "test_node q m = catch (bnd m (\<lambda>n. ret (q n))) (\<lambda>e. if lookup_fails e then ret False else raise e)"

fun is_regular :: "node \<Rightarrow> bool" where
  "is_regular (NFile _ _) = True" | "is_regular _ = False"

fun is_link :: "node \<Rightarrow> bool" where
  "is_link (NLink _) = True" | "is_link _ = False"

text \<open>\<open>Path.resolve()\<close>, strict or not, and \<open>shutil.rmtree(path, ignore_errors=True)\<close> (a failing one removes nothing).\<close>

definition os_resolve :: "path \<Rightarrow> path io" where
  "os_resolve p = sys (\<lambda>f. case resolve max_links f True [] p of Inl e \<Rightarrow> Inl e | Inr q \<Rightarrow> Inr (q, f))"

definition realpath_act :: "path \<Rightarrow> fs \<Rightarrow> oserr + (path \<times> fs)" where
  "realpath_act q f = (case node_at f q of None \<Rightarrow> Inl ENOENT | Some _ \<Rightarrow> Inr (q, f))"

definition os_realpath :: "path \<Rightarrow> path io" where
  "os_realpath p = sys (at_path True p realpath_act)"

definition rmtree_act :: "path \<Rightarrow> fs \<Rightarrow> oserr + (unit \<times> fs)" where
  "rmtree_act q f = (if node_at f q = Some NDir then Inr ((), filter (\<lambda>(r, _). take (length q) r \<noteq> q) f) else Inl ENOTDIR)"

definition below :: "path \<Rightarrow> path \<Rightarrow> bool" where
  "below d p \<longleftrightarrow> take (length d) p = d"

section \<open>Resolved paths\<close>

text \<open>A canonical path: no component is empty or a dot name, and no prefix is a link.\<close>

definition canonical :: "fs \<Rightarrow> path \<Rightarrow> bool" where
  "canonical f q \<longleftrightarrow> list_all plain_name q \<and> (\<forall>n \<le> length q. \<forall>t. node_at f (take n q) \<noteq> Some (NLink t))"

text \<open>Every file has its parent directory.\<close>

definition tree_shaped :: "fs \<Rightarrow> bool" where
  "tree_shaped f \<longleftrightarrow> list_all (\<lambda>(p, _). p = [] \<or> is_dir f (butlast p)) f"

lemma canonical_Nil [simp]: "canonical f []" by (simp add: canonical_def)

lemma canonical_snoc:
  "canonical f (q @ [x]) \<longleftrightarrow> canonical f q \<and> plain_name x \<and> (\<forall>t. node_at f (q @ [x]) \<noteq> Some (NLink t))"
  by (auto simp: canonical_def le_Suc_eq)

lemma canonical_butlast: "canonical f q \<Longrightarrow> canonical f (butlast q)"
  by (cases q rule: rev_cases) (simp_all add: canonical_snoc)

lemma resolve_canonical: "resolve k f True d xs = Inr q \<Longrightarrow> canonical f d \<Longrightarrow> canonical f q"
proof (induction k f True d xs rule: resolve.induct)
  case (2 k f d x xs)
  show ?case
  proof (cases "x = [] \<or> x = ''.'' \<or> x = ''..''")
    case True
    then show ?thesis using 2 canonical_butlast by (auto split: if_splits)
  next
    case plain: False
    show ?thesis
    proof (cases "node_at f (d @ [x])")
      case None
      with plain 2 show ?thesis by (simp add: canonical_snoc plain_name_def)
    next
      case (Some n)
      with plain 2 show ?thesis by (cases n; cases k) (simp_all add: canonical_snoc plain_name_def)
    qed
  qed
qed simp

lemma resolve_along: "canonical f (d @ p) \<Longrightarrow> resolve k f fol d (p @ xs) = resolve k f fol (d @ p) xs"
proof (induction p arbitrary: d)
  case (Cons x p)
  have c: "canonical f ((d @ [x]) @ p)" using Cons.prems by simp
  have "plain_name x" "\<forall>t. node_at f (d @ [x]) \<noteq> Some (NLink t)"
    using c unfolding canonical_def by (auto simp: list_all_append dest: spec [where x = "Suc (length d)"])
  then show ?case using Cons.IH [OF c] by (auto simp: plain_name_def split: option.splits node.splits)
qed simp

lemma tree_parent: "tree_shaped f \<Longrightarrow> node_at f (q @ [x]) = Some n \<Longrightarrow> is_dir f q"
  by (auto simp: tree_shaped_def node_at_def list_all_iff dest!: map_of_SomeD)

section \<open>What a test says\<close>

lemma sys_Inr: "sys act o1 = (Inr x, o2) \<Longrightarrow> \<exists>f. act (fsys o1) = Inr (x, f) \<and> fsys o2 = f"
  by (auto simp: sys_def Let_def split: sum.splits prod.splits if_splits)

lemma lstat_read: "at_path fol p lstat_act f = Inr (n, f') \<Longrightarrow> f' = f"
  by (erule at_path_read [rotated]) (auto simp: lstat_act_def split: option.splits)

lemma test_node_lstat:
  assumes "test_node p (sys (at_path fol q lstat_act)) s = (Inr b, s')"
  shows "fsys s' = fsys s"
    and "(\<exists>n. at_path fol q lstat_act (fsys s) = Inr (n, fsys s) \<and> b = p n)
      \<or> (\<not> b \<and> (\<exists>e. at_path fol q lstat_act (fsys s) = Inl e))"
proof -
  have "(\<exists>n f. at_path fol q lstat_act (fsys s) = Inr (n, f) \<and> b = p n \<and> fsys s' = f)
      \<or> (\<not> b \<and> (\<exists>e. at_path fol q lstat_act (fsys s) = Inl e) \<and> fsys s' = fsys s)"
    using assms
    by (auto simp: test_node_def sys_def Let_def catch_def bnd_def lookup_fails_def split: sum.splits prod.splits if_splits)
  then show "fsys s' = fsys s" "(\<exists>n. at_path fol q lstat_act (fsys s) = Inr (n, fsys s) \<and> b = p n)
      \<or> (\<not> b \<and> (\<exists>e. at_path fol q lstat_act (fsys s) = Inl e))"
    by (metis lstat_read)+
qed

end
