(* ===== verification/SS_Gitsource.thy ===== *)
theory SS_Gitsource
  imports SS_State Py_Url Py_Path
begin

text \<open>
  \<open>secrets-sync/app/providers/gitsource.py\<close>.  The programs git and ssh are not part of the repository: what a call
  of git answers, and what it does to the file system, is an entry of \<open>sh_answers\<close>, consumed one per call.  Every
  call is logged with its arguments, environment and working directory.  Output is text already decoded.
\<close>

section \<open>State\<close>

datatype child_outcome = ChildTimeout | ChildNotFound | ChildOsError | ChildExit int string string

datatype source_exn = SourceError (se_code: string) (se_message: string) | SourceOs oserr | SourceCrash string

record child_call =
  cc_argv :: "string list"
  cc_env :: "string dict"
  cc_cwd :: "path option"

record source_host =
  sh_os :: os
  sh_environ :: "string dict"
  sh_ssh_found :: bool
  sh_answers :: "(child_outcome \<times> (fs \<Rightarrow> fs)) list"
  sh_calls :: "child_call list"

type_synonym 'a source = "(source_host, source_exn, 'a) prog"

definition sfail :: "string \<Rightarrow> string \<Rightarrow> 'a source" where
  "sfail code message = raise (SourceError code message)"

text \<open>An operating-system call; \<open>h\<close> is the handler of its \<open>OSError\<close>.\<close>

definition in_sh :: "(oserr \<Rightarrow> source_exn) \<Rightarrow> 'a io \<Rightarrow> 'a source" where
  "in_sh h m = (\<lambda>s. case m (sh_os s) of (r, o') \<Rightarrow>
     ((case r of Inl e \<Rightarrow> Inl (h e) | Inr x \<Rightarrow> Inr x), s\<lparr>sh_os := o'\<rparr>))"

text \<open>\<open>os.environ.get(k) or d\<close>.\<close>

definition env_or :: "string dict \<Rightarrow> string \<Rightarrow> string \<Rightarrow> string" where
  "env_or env k d = (case dget env k of Some v \<Rightarrow> if v = [] then d else v | None \<Rightarrow> d)"

definition path_test :: "(node \<Rightarrow> bool) \<Rightarrow> node io \<Rightarrow> bool source" where
  "path_test q m = in_sh SourceOs (test_node q m)"

definition rmtree :: "path \<Rightarrow> unit source" where
  "rmtree p = in_sh SourceOs (catch (sys (at_path False p rmtree_act)) (\<lambda>_. ret ()))"

section \<open>Validation\<close>

definition allowed_protocols :: "string dict \<Rightarrow> string" where
  "allowed_protocols env = env_or env ''SS_GIT_ALLOW_PROTOCOL'' ''ssh:https''"

definition file_allowed :: "string dict \<Rightarrow> bool" where
  "file_allowed env \<longleftrightarrow> ''file'' \<in> set (split_on CHR '':'' (allowed_protocols env))"

definition name_char :: "char \<Rightarrow> bool" where
  "name_char c \<longleftrightarrow> is_alnum c \<or> c \<in> set ''._-''"

definition scp_shape :: "string \<Rightarrow> bool" where
  "scp_shape s \<longleftrightarrow>
     (let user = before CHR ''@'' s; rest = after CHR ''@'' s; host = before CHR '':'' rest; p = after CHR '':'' rest in
      CHR ''@'' \<in> set s \<and> CHR '':'' \<in> set rest \<and> user \<noteq> [] \<and> list_all name_char user \<and> host \<noteq> [] \<and> list_all name_char host
      \<and> p \<noteq> [] \<and> list_all (\<lambda>c. \<not> is_space c) p)"

definition SCP_RE :: "string \<Rightarrow> bool" where "SCP_RE s \<longleftrightarrow> re_match_eol scp_shape s"

definition sha_shape :: "string \<Rightarrow> bool" where
  "sha_shape s \<longleftrightarrow> re_class (\<lambda>c. is_digit c \<or> c \<in> set ''abcdef'') 40 40 s"

definition SHA_RE :: "string \<Rightarrow> bool" where "SHA_RE s \<longleftrightarrow> re_match_eol sha_shape s"

definition bad_text :: "string \<Rightarrow> bool" where
  "bad_text s \<longleftrightarrow> starts_with ''-'' s \<or> list_ex (\<lambda>c. is_space c \<or> is_control c) s"

definition url_kind :: "string dict \<Rightarrow> string \<Rightarrow> string option" where
  "url_kind env u =
     (if u = [] \<or> bad_text u then None
      else if SCP_RE u then Some ''ssh''
      else (case urlsplit u of
          None \<Rightarrow> None
        | Some parts \<Rightarrow>
            if u_scheme parts = ''https'' \<and> hostname parts \<noteq> [] then Some ''https''
            else if u_scheme parts = ''ssh'' \<and> hostname parts \<noteq> [] then Some ''ssh''
            else if file_allowed env \<and> (u_scheme parts = ''file'' \<or> starts_with ''/'' u) then Some ''file''
            else None))"

definition url_has_credentials :: "string \<Rightarrow> bool" where
  "url_has_credentials u =
     (case urlsplit u of
        None \<Rightarrow> False
      | Some parts \<Rightarrow>
          if u_scheme parts = ''https'' then CHR ''@'' \<in> set (u_netloc parts)
          else if u_scheme parts = ''ssh'' then CHR '':'' \<in> set (before_last CHR ''@'' (u_netloc parts))
          else False)"

definition path_valid :: "string \<Rightarrow> bool" where
  "path_valid p \<longleftrightarrow> p \<noteq> [] \<and> \<not> starts_with ''/'' p \<and> bslash \<notin> set p \<and> CHR 0x00 \<notin> set p \<and> ''..'' \<notin> set (split_on CHR ''/'' p)"

definition branch_valid :: "string \<Rightarrow> bool" where
  "branch_valid b \<longleftrightarrow> b \<noteq> [] \<and> \<not> bad_text b"

definition classify :: "string \<Rightarrow> string \<Rightarrow> string" where
  "classify stderr def =
     (let low = lower stderr in
      if contains ''remote branch'' low \<and> contains ''not found'' low \<or> contains ''couldn't find remote ref'' low then ''git_ref_not_found''
      else if list_ex (\<lambda>p. contains p low)
          [''permission denied'', ''authentication failed'', ''could not read username'', ''host key verification'', ''401'', ''403'']
      then ''git_auth_failed'' else def)"

section \<open>The source\<close>

text \<open>\<open>sha1\<close> is the hexadecimal SHA-1 digest of the standard library, \<open>gc_askpass\<close> the path of the helper beside the code.\<close>

record git_source =
  gc_url :: string
  gc_branch :: string
  gc_path :: string
  gc_username :: string
  gc_data_dir :: path
  gc_kind :: "string option"
  gc_cache :: path
  gc_askpass :: string

definition ADDON_KNOWN_HOSTS :: string where "ADDON_KNOWN_HOSTS = ''/addon_config/known_hosts''"
definition DEFAULT_DEPLOY_KEY :: string where "DEFAULT_DEPLOY_KEY = ''/addon_config/deploy_key''"
definition DEFAULT_DATA_DIR :: string where "DEFAULT_DATA_DIR = ''/data''"

definition git_source_of :: "(bytes \<Rightarrow> string) \<Rightarrow> string \<Rightarrow> string dict \<Rightarrow> string \<Rightarrow> string \<Rightarrow> string \<Rightarrow> string \<Rightarrow> git_source" where
  "git_source_of sha1 askpass env u branch p username =
     (let data = to_path (env_or env ''SS_DATA_DIR'' DEFAULT_DATA_DIR);
          digest = take 12 (sha1 (utf8_encode (u @ CHR 0x00 # branch))) in
      \<lparr>gc_url = u, gc_branch = branch, gc_path = p, gc_username = username, gc_data_dir = data, gc_kind = url_kind env u,
       gc_cache = data @ [''git'', digest], gc_askpass = askpass\<rparr>)"

text \<open>A value in single quotes, each quote in it written as quote, backslash, quote, quote.\<close>

definition squote :: char where "squote = CHR 0x27"

definition sh_quote :: "string \<Rightarrow> string" where
  "sh_quote v = squote # replace [squote] [squote, bslash, squote, squote] v @ [squote]"

text \<open>A key file: it exists, is regular, and only its owner has access.\<close>

definition key_file_ok :: "path \<Rightarrow> string \<times> string \<Rightarrow> string \<Rightarrow> string \<times> string \<Rightarrow> unit source" where
  "key_file_ok p absent irregular loose =
     bnd (in_sh (\<lambda>_. SourceError (fst absent) (snd absent)) (os_stat p)) (\<lambda>n. case n of
       NFile _ mode \<Rightarrow> guard_raise (mode mod 64 \<noteq> 0) (SourceError (fst loose) (snd loose))
     | _ \<Rightarrow> sfail (fst absent) irregular)"

definition ssh_command :: "git_source \<Rightarrow> string source" where
  "ssh_command g =
     bnd (gets (\<lambda>s. to_path (env_or (sh_environ s) ''SS_GIT_DEPLOY_KEY'' DEFAULT_DEPLOY_KEY))) (\<lambda>key.
     andthen (key_file_ok key (''git_key_missing'', ''deploy key not found'') ''deploy key is not a regular file''
        (''git_key_permissions'', ''deploy key must have mode 600 or stricter''))
     (bnd (gets sh_ssh_found) (\<lambda>found.
      if \<not> found then sfail ''git_binary_missing'' ''ssh binary not found''
      else bnd (path_test is_regular (os_stat (to_path ADDON_KNOWN_HOSTS))) (\<lambda>own.
        let (hosts, mode) = (if own then (to_path ADDON_KNOWN_HOSTS, ''yes'') else (gc_data_dir g @ [''known_hosts''], ''accept-new'')) in
        ret (''ssh -i '' @ sh_quote (path_str key) @ '' -o IdentitiesOnly=yes -o BatchMode=yes -o UserKnownHostsFile=''
          @ sh_quote (path_str hosts) @ '' -o StrictHostKeyChecking='' @ mode)))))"

definition git_env :: "git_source \<Rightarrow> string dict source" where
  "git_env g =
     bnd (gets sh_environ) (\<lambda>env.
     let base = [(''PATH'', case dget env ''PATH'' of Some v \<Rightarrow> v | None \<Rightarrow> ''/usr/bin:/bin''), (''HOME'', path_str (gc_data_dir g)),
       (''LC_ALL'', ''C''), (''GIT_TERMINAL_PROMPT'', ''0''), (''GIT_CONFIG_NOSYSTEM'', ''1''), (''GIT_CONFIG_GLOBAL'', ''/dev/null''),
       (''GIT_ALLOW_PROTOCOL'', allowed_protocols env)] in
     if gc_kind g = Some ''ssh'' then bnd (ssh_command g) (\<lambda>c. ret (base @ [(''GIT_SSH_COMMAND'', c)]))
     else if gc_kind g = Some ''https'' \<and> env_or env ''SS_GIT_TOKEN'' [] \<noteq> []
     then ret (base @ [(''GIT_ASKPASS'', gc_askpass g), (''SS_GIT_TOKEN'', env_or env ''SS_GIT_TOKEN'' []),
            (''SS_GIT_USERNAME'', if gc_username g = [] then ''x-access-token'' else gc_username g)])
     else ret base)"

section \<open>Calling git\<close>

text \<open>One child process: the call is logged and the next answer taken; without one the program is not found.\<close>

definition run_child :: "string list \<Rightarrow> string dict \<Rightarrow> path option \<Rightarrow> child_outcome source" where
  "run_child argv env cwd = (\<lambda>s.
     let s' = s\<lparr>sh_calls := sh_calls s @ [\<lparr>cc_argv = argv, cc_env = env, cc_cwd = cwd\<rparr>], sh_answers := tl (sh_answers s)\<rparr> in
     case sh_answers s of
       [] \<Rightarrow> (Inr ChildNotFound, s')
     | (out, act) # _ \<Rightarrow> (Inr out, s'\<lparr>sh_os := sh_os s'\<lparr>fsys := act (fsys (sh_os s'))\<rparr>\<rparr>))"

definition git :: "git_source \<Rightarrow> string list \<Rightarrow> string \<Rightarrow> path option \<Rightarrow> string source" where
  "git g args def cwd =
     bnd (git_env g) (\<lambda>env.
     bnd (run_child ([''git'', ''-c'', ''core.hooksPath=/dev/null'', ''-c'', ''protocol.ext.allow=never''] @ args) env cwd) (\<lambda>out.
     case out of
       ChildTimeout \<Rightarrow> sfail ''git_timeout'' ''git timed out''
     | ChildNotFound \<Rightarrow> sfail ''git_binary_missing'' ''git binary not found''
     | ChildOsError \<Rightarrow> sfail ''git_exec_failed'' ''git could not be executed''
     | ChildExit rc stdout stderr \<Rightarrow>
         if rc \<noteq> 0 then (let code = classify stderr def in sfail code (''git failed ('' @ code @ '')''))
         else ret stdout))"

definition branch_ref :: "git_source \<Rightarrow> string" where
  "branch_ref g = ''refs/heads/'' @ gc_branch g"

definition git_probe :: "git_source \<Rightarrow> string source" where
  "git_probe g =
     bnd (git g [''ls-remote'', ''--'', gc_url g, branch_ref g] ''git_fetch_failed'' None) (\<lambda>out.
     case filter (\<lambda>l. strip (after CHR 0x09 l) = branch_ref g \<and> SHA_RE (before CHR 0x09 l)) (splitlines out) of
       l # _ \<Rightarrow> ret (before CHR 0x09 l)
     | [] \<Rightarrow> sfail ''git_ref_not_found'' ''branch not found'')"

definition final_codes :: "string list" where
  "final_codes = [''git_timeout'', ''git_binary_missing'', ''git_key_missing'', ''git_key_permissions'']"

definition update_in_place :: "git_source \<Rightarrow> unit source" where
  "update_in_place g =
     andthen (git g [''fetch'', ''--depth'', ''1'', ''origin'', branch_ref g] ''git_fetch_failed'' (Some (gc_cache g)))
     (andthen (git g [''reset'', ''--hard'', ''FETCH_HEAD''] ''git_fetch_failed'' (Some (gc_cache g)))
     (andthen (git g [''clean'', ''-fdx''] ''git_fetch_failed'' (Some (gc_cache g))) (ret ())))"

definition clone :: "git_source \<Rightarrow> unit source" where
  "clone g =
     andthen (in_sh SourceOs (mkdir_parents (butlast (gc_cache g))))
     (andthen (rmtree (gc_cache g))
     (catch (andthen (git g [''clone'', ''--depth'', ''1'', ''--single-branch'', ''--branch'', gc_branch g, ''--'', gc_url g, path_str (gc_cache g)]
               ''git_clone_failed'' None) (ret ()))
        (\<lambda>e. case e of SourceError _ _ \<Rightarrow> andthen (rmtree (gc_cache g)) (raise e) | _ \<Rightarrow> raise e)))"

definition update_cache :: "git_source \<Rightarrow> unit source" where
  "update_cache g =
     bnd (path_test (\<lambda>n. n = NDir) (os_stat (gc_cache g @ [''.git'']))) (\<lambda>cached.
     if \<not> cached then clone g
     else bnd (catch (andthen (update_in_place g) (ret True))
          (\<lambda>e. case e of SourceError code _ \<Rightarrow> if code \<in> set final_codes then raise e else ret False | _ \<Rightarrow> raise e))
        (\<lambda>fresh. if fresh then ret () else andthen (rmtree (gc_cache g)) (clone g)))"

text \<open>The file in the checkout: no link below the cache, inside it, and regular.\<close>

fun no_links :: "path \<Rightarrow> string list \<Rightarrow> path source" where
  "no_links cur [] = ret cur"
| "no_links cur (part # parts) =
     (if part = [] \<or> part = ''.'' then no_links cur parts
      else bnd (path_test is_link (os_lstat (cur @ [part]))) (\<lambda>l.
        if l then sfail ''git_path_invalid'' ''git_path must not contain symlinks'' else no_links (cur @ [part]) parts))"

definition resolve_file :: "git_source \<Rightarrow> path source" where
  "resolve_file g =
     (if \<not> path_valid (gc_path g) then sfail ''git_path_invalid'' ''git_path is invalid''
      else bnd (in_sh SourceOs (os_resolve (gc_cache g))) (\<lambda>root.
       bnd (no_links root (split_on CHR ''/'' (gc_path g))) (\<lambda>cur.
       bnd (in_sh (\<lambda>e. if e = ENOENT \<or> e = ENOTDIR then SourceError ''git_file_missing'' ''file not found in repository''
              else SourceError ''git_path_invalid'' ''git_path cannot be resolved'') (os_realpath cur)) (\<lambda>resolved.
       if \<not> below root resolved then sfail ''git_path_invalid'' ''git_path escapes the repository''
       else bnd (path_test is_regular (os_stat resolved)) (\<lambda>reg.
         if \<not> reg then sfail ''git_file_missing'' ''git_path is not a regular file'' else ret resolved)))))"

definition git_sync :: "git_source \<Rightarrow> (path \<times> string) source" where
  "git_sync g =
     andthen (update_cache g)
     (bnd (git g [''rev-parse'', ''HEAD''] ''git_exec_failed'' (Some (gc_cache g))) (\<lambda>out.
      let sha = strip out in
      if \<not> SHA_RE sha then sfail ''git_exec_failed'' ''unexpected git output''
      else bnd (resolve_file g) (\<lambda>p. ret (p, sha))))"

end
