(* ===== verification/SS_Sops.thy ===== *)
theory SS_Sops
  imports SS_Gitsource
begin

text \<open>
  \<open>secrets-sync/app/providers/sops.py\<close>: decryption by the program sops (a child process like git) and the flattening
  of the decrypted mapping.  \<open>yaml.safe_load\<close> is the parameter \<open>yload\<close>; of its result the code uses the shape,
  the text \<open>str(key)\<close> of the keys and the text \<open>str(value)\<close> of the scalars.
\<close>

section \<open>YAML values\<close>

datatype ytree = YNone | YBool bool | YText string | YSeq | YMap "(string \<times> ytree) list"

datatype yfail = YamlError | YamlCrash string

type_synonym yload = "string \<Rightarrow> yfail + ytree"

section \<open>Configuration\<close>

record sops_provider =
  sp_source :: string
  sp_file :: string
  sp_git_url :: string
  sp_git_branch :: string
  sp_git_path :: string
  sp_git_username :: string
  sp_sep :: string
  sp_key_file :: string

definition DEFAULT_FILE :: string where "DEFAULT_FILE = ''/config/secrets.sops.yaml''"
definition DEFAULT_SEPARATOR :: string where "DEFAULT_SEPARATOR = ''_''"
definition DEFAULT_AGE_KEY_FILE :: string where "DEFAULT_AGE_KEY_FILE = ''/addon_config/age.key''"

definition sops_provider_of :: "(pyval \<Rightarrow> string) \<Rightarrow> string dict \<Rightarrow> pyval dict \<Rightarrow> sops_provider" where
  "sops_provider_of repr env cfg =
     (let block = (case vget cfg ''sops'' of PDict d \<Rightarrow> d | _ \<Rightarrow> cfg);
          opt = (\<lambda>k d. if truthy (vget block k) then py_str repr (vget block k) else d) in
      \<lparr>sp_source = opt ''source'' ''file'', sp_file = opt ''file'' DEFAULT_FILE, sp_git_url = strip (opt ''git_url'' []),
       sp_git_branch = opt ''git_branch'' ''main'', sp_git_path = opt ''git_path'' ''secrets.sops.yaml'',
       sp_git_username = opt ''git_username'' [],
       sp_sep = (if vget block ''flatten_separator'' = PNone then DEFAULT_SEPARATOR else py_str repr (vget block ''flatten_separator'')),
       sp_key_file = opt ''age_key_file'' (env_or env ''SS_AGE_KEY_FILE'' DEFAULT_AGE_KEY_FILE)\<rparr>)"

definition validate_git :: "string dict \<Rightarrow> sops_provider \<Rightarrow> problem list" where
  "validate_git env p =
     (let u = sp_git_url p in
      if u = [] then [error_problem ''sops_git_missing_url'' ''sops.git_url is not set'']
      else (if url_has_credentials u then [error_problem ''sops_git_url_credentials'' ''sops.git_url must not contain credentials'']
            else if url_kind env u = None then [error_problem ''sops_git_url_scheme'' ''sops.git_url must be ssh or https''] else [])
        @ (if branch_valid (sp_git_branch p) then [] else [error_problem ''sops_git_branch_invalid'' ''sops.git_branch is invalid''])
        @ (if path_valid (sp_git_path p) then [] else [error_problem ''sops_git_path_invalid'' ''sops.git_path must be a relative path inside the repo'']))"

definition sops_validate :: "string dict \<Rightarrow> sops_provider \<Rightarrow> problem list" where
  "sops_validate env p =
     (if sp_source p \<in> {''file'', ''git''} then [] else [error_problem ''sops_invalid_source'' ''sops.source must be file or git''])
     @ (if sp_sep p = [] then [error_problem ''sops_empty_separator'' ''sops.flatten_separator must not be empty''] else [])
     @ (if sp_source p = ''git'' then validate_git env p
        else if strip (sp_file p) = [] then [error_problem ''sops_missing_file'' ''sops.file is not set''] else [])"

section \<open>Flattening\<close>

definition to_str :: "ytree \<Rightarrow> string" where
  "to_str v = (case v of YBool b \<Rightarrow> if b then ''true'' else ''false'' | YText s \<Rightarrow> s | _ \<Rightarrow> [])"

record flat_state =
  fl_out :: "string dict"
  fl_bad :: "string list"
  fl_collisions :: "string list"

definition child_name :: "string \<Rightarrow> string \<Rightarrow> string \<Rightarrow> string" where
  "child_name sep prefix key = (if prefix = [] then key else prefix @ sep @ key)"

definition put_value :: "string \<Rightarrow> ytree \<Rightarrow> flat_state \<Rightarrow> flat_state" where
  "put_value name v st = st\<lparr>fl_collisions := fl_collisions st @ (if name \<in> set (keys (fl_out st)) then [name] else []),
     fl_out := AList.update name (to_str v) (fl_out st)\<rparr>"

fun walk_entries :: "string \<Rightarrow> string \<Rightarrow> (string \<times> ytree) list \<Rightarrow> flat_state \<Rightarrow> flat_state"
and walk_value :: "string \<Rightarrow> string \<Rightarrow> ytree \<Rightarrow> flat_state \<Rightarrow> flat_state" where
  "walk_entries sep prefix [] st = st"
| "walk_entries sep prefix ((key, v) # kvs) st = walk_entries sep prefix kvs (walk_value sep (child_name sep prefix key) v st)"
| "walk_value sep name (YMap kvs) st = walk_entries sep name kvs st"
| "walk_value sep name YSeq st = st\<lparr>fl_bad := fl_bad st @ [name]\<rparr>"
| "walk_value sep name YNone st = st\<lparr>fl_bad := fl_bad st @ [name]\<rparr>"
| "walk_value sep name v st = put_value name v st"

definition sops_flatten :: "string \<Rightarrow> (string \<times> ytree) list \<Rightarrow> source_exn + string dict" where
  "sops_flatten sep data =
     (let st = walk_entries sep [] data \<lparr>fl_out = [], fl_bad = [], fl_collisions = []\<rparr> in
      if fl_bad st \<noteq> [] then Inl (SourceError ''sops_unsupported_value'' (''unsupported value type for keys: '' @ join '', '' (sort (fl_bad st))))
      else if fl_collisions st \<noteq> [] then Inl (SourceError ''key_collision'' (''flattened key collision: '' @ join '', '' (sorted_set (fl_collisions st))))
      else Inr (fl_out st))"

section \<open>Fetching\<close>

definition check_key_file :: "sops_provider \<Rightarrow> unit source" where
  "check_key_file p = key_file_ok (to_path (sp_key_file p)) (''sops_key_missing'', ''age key file not found'')
     ''age key path is not a regular file'' (''sops_key_permissions'', ''age key file must have mode 600 or stricter'')"

definition read_encrypted :: "path \<Rightarrow> string source" where
  "read_encrypted p =
     bnd (in_sh (\<lambda>e. if e = ENOENT then SourceError ''sops_file_missing'' ''sops file not found''
            else SourceError ''sops_file_unreadable'' ''sops file cannot be read'') (os_read p)) (\<lambda>d.
     case utf8_decode d of
       None \<Rightarrow> sfail ''sops_file_unreadable'' ''sops file cannot be read''
     | Some t \<Rightarrow> ret (universal_newlines t))"

definition sops_parse :: "yload \<Rightarrow> string \<Rightarrow> string \<Rightarrow> string \<Rightarrow> ytree source" where
  "sops_parse yload text code message = (case yload text of
     Inr v \<Rightarrow> ret v | Inl YamlError \<Rightarrow> sfail code message | Inl (YamlCrash t) \<Rightarrow> raise (SourceCrash t))"

text \<open>The environment of the sops process has no Bitwarden or git credentials.\<close>

definition sops_env :: "sops_provider \<Rightarrow> string dict \<Rightarrow> string dict" where
  "sops_env p env = AList.update ''SOPS_AGE_KEY_FILE'' (sp_key_file p)
     (filter (\<lambda>(k, _). \<not> starts_with ''BW_'' k \<and> \<not> starts_with ''SS_GIT_'' k) env)"

definition decrypt :: "yload \<Rightarrow> sops_provider \<Rightarrow> path \<Rightarrow> (string \<times> ytree) list source" where
  "decrypt yload p path =
     bnd (gets sh_environ) (\<lambda>env.
     bnd (run_child [''sops'', ''-d'', ''--output-type'', ''yaml'', path_str path] (sops_env p env) None) (\<lambda>out.
     case out of
       ChildTimeout \<Rightarrow> sfail ''sops_timeout'' ''sops timed out''
     | ChildNotFound \<Rightarrow> sfail ''sops_binary_missing'' ''sops binary not found''
     | ChildOsError \<Rightarrow> sfail ''sops_exec_failed'' ''sops could not be executed''
     | ChildExit rc stdout _ \<Rightarrow>
         if rc \<noteq> 0 then sfail ''sops_decrypt_failed'' (''sops exited with code '' @ int_str rc)
         else bnd (sops_parse yload stdout ''sops_invalid_yaml'' ''decrypted data is not YAML'') (\<lambda>data.
           case data of
             YNone \<Rightarrow> ret []
           | YMap kvs \<Rightarrow> ret (AList.delete ''sops'' kvs)
           | _ \<Rightarrow> sfail ''sops_invalid_yaml'' ''decrypted data is not a mapping'')))"

definition git_of :: "(bytes \<Rightarrow> string) \<Rightarrow> string \<Rightarrow> sops_provider \<Rightarrow> git_source source" where
  "git_of sha1 askpass p =
     bnd (gets sh_environ) (\<lambda>env.
     if list_ex (\<lambda>pr. p_severity pr = ''error'') (validate_git env p)
     then sfail ''sops_invalid_config'' ''git source is not configured correctly''
     else ret (git_source_of sha1 askpass env (sp_git_url p) (sp_git_branch p) (sp_git_path p) (sp_git_username p)))"

definition sops_check :: "(bytes \<Rightarrow> string) \<Rightarrow> string \<Rightarrow> sops_provider \<Rightarrow> string option source" where
  "sops_check sha1 askpass p =
     (if sp_source p \<noteq> ''git'' then ret None
      else bnd (git_of sha1 askpass p) (\<lambda>g. bnd (git_probe g) (\<lambda>sha. ret (Some sha))))"

definition is_encrypted :: "ytree \<Rightarrow> bool" where
  "is_encrypted v \<longleftrightarrow> (case v of YMap kvs \<Rightarrow> (case dget kvs ''sops'' of Some (YMap _) \<Rightarrow> True | _ \<Rightarrow> False) | _ \<Rightarrow> False)"

definition sops_fetch :: "yload \<Rightarrow> (bytes \<Rightarrow> string) \<Rightarrow> string \<Rightarrow> (path \<Rightarrow> int) \<Rightarrow> sops_provider \<Rightarrow> snapshot source" where
  "sops_fetch yload sha1 askpass mtime p =
     andthen (check_key_file p)
     (bnd (if sp_source p = ''git'' then bnd (git_of sha1 askpass p) git_sync else ret (to_path (sp_file p), [])) (\<lambda>(path, sha).
      bnd (read_encrypted path) (\<lambda>raw.
      bnd (sops_parse yload raw ''sops_not_encrypted'' ''file is not valid YAML'') (\<lambda>meta.
      if \<not> is_encrypted meta then sfail ''sops_not_encrypted'' ''file has no top-level sops block''
      else bnd (decrypt yload p path) (\<lambda>data.
       bnd (of_sum (sops_flatten (sp_sep p) data)) (\<lambda>secrets.
       if sha \<noteq> [] then ret \<lparr>snap_secrets = secrets, snap_files = [], snap_revision = take 12 sha, snap_check = sha\<rparr>
       else bnd (catch (in_sh SourceOs (bnd (os_stat path) (\<lambda>_. ret (int_str (mtime path))))) (\<lambda>_. ret [])) (\<lambda>rev.
        ret \<lparr>snap_secrets = secrets, snap_files = [], snap_revision = rev, snap_check = []\<rparr>)))))))"

end
