(* ===== verification/SS_Sources_Proofs.thy ===== *)
theory SS_Sources_Proofs
  imports SS_Sops
begin

text \<open>
  The SOPS provider and its git source: flattening against a reference, the file of the checkout stays inside it,
  and what the child processes see.
\<close>

section \<open>Flattening\<close>

text \<open>The reference: the leaves of the mapping with the list of keys that leads to each, in order.\<close>

fun leaves_of :: "(string \<times> ytree) list \<Rightarrow> (string list \<times> ytree) list" and leaves :: "ytree \<Rightarrow> (string list \<times> ytree) list" where
  "leaves_of [] = []"
| "leaves_of ((key, v) # kvs) = map (\<lambda>(p, x). (key # p, x)) (leaves v) @ leaves_of kvs"
| "leaves (YMap kvs) = leaves_of kvs"
| "leaves v = [([], v)]"

text \<open>Its name: the keys joined by the separator, leading empty ones left out.\<close>

definition flat_name :: "string \<Rightarrow> string list \<Rightarrow> string" where
  "flat_name sep p = join sep (dropWhile (\<lambda>k. k = []) p)"

definition scalar :: "ytree \<Rightarrow> bool" where
  "scalar v \<longleftrightarrow> (case v of YBool _ \<Rightarrow> True | YText _ \<Rightarrow> True | _ \<Rightarrow> False)"

text \<open>The names that occur a second time, in the order of the second and later occurrences.\<close>

fun repeated :: "string list \<Rightarrow> string list \<Rightarrow> string list" where
  "repeated seen [] = []"
| "repeated seen (n # ns) = (if n \<in> set seen then [n] else []) @ repeated (n # seen) ns"

definition reference_flatten :: "string \<Rightarrow> (string \<times> ytree) list \<Rightarrow> source_exn + string dict" where
  "reference_flatten sep data =
     (let named = map (\<lambda>(p, v). (flat_name sep p, v)) (leaves_of data);
          bad = map fst (filter (\<lambda>(n, v). \<not> scalar v) named); again = repeated [] (map fst named) in
      if bad \<noteq> [] then Inl (SourceError ''sops_unsupported_value'' (''unsupported value type for keys: '' @ join '', '' (sort bad)))
      else if again \<noteq> [] then Inl (SourceError ''key_collision'' (''flattened key collision: '' @ join '', '' (sorted_set again)))
      else Inr (map (\<lambda>(n, v). (n, to_str v)) named))"

lemma join_eq_Nil: "p \<noteq> [] \<Longrightarrow> hd p \<noteq> [] \<Longrightarrow> join sep p \<noteq> []"
  by (cases p; cases "tl p") auto

lemma join_snoc: "p \<noteq> [] \<Longrightarrow> join sep (p @ [k]) = join sep p @ sep @ k"
  by (induction sep p rule: join.induct) auto

lemma flat_name_snoc: "flat_name sep (p @ [k]) = child_name sep (flat_name sep p) k"
proof (cases "dropWhile (\<lambda>k. k = []) p = []")
  case True
  then have "list_all (\<lambda>k. k = []) p" by (simp add: dropWhile_eq_Nil_conv list_all_iff)
  then have "dropWhile (\<lambda>k. k = []) (p @ [k]) = (if k = [] then [] else [k])" by (induction p) auto
  with True show ?thesis by (simp add: flat_name_def child_name_def del: dropWhile_eq_Nil_conv)
next
  case False
  define q where "q = dropWhile (\<lambda>k. k = []) p"
  have q: "q \<noteq> []" "hd q \<noteq> []" using False hd_dropWhile [OF False] by (simp_all add: q_def)
  have "dropWhile (\<lambda>k. k = []) (p @ [k]) = q @ [k]"
    using False by (auto simp: q_def dropWhile_append dropWhile_eq_Nil_conv)
  then show ?thesis using join_eq_Nil [OF q, of sep] join_snoc [OF q(1)]
    by (simp add: flat_name_def child_name_def q_def [symmetric])
qed

text \<open>One leaf, as the code treats it.\<close>

definition leaf_step :: "string \<Rightarrow> string list \<times> ytree \<Rightarrow> flat_state \<Rightarrow> flat_state" where
  "leaf_step sep = (\<lambda>(p, v) st. if scalar v then put_value (flat_name sep p) v st
     else st\<lparr>fl_bad := fl_bad st @ [flat_name sep p]\<rparr>)"

lemma walk_leaves:
  "walk_entries sep (flat_name sep p) kvs st = fold (leaf_step sep) (map (\<lambda>(q, v). (p @ q, v)) (leaves_of kvs)) st"
  "walk_value sep (flat_name sep p) v st = fold (leaf_step sep) (map (\<lambda>(q, x). (p @ q, x)) (leaves v)) st"
proof (induction kvs and v arbitrary: p st and p st rule: leaves_of_leaves.induct)
  case (2 key v kvs)
  then show ?case using 2(1) [of "p @ [key]" st] by (simp add: flat_name_snoc case_prod_unfold comp_def)
qed (simp_all add: leaf_step_def scalar_def)

lemma walk_all: "walk_entries sep [] data st = fold (leaf_step sep) (leaves_of data) st"
  using walk_leaves(1) [of sep "[]" data st] by (simp add: flat_name_def case_prod_unfold)

definition names_at :: "string \<Rightarrow> (string list \<times> ytree) list \<Rightarrow> string list" where
  "names_at sep ls = map (\<lambda>(p, v). flat_name sep p) (filter (\<lambda>(p, v). scalar v) ls)"

lemma fold_bad: "fl_bad (fold (leaf_step sep) ls st) = fl_bad st @ map (\<lambda>(p, v). flat_name sep p) (filter (\<lambda>(p, v). \<not> scalar v) ls)"
  by (induction ls arbitrary: st) (auto simp: leaf_step_def put_value_def)

lemma repeated_cong: "set s = set t \<Longrightarrow> repeated s ns = repeated t ns"
  by (induction ns arbitrary: s t) (auto cong: if_cong)

lemma fold_collisions:
  "list_all (\<lambda>(p, v). scalar v) ls \<Longrightarrow>
   fl_collisions (fold (leaf_step sep) ls st) = fl_collisions st @ repeated (keys (fl_out st)) (map (\<lambda>(p, v). flat_name sep p) ls)"
proof (induction ls arbitrary: st)
  case (Cons l ls)
  then show ?case
    by (cases l) (simp add: leaf_step_def put_value_def image_iff
        repeated_cong [of "keys (AList.update k x d)" "k # keys d" for k x d, simplified])
qed simp

lemma fold_out:
  "list_all (\<lambda>(p, v). scalar v) ls \<Longrightarrow> repeated (keys (fl_out st)) (map (\<lambda>(p, v). flat_name sep p) ls) = [] \<Longrightarrow>
   fl_out (fold (leaf_step sep) ls st) = fl_out st @ map (\<lambda>(p, v). (flat_name sep p, to_str v)) ls"
proof (induction ls arbitrary: st)
  case (Cons l ls)
  obtain p v where l: "l = (p, v)" by (cases l)
  have new: "flat_name sep p \<notin> set (keys (fl_out st))" using Cons.prems(2) by (simp add: l split: if_splits)
  have upd: "AList.update k x d = d @ [(k, x)]" if "k \<notin> set (keys d)" for k x and d :: "string dict"
    using that by (induction d) auto
  have "repeated (keys (fl_out st) @ [flat_name sep p]) (map (\<lambda>(p, v). flat_name sep p) ls) = []"
    using Cons.prems(2) repeated_cong [of "keys (fl_out st) @ [flat_name sep p]" "flat_name sep p # keys (fl_out st)"]
    by (simp add: l split: if_splits)
  then show ?case using Cons.IH [of "leaf_step sep l st"] Cons.prems(1) new
    by (simp add: l leaf_step_def put_value_def upd)
qed simp

text \<open>C22. Flattening a decrypted mapping gives exactly its leaves in order, each under its keys joined by the separator; a list or null anywhere, or two leaves with one name, make it fail with the complete sorted list of the offending names.\<close>
theorem flatten_exact: "sops_flatten sep data = reference_flatten sep data"
proof -
  define ls where "ls = leaves_of data"
  have bad: "map fst (filter (\<lambda>(n, v). \<not> scalar v) (map (\<lambda>(p, v). (flat_name sep p, v)) ls))
      = map (\<lambda>(p, v). flat_name sep p) (filter (\<lambda>(p, v). \<not> scalar v) ls)"
    by (induction ls) auto
  have names: "map fst (map (\<lambda>(p, v). (flat_name sep p, v)) ls) = map (\<lambda>(p, v). flat_name sep p) ls"
    by (induction ls) auto
  show ?thesis
  proof (cases "filter (\<lambda>(p, v). \<not> scalar v) ls = []")
    case False
    then show ?thesis unfolding sops_flatten_def reference_flatten_def walk_all Let_def ls_def [symmetric] bad
      by (simp add: fold_bad)
  next
    case True
    then have all: "list_all (\<lambda>(p, v). scalar v) ls" by (auto simp: filter_empty_conv list_all_iff)
    show ?thesis unfolding sops_flatten_def reference_flatten_def walk_all Let_def ls_def [symmetric] bad names
      using True fold_out [OF all, of "\<lparr>fl_out = [], fl_bad = [], fl_collisions = []\<rparr>" sep]
      by (auto simp: fold_bad fold_collisions [OF all] case_prod_unfold)
  qed
qed

section \<open>The file in the checkout\<close>

lemma path_test_lstat:
  assumes "path_test p (sys (at_path fol q lstat_act)) s = (Inr b, s')"
  shows "fsys (sh_os s') = fsys (sh_os s)"
    and "(\<exists>n. at_path fol q lstat_act (fsys (sh_os s)) = Inr (n, fsys (sh_os s)) \<and> b = p n)
      \<or> (\<not> b \<and> (\<exists>e. at_path fol q lstat_act (fsys (sh_os s)) = Inl e))"
proof -
  from assms obtain o' where o': "test_node p (sys (at_path fol q lstat_act)) (sh_os s) = (Inr b, o')" "s' = s\<lparr>sh_os := o'\<rparr>"
    by (auto simp: path_test_def in_sh_def split: sum.splits prod.splits)
  show "fsys (sh_os s') = fsys (sh_os s)" using test_node_lstat(1) [OF o'(1)] by (simp add: o'(2))
  show "(\<exists>n. at_path fol q lstat_act (fsys (sh_os s)) = Inr (n, fsys (sh_os s)) \<and> b = p n)
      \<or> (\<not> b \<and> (\<exists>e. at_path fol q lstat_act (fsys (sh_os s)) = Inl e))"
    by (rule test_node_lstat(2) [OF o'(1)])
qed

lemma no_links_result:
  assumes "no_links cur parts s = (Inr c, s')" "tree_shaped (fsys (sh_os s))" "canonical (fsys (sh_os s)) cur" "''..'' \<notin> set parts"
  shows "c = cur @ filter (\<lambda>x. x \<noteq> [] \<and> x \<noteq> ''.'') parts \<and> fsys (sh_os s') = fsys (sh_os s) \<and> canonical (fsys (sh_os s)) c"
  using assms
proof (induction parts arbitrary: cur s)
  case (Cons x parts)
  show ?case
  proof (cases "x = [] \<or> x = ''.''")
    case True
    then show ?thesis using Cons by auto
  next
    case plain: False
    from Cons.prems(1) plain obtain s1 where
      t: "path_test is_link (os_lstat (cur @ [x])) s = (Inr False, s1)" and r: "no_links (cur @ [x]) parts s1 = (Inr c, s')"
      by (auto simp: bnd_Inr sfail_def split: if_splits)
    let ?f = "fsys (sh_os s)"
    have name: "plain_name x" using plain Cons.prems(4) by (auto simp: plain_name_def)
    note res = path_test_lstat [OF t [unfolded os_lstat_def]]
    note fs = res(1)
    have "node_at ?f (cur @ [x]) \<noteq> Some (NLink t)" for t
    proof
      assume l: "node_at ?f (cur @ [x]) = Some (NLink t)"
      have "resolve max_links ?f False [] (cur @ [x]) = Inr (cur @ [x])"
        using resolve_along [of ?f "[]" cur max_links False "[x]"] Cons.prems(3) name l by (simp add: plain_name_def)
      moreover have "is_dir ?f cur" by (rule tree_parent [OF Cons.prems(2) l])
      ultimately have "at_path False (cur @ [x]) lstat_act ?f = Inr (NLink t, ?f)"
        by (simp add: at_path_def parent_error_def lstat_act_def l)
      with res(2) show False by simp
    qed
    then have "canonical ?f (cur @ [x])" using Cons.prems(3) name by (simp add: canonical_snoc)
    moreover have "filter (\<lambda>x. x \<noteq> [] \<and> x \<noteq> ''.'') (x # parts) = x # filter (\<lambda>x. x \<noteq> [] \<and> x \<noteq> ''.'') parts"
      using plain by simp
    ultimately show ?thesis using Cons.prems(2,4)
      by (simp only:) (rule Cons.IH [OF r, unfolded fs append_assoc append_Cons append_Nil], simp_all)
  qed
qed simp

lemma in_sh_Inr: "in_sh h m s = (Inr x, s') \<longleftrightarrow> (\<exists>o'. m (sh_os s) = (Inr x, o') \<and> s' = s\<lparr>sh_os := o'\<rparr>)"
  by (auto simp: in_sh_def split: sum.splits prod.splits)

text \<open>C15. A successful lookup of the configured file in the checkout returns a regular file at exactly the configured path below the cache's real location: whatever links the repository contains, none leads the provider elsewhere.\<close>
theorem resolve_file_contained:
  assumes "resolve_file g s = (Inr q, s')" "tree_shaped (fsys (sh_os s))"
  shows "\<exists>root. resolve max_links (fsys (sh_os s)) True [] (gc_cache g) = Inr root
    \<and> q = root @ to_path (gc_path g) \<and> ''..'' \<notin> set q
    \<and> (\<exists>d m. node_at (fsys (sh_os s)) q = Some (NFile d m)) \<and> fsys (sh_os s') = fsys (sh_os s)"
proof -
  let ?f = "fsys (sh_os s)"
  have valid: "path_valid (gc_path g)" using assms(1) by (auto simp: resolve_file_def sfail_def split: if_splits)
  from assms(1) valid obtain root cur s1 s2 s3 where
    r: "in_sh SourceOs (os_resolve (gc_cache g)) s = (Inr root, s1)" and
    c: "no_links root (split_on CHR ''/'' (gc_path g)) s1 = (Inr cur, s2)" and
    p: "in_sh (\<lambda>e. if e = ENOENT \<or> e = ENOTDIR then SourceError ''git_file_missing'' ''file not found in repository''
              else SourceError ''git_path_invalid'' ''git_path cannot be resolved'') (os_realpath cur) s2 = (Inr q, s3)" and
    t: "path_test is_regular (os_stat q) s3 = (Inr True, s')"
    by (auto simp: resolve_file_def sfail_def bnd_Inr split: if_splits)
  have root: "resolve max_links ?f True [] (gc_cache g) = Inr root" "fsys (sh_os s1) = ?f"
    using r by (auto simp: in_sh_Inr os_resolve_def dest!: sys_Inr split: sum.splits)
  have "canonical ?f root" by (rule resolve_canonical [OF root(1)]) simp
  moreover have "''..'' \<notin> set (split_on CHR ''/'' (gc_path g))" using valid by (simp add: path_valid_def)
  ultimately have cur: "cur = root @ to_path (gc_path g)" "fsys (sh_os s2) = ?f" "canonical ?f cur"
    using no_links_result [OF c, unfolded root(2)] assms(2) unfolding to_path_def by blast+
  have along: "resolve max_links ?f True [] cur = Inr cur"
    using resolve_along [of ?f "[]" cur max_links True "[]"] cur(3) by simp
  have q: "q = cur" "fsys (sh_os s3) = ?f"
    using p cur(2) along
    by (auto simp: in_sh_Inr os_realpath_def at_path_def realpath_act_def dest!: sys_Inr split: sum.splits option.splits)
  note test = path_test_lstat [OF t [unfolded os_stat_def]]
  have "\<exists>n. at_path True cur lstat_act ?f = Inr (n, ?f) \<and> is_regular n"
    using test(2) by (simp add: q)
  then have "\<exists>d m. node_at ?f cur = Some (NFile d m)"
    using along by (auto simp: at_path_def lstat_act_def split: option.splits elim!: is_regular.elims)
  moreover have "''..'' \<notin> set cur" using cur(3) by (auto simp: canonical_def list_all_iff plain_name_def)
  ultimately show ?thesis using root(1) test(1) by (simp add: q cur(1))
qed

definition demo_checkout :: source_host where
  "demo_checkout = \<lparr>sh_os = \<lparr>fsys = [([''data''], NDir), ([''data'', ''git''], NDir), ([''data'', ''git'', ''c''], NDir),
       ([''data'', ''git'', ''c'', ''a''], NDir), ([''data'', ''git'', ''c'', ''a'', ''s.yaml''], NFile ''x'' 420)], faults = [], rnd = [], trace = []\<rparr>,
     sh_environ = [], sh_ssh_found = True, sh_answers = [], sh_calls = []\<rparr>"

definition demo_source :: git_source where
  "demo_source = \<lparr>gc_url = ''https://h/r'', gc_branch = ''main'', gc_path = ''a/./s.yaml'', gc_username = [], gc_data_dir = [''data''],
     gc_kind = Some ''https'', gc_cache = [''data'', ''git'', ''c''], gc_askpass = []\<rparr>"

lemma resolve_file_contained_witness:
  "fst (resolve_file demo_source demo_checkout) = Inr [''data'', ''git'', ''c'', ''a'', ''s.yaml'']
   \<and> (\<exists>root. [''data'', ''git'', ''c'', ''a'', ''s.yaml''] = root @ to_path (gc_path demo_source))"
proof -
  have run: "fst (resolve_file demo_source demo_checkout) = Inr [''data'', ''git'', ''c'', ''a'', ''s.yaml'']"
    by code_simp
  then obtain s' where r: "resolve_file demo_source demo_checkout = (Inr [''data'', ''git'', ''c'', ''a'', ''s.yaml''], s')"
    by (cases "resolve_file demo_source demo_checkout") simp
  have "tree_shaped (fsys (sh_os demo_checkout))" by code_simp
  from resolve_file_contained [OF r this] run show ?thesis by blast
qed

section \<open>What the child processes see\<close>

definition git_keys :: "string list" where
  "git_keys = [''PATH'', ''HOME'', ''LC_ALL'', ''GIT_TERMINAL_PROMPT'', ''GIT_CONFIG_NOSYSTEM'', ''GIT_CONFIG_GLOBAL'', ''GIT_ALLOW_PROTOCOL'',
     ''GIT_SSH_COMMAND'', ''GIT_ASKPASS'', ''SS_GIT_TOKEN'', ''SS_GIT_USERNAME'']"

definition clean_env :: "child_call \<Rightarrow> bool" where
  "clean_env c \<longleftrightarrow>
     (hd (cc_argv c) = ''git'' \<and> list_all (\<lambda>k. k \<in> set git_keys) (keys (cc_env c)))
     \<or> (hd (cc_argv c) = ''sops'' \<and> list_all (\<lambda>k. \<not> starts_with ''BW_'' k \<and> \<not> starts_with ''SS_GIT_'' k) (keys (cc_env c)))"

definition clean_log :: "source_host \<Rightarrow> bool" where
  "clean_log s \<longleftrightarrow> list_all clean_env (sh_calls s)"

named_theorems clean

lemma clean_pure [clean]:
  "keeps clean_log (ret x)" "keeps clean_log (raise e)" "keeps clean_log (sfail code msg)" "keeps clean_log (gets f)"
  "keeps clean_log (guard_raise b e)" "keeps clean_log (of_sum r)" "keeps clean_log (in_sh h m)" "keeps clean_log (Pair r)"
  by (auto simp: valid_def clean_log_def sfail_def guard_raise_def in_sh_def split: sum.splits prod.splits)

lemma clean_bnd [clean]: "keeps clean_log m \<Longrightarrow> (\<And>x. keeps clean_log (f x)) \<Longrightarrow> keeps clean_log (bnd m f)"
  by (rule valid_bnd)

lemma clean_andthen [clean]: "keeps clean_log m \<Longrightarrow> keeps clean_log n \<Longrightarrow> keeps clean_log (andthen m n)"
  unfolding andthen_def by (rule valid_bnd)

lemma clean_catch [clean]: "keeps clean_log m \<Longrightarrow> (\<And>e. keeps clean_log (h e)) \<Longrightarrow> keeps clean_log (catch m h)"
  by (rule valid_catch)

lemma clean_if [clean]: "keeps clean_log m \<Longrightarrow> keeps clean_log n \<Longrightarrow> keeps clean_log (if b then m else n)"
  by simp

lemma clean_path_test [clean]: "keeps clean_log (path_test q m)" and clean_rmtree [clean]: "keeps clean_log (rmtree p)"
  unfolding path_test_def rmtree_def by (rule clean)+

lemma clean_run: "clean_env \<lparr>cc_argv = argv, cc_env = env, cc_cwd = cwd\<rparr> \<Longrightarrow> keeps clean_log (run_child argv env cwd)"
  by (auto simp: run_child_def clean_log_def valid_def Let_def split: list.splits prod.splits)

lemma clean_key_file [clean]: "keeps clean_log (key_file_ok p a i l)"
  unfolding key_file_ok_def by (rule clean_bnd, rule clean) (auto split: node.split intro: clean)

lemma clean_git_env: "valid clean_log (git_env g) (\<lambda>env s. clean_log s \<and> list_all (\<lambda>k. k \<in> set git_keys) (keys env)) (\<lambda>_. clean_log)"
proof -
  have ssh: "keeps clean_log (ssh_command g)"
    unfolding ssh_command_def Let_def case_prod_unfold by (intro clean)
  have add: "valid clean_log (bnd (ssh_command g) (\<lambda>c. ret (f c))) (\<lambda>env s. clean_log s \<and> list_all (\<lambda>k. k \<in> set git_keys) (keys env)) (\<lambda>_. clean_log)"
    if "\<And>c. list_all (\<lambda>k. k \<in> set git_keys) (keys (f c))" for f
    by (rule valid_bnd [OF ssh]) (use that in \<open>simp add: valid_def\<close>)
  show ?thesis unfolding git_env_def Let_def
    by (rule valid_bnd [where R = "\<lambda>_. clean_log"], rule clean, rule valid_if, rule add, simp add: git_keys_def)
      (auto simp: valid_def git_keys_def)
qed

lemma clean_git [clean]: "keeps clean_log (git g args def cwd)"
  unfolding git_def
proof (rule valid_bnd [OF clean_git_env])
  fix env
  show "valid (\<lambda>s. clean_log s \<and> list_all (\<lambda>k. k \<in> set git_keys) (keys env))
      (bnd (run_child ([''git'', ''-c'', ''core.hooksPath=/dev/null'', ''-c'', ''protocol.ext.allow=never''] @ args) env cwd) (\<lambda>out.
       case out of
         ChildTimeout \<Rightarrow> sfail ''git_timeout'' ''git timed out''
       | ChildNotFound \<Rightarrow> sfail ''git_binary_missing'' ''git binary not found''
       | ChildOsError \<Rightarrow> sfail ''git_exec_failed'' ''git could not be executed''
       | ChildExit rc stdout stderr \<Rightarrow>
           if rc \<noteq> 0 then (let code = classify stderr def in sfail code (''git failed ('' @ code @ '')''))
           else ret stdout)) (\<lambda>_. clean_log) (\<lambda>_. clean_log)"
  proof (cases "list_all (\<lambda>k. k \<in> set git_keys) (keys env)")
    case True
    have "keeps clean_log (run_child ([''git'', ''-c'', ''core.hooksPath=/dev/null'', ''-c'', ''protocol.ext.allow=never''] @ args) env cwd)"
      by (rule clean_run) (use True in \<open>simp add: clean_env_def\<close>)
    then show ?thesis using True unfolding Let_def
      by (simp only: simp_thms) (erule clean_bnd, auto split: child_outcome.split intro: clean)
  qed (simp add: valid_def)
qed

lemma clean_no_links [clean]: "keeps clean_log (no_links cur parts)"
  by (induction cur parts rule: no_links.induct) (simp_all add: clean)

lemma clean_sum_case: "(\<And>x. keeps clean_log (f x)) \<Longrightarrow> (\<And>y. keeps clean_log (h y)) \<Longrightarrow> keeps clean_log (case r of Inl x \<Rightarrow> f x | Inr y \<Rightarrow> h y)"
  by (cases r) simp_all

lemma clean_rethrow [clean]:
  "(\<And>c msg. keeps clean_log (f c msg)) \<Longrightarrow> keeps clean_log (case e of SourceError c msg \<Rightarrow> f c msg | SourceOs x \<Rightarrow> raise e | SourceCrash x \<Rightarrow> raise e)"
  by (cases e) (simp_all add: clean)

lemma clean_clone [clean]: "keeps clean_log (clone g)"
  unfolding clone_def by (intro clean)

lemma clean_update [clean]: "keeps clean_log (update_cache g)"
  unfolding update_cache_def update_in_place_def by (intro clean)

lemma clean_resolve [clean]: "keeps clean_log (resolve_file g)"
  unfolding resolve_file_def by (intro clean)

lemma clean_sync [clean]: "keeps clean_log (git_sync g)"
  unfolding git_sync_def Let_def by (intro clean)

lemma clean_git_of [clean]: "keeps clean_log (git_of sha1 askpass p)"
  unfolding git_of_def by (intro clean)

lemma clean_parse [clean]: "keeps clean_log (sops_parse yload text code msg)"
  unfolding sops_parse_def by (auto split: sum.split yfail.split intro: clean)

lemma clean_read [clean]: "keeps clean_log (read_encrypted p)"
  unfolding read_encrypted_def by (rule clean_bnd, rule clean) (auto split: option.split intro: clean)

lemma clean_decrypt [clean]: "keeps clean_log (decrypt yload p path)"
proof -
  have env: "clean_env \<lparr>cc_argv = [''sops'', ''-d'', ''--output-type'', ''yaml'', f], cc_env = sops_env p e, cc_cwd = None\<rparr>" for e f
    by (auto simp: clean_env_def sops_env_def list_all_iff)
  have data: "keeps clean_log (case data of YNone \<Rightarrow> ret [] | YMap kvs \<Rightarrow> ret (AList.delete ''sops'' kvs)
           | _ \<Rightarrow> sfail ''sops_invalid_yaml'' ''decrypted data is not a mapping'')" for data
    by (cases data) (simp_all add: clean)
  have out: "keeps clean_log (case out of
       ChildTimeout \<Rightarrow> sfail ''sops_timeout'' ''sops timed out''
     | ChildNotFound \<Rightarrow> sfail ''sops_binary_missing'' ''sops binary not found''
     | ChildOsError \<Rightarrow> sfail ''sops_exec_failed'' ''sops could not be executed''
     | ChildExit rc stdout _ \<Rightarrow> f rc stdout)" if "\<And>rc stdout. keeps clean_log (f rc stdout)" for out f
    using that by (cases out) (simp_all add: clean)
  show ?thesis unfolding decrypt_def
    by (intro clean clean_run [OF env] out data)
qed


section \<open>Quoting for the shell\<close>

text \<open>How a POSIX shell reads one word that ends with the text: quoted stretches verbatim, outside them a backslash escapes.\<close>

fun shell_word :: "bool \<Rightarrow> string \<Rightarrow> string option" where
  "shell_word q [] = (if q then None else Some [])"
| "shell_word q (c # s) =
     (if c = squote then shell_word (\<not> q) s
      else if \<not> q \<and> c = bslash then (case s of [] \<Rightarrow> None | d # t \<Rightarrow> map_option ((#) d) (shell_word False t))
      else if \<not> q \<and> is_space c then None
      else map_option ((#) c) (shell_word q s))"


end
