(* ===== verification/Py_Http.thy ===== *)
theory Py_Http
  imports Py_Url
begin

text \<open>
  What the web servers use of \<open>http.server\<close>, \<open>email.message\<close> and \<open>urllib.parse\<close>: header lookup, percent decoding,
  query strings and \<open>int()\<close> of a text.  \<open>dec\<close> is \<open>bytes.decode("utf-8", "replace")\<close>, which can leave the code
  points this development represents.
\<close>

type_synonym headers = "(string \<times> string) list"

text \<open>\<open>headers.get(name)\<close>: the first field of that name, case-insensitively.\<close>

definition hget :: "headers \<Rightarrow> string \<Rightarrow> string option" where
  "hget hs name = map_option snd (List.find (\<lambda>(k, _). lower k = lower name) hs)"

text \<open>\<open>headers.get(name) or ""\<close>.\<close>

definition hget_or :: "headers \<Rightarrow> string \<Rightarrow> string" where
  "hget_or hs name = (case hget hs name of None \<Rightarrow> [] | Some v \<Rightarrow> v)"

section \<open>Percent decoding\<close>

definition hex_nibble :: "char \<Rightarrow> nat" where
  "hex_nibble c = (let n = (of_char c :: nat) in if n \<le> 57 then n - 48 else if n \<le> 70 then n - 55 else n - 87)"

fun unquote_to_bytes :: "string \<Rightarrow> bytes" where
  "unquote_to_bytes (p # a # b # s) =
     (if p = CHR ''%'' \<and> hex_char a \<and> hex_char b then char_of (16 * hex_nibble a + hex_nibble b) # unquote_to_bytes s
      else p # unquote_to_bytes (a # b # s))"
| "unquote_to_bytes s = s"

definition is_ascii :: "char \<Rightarrow> bool" where
  "is_ascii c \<longleftrightarrow> (of_char c :: nat) < 128"

text \<open>Runs of ASCII characters are decoded, the rest is kept.\<close>

function unquote_runs :: "(bytes \<Rightarrow> string) \<Rightarrow> string \<Rightarrow> string" where
  "unquote_runs dec [] = []"
| "unquote_runs dec (c # s) =
     (if is_ascii c then dec (unquote_to_bytes (takeWhile is_ascii (c # s))) @ unquote_runs dec (dropWhile is_ascii s)
      else c # unquote_runs dec s)"
  by pat_completeness auto
termination
  by (relation "measure (\<lambda>(dec, s). length s)") (auto intro: le_less_trans [OF length_dropWhile_le])

definition unquote :: "(bytes \<Rightarrow> string) \<Rightarrow> string \<Rightarrow> string" where
  "unquote dec s = (if CHR ''%'' \<in> set s then unquote_runs dec s else s)"

text \<open>\<open>parse_qs(query, keep_blank_values=True)\<close>: names with the list of their values, in order of appearance.\<close>

definition plus_space :: "string \<Rightarrow> string" where
  "plus_space s = map (\<lambda>c. if c = CHR ''+'' then CHR '' '' else c) s"

definition parse_qs :: "(bytes \<Rightarrow> string) \<Rightarrow> string \<Rightarrow> (string list) dict" where
  "parse_qs dec query =
     fold (\<lambda>nv d. let name = unquote dec (plus_space (before CHR ''='' nv)); v = unquote dec (plus_space (after CHR ''='' nv)) in
         AList.update name ((case dget d name of None \<Rightarrow> [] | Some vs \<Rightarrow> vs) @ [v]) d)
       (filter (\<lambda>nv. nv \<noteq> []) (split_on CHR ''&'' query)) []"

section \<open>Numbers\<close>

text \<open>\<open>int(text)\<close>: blanks around, a sign, digits with single underscores between them.\<close>

definition int_digits :: "string \<Rightarrow> bool" where
  "int_digits s \<longleftrightarrow> list_all (\<lambda>p. p \<noteq> [] \<and> list_all is_digit p) (split_on CHR ''_'' s)"

definition py_int :: "string \<Rightarrow> int option" where
  "py_int text =
     (let s = strip text; signed = (s \<noteq> [] \<and> (hd s = CHR ''-'' \<or> hd s = CHR ''+'')); ds = (if signed then tl s else s) in
      if int_digits ds
      then Some ((if signed \<and> hd s = CHR ''-'' then -1 else 1) * int (dec_value 0 (filter (\<lambda>c. c \<noteq> CHR ''_'') ds)))
      else None)"

lemma py_http_examples:
  "py_int '' +1_0 '' = Some 10" "py_int ''1__0'' = None" "py_int '''' = None" "py_int ''-7'' = Some (-7)"
  "unquote id ''a%2Fb%zz%'' = ''a/b%zz%''"
  "parse_qs id ''a=1&b&a=2%20x&=&&c=p+q'' = [(''a'', [''1'', ''2 x'']), (''b'', [''''] ), ('''', ['''']), (''c'', [''p q''])]"
  "hget [(''Content-Type'', ''x'')] ''content-type'' = Some ''x''"
  by code_simp+

end
