(* ===== verification/AU_Router.thy ===== *)
theory AU_Router
  imports Py_Http Py_Json Py_Monad
begin

text \<open>
  The admin-UI skeleton, \<open>admin-ui/app/web/skeleton\<close> (vendored unchanged into the add-ons as \<open>app/web/admin_ui\<close>):
  \<open>errors.py\<close>, \<open>headers.py\<close>, \<open>ingress.py\<close> and \<open>router.py\<close>.
\<close>

section \<open>Errors\<close>

definition ERROR_STATUS :: "int dict" where
  "ERROR_STATUS = [(''bad_request'', 400), (''confirmation_required'', 400), (''ingress_only'', 403), (''not_found'', 404),
     (''method_not_allowed'', 405), (''conflict'', 409), (''protected'', 409), (''payload_too_large'', 413), (''internal_error'', 500)]"

record api_error =
  ae_code :: string
  ae_message :: string
  ae_status :: int

text \<open>The constructor; an unknown code is a \<open>ValueError\<close> (None).\<close>

definition make_api_error :: "int dict \<Rightarrow> string \<Rightarrow> string \<Rightarrow> int option \<Rightarrow> api_error option" where
  "make_api_error table code message status =
     (case dget table code of
        None \<Rightarrow> None
      | Some s \<Rightarrow> Some \<lparr>ae_code = code, ae_message = (if message = [] then code else message),
          ae_status = (case status of Some t \<Rightarrow> t | None \<Rightarrow> s)\<rparr>)"

definition code_shape :: "string \<Rightarrow> bool" where
  "code_shape s \<longleftrightarrow> re_first_rest is_lower_az (\<lambda>c. is_lower_az c \<or> is_digit c \<or> c = CHR ''_'') 39 s \<and> 2 \<le> length s"

definition CODE_RE :: "string \<Rightarrow> bool" where "CODE_RE s \<longleftrightarrow> re_match_eol code_shape s"

text \<open>Extending the table; the values of a wrong type or form are a \<open>ValueError\<close> with its message.\<close>

definition register_error_code :: "(pyval \<Rightarrow> string) \<Rightarrow> pyval \<Rightarrow> pyval \<Rightarrow> int dict \<Rightarrow> string + int dict" where
  "register_error_code repr code status table =
     (case code of
        PStr c \<Rightarrow>
          if \<not> CODE_RE c then Inl (''malformed error code: '' @ repr code)
          else (case status of
              PInt s \<Rightarrow>
                if \<not> (400 \<le> s \<and> s \<le> 599) then Inl (''invalid status for '' @ c @ '': '' @ repr status)
                else (case dget table c of
                    None \<Rightarrow> Inr (AList.update c s table)
                  | Some old \<Rightarrow> if old \<noteq> s then Inl (''error code '' @ c @ '' already registered with status '' @ int_str old) else Inr table)
            | _ \<Rightarrow> Inl (''invalid status for '' @ c @ '': '' @ repr status))
      | _ \<Rightarrow> Inl (''malformed error code: '' @ repr code))"

section \<open>Headers and the ingress gate\<close>

definition DEFAULT_CSP :: string where
  "DEFAULT_CSP = map (\<lambda>c. if c = CHR 0x60 then CHR 0x27 else c)
     ''default-src `none`; script-src `self`; style-src `self`; img-src `self` data:; connect-src `self`; base-uri `none`; form-action `self`; frame-ancestors `self`''"

definition security_headers :: "string \<Rightarrow> string option \<Rightarrow> headers" where
  "security_headers kind csp =
     [(''X-Content-Type-Options'', ''nosniff''), (''Referrer-Policy'', ''same-origin'')]
     @ (if kind \<in> {''html'', ''static''} then (case csp of Some c \<Rightarrow> [(''Content-Security-Policy'', c)] | None \<Rightarrow> []) else [])"

definition INGRESS_REMOTE :: string where "INGRESS_REMOTE = ''172.30.32.2''"

definition is_ingress :: "string \<Rightarrow> headers \<Rightarrow> string \<Rightarrow> bool" where
  "is_ingress peer hs remote \<longleftrightarrow> peer = remote \<and> hget_or hs ''X-Ingress-Path'' \<noteq> []"

definition USER_HEADERS :: "(string \<times> string) list" where
  "USER_HEADERS = [(''user_id'', ''X-Remote-User-Id''), (''name'', ''X-Remote-User-Name''), (''display_name'', ''X-Remote-User-Display-Name'')]"

definition MAX_VALUE :: nat where "MAX_VALUE = 128"

definition ingress_user :: "headers \<Rightarrow> pyval dict option" where
  "ingress_user hs =
     (let vals = map (\<lambda>(k, h). (k, take MAX_VALUE (hget_or hs h))) USER_HEADERS;
          groups = map (take MAX_VALUE) (filter (\<lambda>g. g \<noteq> []) (map strip (split_on CHR '','' (hget_or hs ''X-Remote-User-Groups'')))) in
      if list_ex (\<lambda>(_, v). v \<noteq> []) vals \<or> groups \<noteq> []
      then Some (map (\<lambda>(k, v). (k, PStr v)) vals @ [(''groups'', PList (map PStr groups))]) else None)"

section \<open>Requests and routes\<close>

record download =
  dl_filename :: string
  dl_content_type :: string
  dl_data :: bytes

record request =
  rq_method :: string
  rq_path :: string
  rq_params :: "string dict"
  rq_query :: "(string list) dict"
  rq_headers :: headers
  rq_json :: pyval
  rq_public :: bool

definition req_arg :: "request \<Rightarrow> string \<Rightarrow> string option" where
  "req_arg r name = (case dget (rq_query r) name of Some (v # _) \<Rightarrow> Some v | _ \<Rightarrow> None)"

text \<open>The object body; the error is the code and message of the \<open>ApiError\<close>.\<close>

definition req_body :: "request \<Rightarrow> (string \<times> string) + pyval dict" where
  "req_body r = (case rq_json r of PNone \<Rightarrow> Inr [] | PDict d \<Rightarrow> Inr d | _ \<Rightarrow> Inl (''bad_request'', ''JSON object expected''))"

definition public_segment :: "string \<Rightarrow> bool" where
  "public_segment s \<longleftrightarrow> (case s of [] \<Rightarrow> False
     | c # cs \<Rightarrow> (is_alnum c \<or> c \<in> set ''_-'') \<and> list_all (\<lambda>c. is_alnum c \<or> c \<in> set ''_.-'') cs)"

definition public_shape :: "string \<Rightarrow> bool" where
  "public_shape p \<longleftrightarrow> (case p of [] \<Rightarrow> False | c # s \<Rightarrow> c = CHR ''/'' \<and> list_all public_segment (split_on CHR ''/'' s))"

definition PUBLIC_PATH_RE :: "string \<Rightarrow> bool" where "PUBLIC_PATH_RE p \<longleftrightarrow> re_match_eol public_shape p"

definition NEVER_PUBLIC :: "string list" where "NEVER_PUBLIC = [''/icon'', ''/static'']"

record 'h route =
  rt_method :: string
  rt_pattern :: string
  rt_parts :: "string list"
  rt_handler :: 'h

record 'h router =
  ro_routes :: "'h route list"
  ro_public :: "(string \<times> string) list"

definition new_router :: "'h router" where "new_router = \<lparr>ro_routes = [], ro_public = []\<rparr>"

definition upper_char :: "char \<Rightarrow> char" where
  "upper_char c = (if is_lower_az c then char_of (of_char c - (32 :: nat)) else c)"

text \<open>\<open>method.upper()\<close> of an ASCII method name.\<close>

definition upper :: "string \<Rightarrow> string" where "upper s = map upper_char s"

definition literal_public :: "string \<Rightarrow> bool" where
  "literal_public p \<longleftrightarrow> PUBLIC_PATH_RE p \<and> ''..'' \<notin> set (split_on CHR ''/'' p) \<and> ''.'' \<notin> set (split_on CHR ''/'' p)
     \<and> p \<notin> set NEVER_PUBLIC \<and> \<not> starts_with ''/static/'' p"

text \<open>None is the \<open>ValueError\<close> for a public route without a literal path.\<close>

definition router_add :: "string \<Rightarrow> string \<Rightarrow> 'h \<Rightarrow> bool \<Rightarrow> 'h router \<Rightarrow> 'h router option" where
  "router_add method pattern handler public r =
     (let m = upper method in
      if public \<and> \<not> literal_public pattern then None
      else Some (r\<lparr>ro_public := (if public then List.insert (m, pattern) (ro_public r) else ro_public r),
        ro_routes := ro_routes r @ [\<lparr>rt_method = m, rt_pattern = pattern,
          rt_parts = split_on CHR ''/'' (strip_of CHR ''/'' pattern), rt_handler = handler\<rparr>]\<rparr>))"

definition is_public :: "'h router \<Rightarrow> string \<Rightarrow> string \<Rightarrow> bool" where
  "is_public r method path \<longleftrightarrow> (method, path) \<in> set (ro_public r)"

definition routes :: "'h router \<Rightarrow> (string \<times> string) list" where
  "routes r = map (\<lambda>t. (rt_method t, rt_pattern t)) (ro_routes r)"

text \<open>The comparison of one route with the segments: None when some part does not match.\<close>

definition is_param :: "string \<Rightarrow> bool" where
  "is_param part \<longleftrightarrow> starts_with ''{'' part \<and> ends_with ''}'' part"

fun match_parts :: "(bytes \<Rightarrow> string) \<Rightarrow> string list \<Rightarrow> string list \<Rightarrow> string dict \<Rightarrow> string dict option" where
  "match_parts dec (part # parts) (seg # segs) params =
     (if is_param part then
        (if seg = [] then None
         else match_parts dec parts segs (AList.update (butlast (tl part)) (unquote dec seg) params))
      else if part \<noteq> seg then None else match_parts dec parts segs params)"
| "match_parts dec _ _ params = Some params"

fun match_routes :: "(bytes \<Rightarrow> string) \<Rightarrow> string \<Rightarrow> string list \<Rightarrow> 'h route list \<Rightarrow> bool \<Rightarrow> (string \<times> string) + ('h \<times> string dict)" where
  "match_routes dec method segs [] matched =
     Inl (if matched then (''method_not_allowed'', ''method not allowed'') else (''not_found'', ''not found''))"
| "match_routes dec method segs (r # rs) matched =
     (if length (rt_parts r) \<noteq> length segs then match_routes dec method segs rs matched
      else (case match_parts dec (rt_parts r) segs [] of
          None \<Rightarrow> match_routes dec method segs rs matched
        | Some params \<Rightarrow> if rt_method r = method then Inr (rt_handler r, params) else match_routes dec method segs rs True))"

definition route_match :: "(bytes \<Rightarrow> string) \<Rightarrow> 'h router \<Rightarrow> string \<Rightarrow> string \<Rightarrow> (string \<times> string) + ('h \<times> string dict)" where
  "route_match dec r method path = match_routes dec method (split_on CHR ''/'' (strip_of CHR ''/'' path)) (ro_routes r) False"

end
