(* ===== verification/AU_Static.thy ===== *)
theory AU_Static
  imports AU_Router Py_Path
begin

text \<open>
  \<open>admin-ui/app/web/skeleton/static.py\<close>: the static files.  \<open>sha\<close> is the hexadecimal SHA-256 of the standard library;
  \<open>stamp\<close> is the modification time and size \<open>stat\<close> reports for a path of a file system.
\<close>

section \<open>Names\<close>

definition segment_shape :: "string \<Rightarrow> bool" where
  "segment_shape s \<longleftrightarrow> (case s of [] \<Rightarrow> False
     | c # cs \<Rightarrow> (is_alnum c \<or> c = CHR ''_'') \<and> list_all (\<lambda>c. is_alnum c \<or> c \<in> set ''_.-'') cs)"

definition SEGMENT_RE :: "string \<Rightarrow> bool" where "SEGMENT_RE s \<longleftrightarrow> re_match_eol segment_shape s"

definition CONTENT_TYPES :: "string dict" where
  "CONTENT_TYPES =
     [(''mjs'', ''text/javascript; charset=utf-8''), (''js'', ''text/javascript; charset=utf-8''), (''css'', ''text/css; charset=utf-8''),
      (''png'', ''image/png''), (''svg'', ''image/svg+xml''), (''txt'', ''text/plain; charset=utf-8'')]"

record asset =
  as_body :: bytes
  as_ctype :: string
  as_etag :: string

definition remove_prefix :: "string \<Rightarrow> string \<Rightarrow> string" where
  "remove_prefix p s = (if starts_with p s then drop (length p) s else s)"

definition etag_matches :: "string option \<Rightarrow> string \<Rightarrow> bool" where
  "etag_matches header etag =
     (case header of None \<Rightarrow> False
      | Some h \<Rightarrow> h \<noteq> [] \<and> list_ex (\<lambda>c. c = ''*'' \<or> remove_prefix ''W/'' c = etag) (map strip (split_on CHR '','' h)))"

section \<open>The asset attributes of the index\<close>

text \<open>\<open>\\w\<close> on the code points up to 255, for the word boundary before the attribute name.\<close>

definition word_char :: "char \<Rightarrow> bool" where
  "word_char c \<longleftrightarrow> is_alnum c \<or> c = CHR ''_''
     \<or> (let n = (of_char c :: nat) in n \<in> {170, 178, 179, 181, 185, 186, 188, 189, 190} \<or> (192 \<le> n \<and> n \<noteq> 215 \<and> n \<noteq> 247))"

definition attr_names :: "string list" where
  "attr_names = [''src='' @ [dquote], ''href='' @ [dquote]]"

text \<open>One match of the pattern at the start of the text: the attribute with its quote, the path, the text after the path.\<close>

definition match_attr :: "string \<Rightarrow> (string \<times> string \<times> string) option" where
  "match_attr s =
     (case filter (\<lambda>a. starts_with a s) attr_names of
        [] \<Rightarrow> None
      | a # _ \<Rightarrow>
          (let rest = drop (length a) s; rel = takeWhile (\<lambda>c. c \<noteq> dquote \<and> c \<noteq> CHR ''?'' \<and> c \<noteq> CHR ''#'') rest;
               tail = drop (length rel) rest in
           if starts_with ''static/'' rel \<and> length ''static/'' < length rel \<and> tail \<noteq> [] \<and> hd tail = dquote
           then Some (a, rel, tail) else None))"

datatype piece = Plain string | Attr string string

text \<open>The text cut at the matches, leftmost first; \<open>w\<close> says whether the character before is a word character.\<close>

function pieces :: "bool \<Rightarrow> string \<Rightarrow> piece list" where
  "pieces w [] = []"
| "pieces w (c # s) =
     (case (if w then None else match_attr (c # s)) of
        None \<Rightarrow> Plain [c] # pieces (word_char c) s
      | Some (a, rel, tail) \<Rightarrow> Attr a rel # Plain [dquote] # pieces False (drop (length a + length rel) s))"
  by pat_completeness auto
termination
  by (relation "measure (\<lambda>(w, s). length s)") auto

section \<open>Serving\<close>

record static_files =
  st_os :: os
  st_hashes :: "(path \<times> ((nat \<times> nat) \<times> string)) list"

type_synonym 'a static = "(static_files, oserr, 'a) prog"

definition in_static :: "'a io \<Rightarrow> 'a static" where
  "in_static m = (\<lambda>s. case m (st_os s) of (r, o') \<Rightarrow> (r, s\<lparr>st_os := o'\<rparr>))"

definition extension :: "string \<Rightarrow> string" where
  "extension seg = (if CHR ''.'' \<in> set seg then after_last CHR ''.'' seg else [])"

text \<open>Every error inside the \<open>try\<close> means no asset.\<close>

definition locate :: "path \<Rightarrow> string \<Rightarrow> bool \<Rightarrow> (path \<times> string) option static" where
  "locate root_dir rel allow_html =
     (let segments = split_on CHR ''/'' rel; ext = extension (last segments) in
      if \<not> list_all SEGMENT_RE segments then ret None
      else if dget CONTENT_TYPES ext = None \<and> \<not> allow_html then ret None
      else catch
        (bnd (in_static (os_resolve root_dir)) (\<lambda>root.
         bnd (in_static (os_resolve (root @ to_path rel))) (\<lambda>target.
         if \<not> below root target then ret None
         else bnd (in_static (test_node is_regular (os_stat target))) (\<lambda>reg.
           ret (if reg then Some (target, case dget CONTENT_TYPES ext of Some t \<Rightarrow> t | None \<Rightarrow> []) else None)))))
        (\<lambda>_. ret None))"

definition digest :: "(bytes \<Rightarrow> string) \<Rightarrow> (fs \<Rightarrow> path \<Rightarrow> nat \<times> nat) \<Rightarrow> path \<Rightarrow> string static" where
  "digest sha stamp target =
     andthen (in_static (os_stat target))
     (bnd (gets (\<lambda>s. (stamp (fsys (st_os s)) target, map_of (st_hashes s) target))) (\<lambda>(key, cached).
      case cached of
        Some (k, d) \<Rightarrow>
          if k = key then ret d
          else bnd (in_static (os_read target)) (\<lambda>data.
            andthen (modify (\<lambda>s. s\<lparr>st_hashes := AList.update target (key, sha data) (st_hashes s)\<rparr>)) (ret (sha data)))
      | None \<Rightarrow> bnd (in_static (os_read target)) (\<lambda>data.
            andthen (modify (\<lambda>s. s\<lparr>st_hashes := AList.update target (key, sha data) (st_hashes s)\<rparr>)) (ret (sha data)))))"

definition asset_version :: "(bytes \<Rightarrow> string) \<Rightarrow> (fs \<Rightarrow> path \<Rightarrow> nat \<times> nat) \<Rightarrow> path \<Rightarrow> string \<Rightarrow> string option static" where
  "asset_version sha stamp www rel =
     bnd (locate www (drop (length ''static/'') rel) False) (\<lambda>found. case found of
       None \<Rightarrow> ret None
     | Some (target, _) \<Rightarrow> catch (bnd (digest sha stamp target) (\<lambda>d. ret (Some (take 12 d)))) (\<lambda>_. ret None))"

text \<open>The index with its versions, piece by piece.\<close>

definition render_piece :: "(bytes \<Rightarrow> string) \<Rightarrow> (fs \<Rightarrow> path \<Rightarrow> nat \<times> nat) \<Rightarrow> path \<Rightarrow> piece \<Rightarrow> string \<Rightarrow> string static" where
  "render_piece sha stamp www p acc = (case p of
     Plain s \<Rightarrow> ret (acc @ s)
   | Attr a rel \<Rightarrow> bnd (asset_version sha stamp www rel) (\<lambda>v.
       ret (acc @ a @ rel @ (case v of None \<Rightarrow> [] | Some v \<Rightarrow> ''?v='' @ v))))"

definition quoted_etag :: "string \<Rightarrow> string" where "quoted_etag h = dquote # take 16 h @ [dquote]"

definition serve_index :: "(bytes \<Rightarrow> string) \<Rightarrow> (fs \<Rightarrow> path \<Rightarrow> nat \<times> nat) \<Rightarrow> path \<Rightarrow> path \<Rightarrow> asset option static" where
  "serve_index sha stamp www target =
     bnd (in_static (os_read target)) (\<lambda>data.
     case utf8_decode data of
       None \<Rightarrow> ret None
     | Some text \<Rightarrow> bnd (fold_prog (render_piece sha stamp www) (pieces False (universal_newlines text)) []) (\<lambda>html.
         let body = utf8_encode html in
         ret (Some \<lparr>as_body = body, as_ctype = ''text/html; charset=utf-8'', as_etag = quoted_etag (sha body)\<rparr>)))"

definition resolve_asset :: "(bytes \<Rightarrow> string) \<Rightarrow> (fs \<Rightarrow> path \<Rightarrow> nat \<times> nat) \<Rightarrow> path \<Rightarrow> string \<Rightarrow> asset option static" where
  "resolve_asset sha stamp www path =
     (case (if path = ''/'' then Some (''index.html'', True) else if path = ''/icon'' then Some (''icon.png'', False)
            else if starts_with ''/static/'' path then Some (drop (length ''/static/'') path, False) else None) of
        None \<Rightarrow> ret None
      | Some (rel, html) \<Rightarrow>
          bnd (locate www rel html) (\<lambda>found. case found of
            None \<Rightarrow> ret None
          | Some (target, ctype) \<Rightarrow>
              catch (if html then serve_index sha stamp www target
                 else bnd (in_static (os_read target)) (\<lambda>data.
                   ret (Some \<lparr>as_body = data, as_ctype = ctype, as_etag = quoted_etag (sha data)\<rparr>)))
                (\<lambda>_. ret None)))"

definition resolve_static :: "(bytes \<Rightarrow> string) \<Rightarrow> (fs \<Rightarrow> path \<Rightarrow> nat \<times> nat) \<Rightarrow> path \<Rightarrow> string \<Rightarrow> (bytes \<times> string) option static" where
  "resolve_static sha stamp www path =
     bnd (resolve_asset sha stamp www path) (\<lambda>a. ret (map_option (\<lambda>x. (as_body x, as_ctype x)) a))"

section \<open>Containment\<close>

lemma catch_Inr: "catch m h s = (Inr x, t) \<longleftrightarrow> m s = (Inr x, t) \<or> (\<exists>e s'. m s = (Inl e, s') \<and> h e s' = (Inr x, t))"
  by (auto simp: catch_def split: sum.splits prod.splits)

lemma in_static_Inr: "in_static m s = (Inr x, s') \<longleftrightarrow> (\<exists>o'. m (st_os s) = (Inr x, o') \<and> s' = s\<lparr>st_os := o'\<rparr>)"
  by (auto simp: in_static_def split: prod.splits)

text \<open>C25. Whatever path a request names, a static file is served only from below the real root directory: the target is a regular file whose resolved path starts with the resolved root, every segment of the name is plain, and its extension is on the list.\<close>
theorem locate_contained:
  assumes "locate root_dir rel allow_html s = (Inr (Some (target, ctype)), s')"
  shows "\<exists>root. resolve max_links (fsys (st_os s)) True [] root_dir = Inr root \<and> below root target \<and> ''..'' \<notin> set target
    \<and> (\<exists>d m. node_at (fsys (st_os s)) target = Some (NFile d m))
    \<and> list_all SEGMENT_RE (split_on CHR ''/'' rel) \<and> (allow_html \<or> ctype \<in> snd ` set CONTENT_TYPES)"
proof -
  let ?f = "fsys (st_os s)" and ?ext = "extension (last (split_on CHR ''/'' rel))"
  have seg: "list_all SEGMENT_RE (split_on CHR ''/'' rel)" and ext: "\<not> (dget CONTENT_TYPES ?ext = None \<and> \<not> allow_html)"
    using assms by (auto simp: locate_def Let_def split: if_splits)
  from assms seg ext obtain root s1 s2 where
    r: "in_static (os_resolve root_dir) s = (Inr root, s1)" and
    t: "in_static (os_resolve (root @ to_path rel)) s1 = (Inr target, s2)" and below: "below root target" and
    reg: "in_static (test_node is_regular (os_stat target)) s2 = (Inr True, s')" and
    ct: "ctype = (case dget CONTENT_TYPES ?ext of Some t \<Rightarrow> t | None \<Rightarrow> [])"
    by (auto simp: locate_def Let_def catch_Inr bnd_Inr split: if_splits)
  have root: "resolve max_links ?f True [] root_dir = Inr root" "fsys (st_os s1) = ?f"
    using r by (auto simp: in_static_Inr os_resolve_def dest!: sys_Inr split: sum.splits)
  have res: "resolve max_links ?f True [] (root @ to_path rel) = Inr target" "fsys (st_os s2) = ?f"
    using t root(2) by (auto simp: in_static_Inr os_resolve_def dest!: sys_Inr split: sum.splits)
  have canon: "canonical ?f target" by (rule resolve_canonical [OF res(1)]) simp
  from reg obtain o' where "test_node is_regular (sys (at_path True target lstat_act)) (st_os s2) = (Inr True, o')"
    by (auto simp: in_static_Inr os_stat_def)
  from test_node_lstat(2) [OF this] obtain n where "at_path True target lstat_act ?f = Inr (n, ?f)" "is_regular n"
    by (auto simp: res(2))
  then have "\<exists>d m. node_at ?f target = Some (NFile d m)"
    using resolve_along [of ?f "[]" target max_links True "[]"] canon
    by (auto simp: at_path_def lstat_act_def split: option.splits elim!: is_regular.elims)
  moreover have "''..'' \<notin> set target" using canon by (auto simp: canonical_def list_all_iff plain_name_def)
  moreover have "allow_html \<or> ctype \<in> snd ` set CONTENT_TYPES"
    using ext ct by (force dest: map_of_SomeD)
  ultimately show ?thesis using root(1) below seg by blast
qed

definition demo_root :: static_files where
  "demo_root = \<lparr>st_os = \<lparr>fsys = [([''www''], NDir), ([''www'', ''a.css''], NFile ''x'' 420), ([''www'', ''b.css''], NLink [''etc'', ''p'']),
      ([''etc''], NDir), ([''etc'', ''p''], NFile ''y'' 420)], faults = [], rnd = [], trace = []\<rparr>, st_hashes = []\<rparr>"

lemma locate_contained_witness:
  "fst (locate [''www''] ''a.css'' False demo_root) = Inr (Some ([''www'', ''a.css''], ''text/css; charset=utf-8''))
   \<and> fst (locate [''www''] ''b.css'' False demo_root) = Inr None \<and> ''..'' \<notin> set [''www'', ''a.css'']"
proof -
  have run: "fst (locate [''www''] ''a.css'' False demo_root) = Inr (Some ([''www'', ''a.css''], ''text/css; charset=utf-8''))"
    and no: "fst (locate [''www''] ''b.css'' False demo_root) = Inr None" by code_simp+
  from run obtain s' where "locate [''www''] ''a.css'' False demo_root = (Inr (Some ([''www'', ''a.css''], ''text/css; charset=utf-8'')), s')"
    by (cases "locate [''www''] ''a.css'' False demo_root") simp
  from locate_contained [OF this] run no show ?thesis by blast
qed

end
