(* ===== verification/AU_Server.thy ===== *)
theory AU_Server
  imports AU_Static
begin

text \<open>
  \<open>admin-ui/app/web/skeleton/server.py\<close>: what the handler does with one request, from the gate to the response.  The state
  of a server is its application's state \<open>'s\<close> and the static files; a route handler is a computation on the former.
  Sockets, threads and signals are left out: the request and its body arrive as values, the response is one.
\<close>

section \<open>Requests and responses\<close>

definition MAX_BODY :: int where "MAX_BODY = 65536"

definition BODY_METHODS :: "string list" where "BODY_METHODS = [''POST'', ''PUT'', ''PATCH'', ''DELETE'']"

definition IDENTITY_PREFIXES :: "string list" where "IDENTITY_PREFIXES = [''x-remote-user-'', ''x-ingress-'']"

text \<open>What \<open>http.server\<close> hands over: the peer, the request line, the target with leading slashes collapsed, headers, body.\<close>

record http_request =
  hr_peer :: string
  hr_requestline :: string
  hr_command :: string
  hr_path :: string
  hr_headers :: headers
  hr_body :: bytes

record response =
  rs_status :: int
  rs_headers :: headers
  rs_body :: bytes
  rs_close :: bool

text \<open>What a handler returns.\<close>

datatype result = NoContent | SendFile download | WithStatus int pyval | Payload pyval

definition identity_header :: "string \<Rightarrow> bool" where
  "identity_header name \<longleftrightarrow> list_ex (\<lambda>p. starts_with p (lower name)) IDENTITY_PREFIXES"

text \<open>The view of the headers for a request without ingress: identity headers do not exist.\<close>

definition public_headers :: "headers \<Rightarrow> headers" where
  "public_headers hs = filter (\<lambda>(k, _). \<not> identity_header k) hs"

definition send :: "string option \<Rightarrow> http_request \<Rightarrow> bool \<Rightarrow> int \<Rightarrow> bytes \<Rightarrow> string \<Rightarrow> string \<Rightarrow> headers \<Rightarrow> string \<Rightarrow> response" where
  "send csp rq close status body ctype cache extra kind =
     \<lparr>rs_status = status,
      rs_headers = [(''Content-Type'', ctype), (''Content-Length'', nat_str (length body)), (''Cache-Control'', cache)]
        @ security_headers kind csp @ extra @ (if close then [(''Connection'', ''close'')] else []),
      rs_body = (if hr_command rq = ''HEAD'' then [] else body), rs_close = close\<rparr>"

definition JSON_TYPE :: string where "JSON_TYPE = ''application/json; charset=utf-8''"

definition send_json :: "string option \<Rightarrow> http_request \<Rightarrow> bool \<Rightarrow> int \<Rightarrow> pyval \<Rightarrow> response" where
  "send_json csp rq close status payload =
     send csp rq close status (json_dumps None True (sort_vals payload)) JSON_TYPE ''no-store'' [] ''api''"

definition send_error :: "string option \<Rightarrow> http_request \<Rightarrow> api_error \<Rightarrow> response" where
  "send_error csp rq e = send_json csp rq True (ae_status e) (PDict [(''error'', PStr (ae_code e)), (''message'', PStr (ae_message e))])"

section \<open>The body\<close>

definition body_length :: "headers \<Rightarrow> int option" where
  "body_length hs = (if hget_or hs ''Content-Length'' = [] then Some 0 else py_int (hget_or hs ''Content-Length''))"

text \<open>Errors are the code and message of an \<open>ApiError\<close>.\<close>

definition read_body :: "http_request \<Rightarrow> (string \<times> string) + pyval" where
  "read_body rq =
     (if hget_or (hr_headers rq) ''Transfer-Encoding'' \<noteq> [] then Inl (''bad_request'', ''chunked bodies are not supported'')
      else (case body_length (hr_headers rq) of
          None \<Rightarrow> Inl (''bad_request'', ''invalid Content-Length'')
        | Some n \<Rightarrow>
            if n < 0 then Inl (''bad_request'', ''invalid Content-Length'')
            else if MAX_BODY < n then Inl (''payload_too_large'', ''request body too large'')
            else if n = 0 then Inr PNone
            else if \<not> starts_with ''application/json'' (lower (hget_or (hr_headers rq) ''Content-Type''))
            then Inl (''bad_request'', ''content type must be application/json'')
            else (case Option.bind (utf8_decode (take (nat n) (hr_body rq))) json_loads of
                None \<Rightarrow> Inl (''bad_request'', ''invalid JSON'')
              | Some v \<Rightarrow> Inr v)))"

section \<open>Dispatch\<close>

record ('s, 'e) server =
  sr_router :: "(request \<Rightarrow> ('s, 'e, result) prog) router"
  sr_remote :: string
  sr_csp :: "string option"
  sr_table :: "int dict"
  sr_as_api :: "'e \<Rightarrow> (string \<times> string \<times> int option) option"
  sr_static :: "string \<Rightarrow> asset option static"
  sr_decode :: "bytes \<Rightarrow> string"

text \<open>The target exactly as sent, without its query.\<close>

definition raw_path :: "http_request \<Rightarrow> string" where
  "raw_path rq = before CHR ''?'' (case split_on CHR '' '' (hr_requestline rq) of _ # w # _ \<Rightarrow> w | _ \<Rightarrow> hr_path rq)"

text \<open>An error by its code; a code that is not in the table (a \<open>ValueError\<close> of the constructor) and every other exception
  is an internal error.\<close>

definition internal_error :: api_error where
  "internal_error = \<lparr>ae_code = ''internal_error'', ae_message = ''internal error'', ae_status = 500\<rparr>"

definition api_error_of :: "int dict \<Rightarrow> string \<times> string \<times> int option \<Rightarrow> api_error" where
  "api_error_of table = (\<lambda>(code, message, status). case make_api_error table code message status of Some e \<Rightarrow> e | None \<Rightarrow> internal_error)"

definition respond_error :: "('s, 'e) server \<Rightarrow> http_request \<Rightarrow> (string \<times> string \<times> int option) option \<Rightarrow> response" where
  "respond_error sv rq e = send_error (sr_csp sv) rq (case e of Some t \<Rightarrow> api_error_of (sr_table sv) t | None \<Rightarrow> internal_error)"

definition respond :: "string option \<Rightarrow> http_request \<Rightarrow> result \<Rightarrow> response" where
  "respond csp rq res = (case res of
     NoContent \<Rightarrow> send csp rq False 204 [] JSON_TYPE ''no-store'' [] ''api''
   | SendFile d \<Rightarrow> send csp rq False 200 (dl_data d) (dl_content_type d) ''no-store''
       [(''Content-Disposition'', ''attachment; filename='' @ [dquote] @ dl_filename d @ [dquote])] ''api''
   | WithStatus n v \<Rightarrow> send_json csp rq False n v
   | Payload v \<Rightarrow> send_json csp rq False 200 v)"

definition respond_asset :: "string option \<Rightarrow> http_request \<Rightarrow> string \<Rightarrow> asset \<Rightarrow> response" where
  "respond_asset csp rq path a =
     (let kind = (if path = ''/'' then ''html'' else ''static'') in
      if etag_matches (hget (hr_headers rq) ''If-None-Match'') (as_etag a)
      then send csp rq False 304 [] (as_ctype a) ''no-cache'' [(''ETag'', as_etag a)] kind
      else send csp rq False 200 (as_body a) (as_ctype a) ''no-cache'' [(''ETag'', as_etag a)] kind)"

type_synonym 's host = "'s \<times> static_files"

text \<open>The route handler with the request it gets; the static files do not change.\<close>

definition build_request :: "('s, 'e) server \<Rightarrow> http_request \<Rightarrow> bool \<Rightarrow> url \<Rightarrow> string dict \<Rightarrow> pyval \<Rightarrow> request" where
  "build_request sv rq via parts params body =
     \<lparr>rq_method = hr_command rq, rq_path = u_path parts, rq_params = params, rq_query = parse_qs (sr_decode sv) (u_query parts),
      rq_headers = (if via then hr_headers rq else public_headers (hr_headers rq)), rq_json = body, rq_public = (\<not> via)\<rparr>"

definition run_route :: "('s, 'e) server \<Rightarrow> http_request \<Rightarrow> bool \<Rightarrow> url \<Rightarrow> 's \<Rightarrow> response \<times> 's" where
  "run_route sv rq via parts s =
     (case route_match (sr_decode sv) (sr_router sv) (hr_command rq) (u_path parts) of
        Inl (code, msg) \<Rightarrow> (respond_error sv rq (Some (code, msg, None)), s)
      | Inr (handler, params) \<Rightarrow>
          (case (if hr_command rq \<in> set BODY_METHODS then read_body rq else Inr PNone) of
             Inl (code, msg) \<Rightarrow> (respond_error sv rq (Some (code, msg, None)), s)
           | Inr body \<Rightarrow>
               (case handler (build_request sv rq via parts params body) s of
                  (Inl e, s') \<Rightarrow> (respond_error sv rq (sr_as_api sv e), s')
                | (Inr res, s') \<Rightarrow> (respond (sr_csp sv) rq res, s'))))"

text \<open>A target that \<open>urlsplit\<close> rejects raises outside the \<open>try\<close>: no response (None), the connection breaks.\<close>

definition dispatch :: "('s, 'e) server \<Rightarrow> http_request \<Rightarrow> 's host \<Rightarrow> response option \<times> 's host" where
  "dispatch sv rq host =
     (let (s, st) = host; via = is_ingress (hr_peer rq) (hr_headers rq) (sr_remote sv) in
      if \<not> via \<and> \<not> is_public (sr_router sv) (hr_command rq) (raw_path rq)
      then (Some (send_json (sr_csp sv) rq True 403 (PDict [(''error'', PStr ''ingress_only'')])), host)
      else (case urlsplit (hr_path rq) of
          None \<Rightarrow> (None, host)
        | Some parts \<Rightarrow>
            (case (if hr_command rq = ''GET'' \<and> via then sr_static sv (u_path parts) st else (Inr None, st)) of
               (Inl _, st') \<Rightarrow> (Some (respond_error sv rq None), (s, st'))
             | (Inr (Some a), st') \<Rightarrow> (Some (respond_asset (sr_csp sv) rq (u_path parts) a), (s, st'))
             | (Inr None, st') \<Rightarrow> (case run_route sv rq via parts s of (r, s') \<Rightarrow> (Some r, (s', st'))))))"

section \<open>The gate\<close>

lemma hget_public: "identity_header name \<Longrightarrow> hget (public_headers hs) name = None"
  by (induction hs) (auto simp: hget_def public_headers_def identity_header_def)

lemma hget_public_keeps: "\<not> identity_header name \<Longrightarrow> hget (public_headers hs) name = hget hs name"
  by (induction hs) (auto simp: hget_def public_headers_def identity_header_def)


text \<open>The first registered route that fits wins, also when a public route was registered for exactly the path: a parametrised
  route of the same method added earlier answers in its place.\<close>

definition shadowed_router :: "string router" where
  "shadowed_router =
     (case router_add ''GET'' ''/api/{name}'' ''private'' False new_router of
        None \<Rightarrow> new_router
      | Some r \<Rightarrow> (case router_add ''GET'' ''/api/health'' ''public'' True r of None \<Rightarrow> r | Some r' \<Rightarrow> r'))"

lemma public_shadowed:
  "is_public shadowed_router ''GET'' ''/api/health''
   \<and> route_match (\<lambda>b. b) shadowed_router ''GET'' ''/api/health'' = Inr (''private'', [(''name'', ''health'')])"
  by code_simp

definition demo_server :: "(nat, unit) server" where
  "demo_server = \<lparr>sr_router = new_router, sr_remote = INGRESS_REMOTE, sr_csp = None, sr_table = ERROR_STATUS, sr_as_api = (\<lambda>_. None),
     sr_static = (\<lambda>_. ret None), sr_decode = (\<lambda>b. b)\<rparr>"

definition demo_request :: http_request where
  "demo_request = \<lparr>hr_peer = ''10.0.0.1'', hr_requestline = ''GET /x?y HTTP/1.1'', hr_command = ''GET'', hr_path = ''/x?y'', hr_headers = [], hr_body = []\<rparr>"


end
