(* ===== verification/NT_Contract.thy ===== *)
theory NT_Contract
  imports AU_Server Py_Time
begin

text \<open>
  \<open>ntfy/app/contract.py\<close>: names, options, permission and topic mappings, row shapes and the routes of the ntfy add-on.
  \<open>sha\<close> is the hexadecimal SHA-256 of the standard library.
\<close>

section \<open>Validators\<close>

definition NTFY_PORT :: nat where "NTFY_PORT = 8000"
definition GUI_PORT :: nat where "GUI_PORT = 8099"
definition SUPPORTED_AUTH_SCHEMAS :: "int list" where "SUPPORTED_AUTH_SCHEMAS = [10, 11]"

definition user_first :: "char \<Rightarrow> bool" where "user_first c \<longleftrightarrow> is_alnum c \<or> c = CHR ''_''"

definition USERNAME_RE :: "string \<Rightarrow> bool" where
  "USERNAME_RE s \<longleftrightarrow> re_match_eol (re_first_rest user_first (\<lambda>c. is_alnum c \<or> c \<in> set ''-_.+@'') 63) s"

definition pattern_shape :: "string \<Rightarrow> bool" where
  "pattern_shape s \<longleftrightarrow> re_first_rest (\<lambda>c. user_first c \<or> c = CHR ''*'') (\<lambda>c. is_alnum c \<or> c \<in> set ''-_*'') 63 s"

definition TOPIC_PATTERN_RE :: "string \<Rightarrow> bool" where "TOPIC_PATTERN_RE s \<longleftrightarrow> re_match_eol pattern_shape s"

definition TOPIC_RE :: "string \<Rightarrow> bool" where
  "TOPIC_RE s \<longleftrightarrow> re_match_eol (re_first_rest user_first (\<lambda>c. is_alnum c \<or> c \<in> set ''-_'') 63) s"

definition DURATION_RE :: "string \<Rightarrow> bool" where
  "DURATION_RE s \<longleftrightarrow> re_match_eol (\<lambda>s. 2 \<le> length s \<and> list_all is_digit (butlast s) \<and> last s \<in> set ''smhd'') s"

definition lower_alnum :: "char \<Rightarrow> bool" where "lower_alnum c \<longleftrightarrow> is_lower_az c \<or> is_digit c"

definition token_shape :: "string \<Rightarrow> bool" where
  "token_shape s \<longleftrightarrow> starts_with ''tk_'' s \<and> length s = 32 \<and> list_all lower_alnum (drop 3 s)"

definition TOKEN_RE :: "string \<Rightarrow> bool" where "TOKEN_RE s \<longleftrightarrow> re_match_eol token_shape s"

definition LABEL_RE :: "string \<Rightarrow> bool" where
  "LABEL_RE s \<longleftrightarrow> re_match_eol (re_class (\<lambda>c. \<not> is_control c) 0 64) s"

text \<open>\<open>auth-<8 digits>T<6 digits>Z[-<reason>].db\<close>; the stamp and the reason are its two groups.\<close>

definition stamp_shape :: "string \<Rightarrow> bool" where
  "stamp_shape s \<longleftrightarrow> length s = 16 \<and> list_all is_digit (take 8 s) \<and> s ! 8 = CHR ''T'' \<and> list_all is_digit (take 6 (drop 9 s)) \<and> s ! 15 = CHR ''Z''"

definition reason_char :: "char \<Rightarrow> bool" where "reason_char c \<longleftrightarrow> lower_alnum c \<or> c = CHR ''-''"

definition backup_parts :: "string \<Rightarrow> (string \<times> string option) option" where
  "backup_parts s =
     (let stamp = take 16 (drop 5 s); rest = drop 21 s; mid = take (length rest - 3) rest in
      if starts_with ''auth-'' s \<and> stamp_shape stamp \<and> ends_with ''.db'' rest
      then (if mid = [] then Some (stamp, None)
            else if hd mid = CHR ''-'' \<and> re_class reason_char 1 40 (tl mid) then Some (stamp, Some (tl mid)) else None)
      else None)"

definition BACKUP_NAME_RE :: "string \<Rightarrow> bool" where
  "BACKUP_NAME_RE s \<longleftrightarrow> re_match_eol (\<lambda>s. backup_parts s \<noteq> None) s"

definition RESERVED_USERNAMES :: "string list" where "RESERVED_USERNAMES = [''everyone'', ''*'']"
definition PERMISSIONS :: "string list" where "PERMISSIONS = [''rw'', ''ro'', ''wo'', ''deny'']"
definition ORIGINS :: "string list" where "ORIGINS = [''gui'', ''options'', ''iac'']"
definition RESET_PHRASES :: "string dict" where
  "RESET_PHRASES = [(''acls'', ''reset acls''), (''cache'', ''clear cache''), (''everything'', ''reset everything'')]"
definition DEFAULT_TOPIC_ACL :: "(string \<times> string) list" where
  "DEFAULT_TOPIC_ACL = [(''homeassistant'', ''rw''), (''akentner'', ''ro'')]"

section \<open>Paths and options\<close>

record paths =
  pa_data_dir :: path
  pa_options_file :: path
  pa_auth_db :: path
  pa_cache_db :: path
  pa_server_yml :: path
  pa_origins_file :: path
  pa_backup_dir :: path
  pa_attachment_dir :: path

definition paths_for_dir :: "string \<Rightarrow> string option \<Rightarrow> paths" where
  "paths_for_dir data_dir options_file =
     (let base = to_path data_dir in
      \<lparr>pa_data_dir = base,
       pa_options_file = (case options_file of Some f \<Rightarrow> if f = [] then base @ [''options.json''] else to_path f | None \<Rightarrow> base @ [''options.json'']),
       pa_auth_db = base @ [''auth.db''], pa_cache_db = base @ [''cache.db''], pa_server_yml = base @ [''server.yml''],
       pa_origins_file = base @ [''origins.json''], pa_backup_dir = base @ [''backups''], pa_attachment_dir = base @ [''attachments'']\<rparr>)"

definition paths_from_env :: "string dict \<Rightarrow> paths" where
  "paths_from_env env = paths_for_dir (case dget env ''NTFY_DATA_DIR'' of Some d \<Rightarrow> d | None \<Rightarrow> ''/data'') (dget env ''NTFY_OPTIONS'')"

record baseline_user =
  bu_username :: string
  bu_password :: string
  bu_topic :: string
  bu_write :: bool

record options =
  op_base_url :: string
  op_enable_web_ui :: bool
  op_behind_proxy :: bool
  op_auth_default_access :: string
  op_admin_user :: string
  op_admin_password :: string
  op_baseline_users :: "baseline_user list"
  op_overwrite_passwords :: bool
  op_backup_keep :: int
  op_cache_duration :: string
  op_attachments_enabled :: bool
  op_total_size_limit :: string
  op_file_size_limit :: string
  op_expiry_duration :: string
  op_log_level :: string

definition DEFAULT_OPTIONS :: options where
  "DEFAULT_OPTIONS =
     \<lparr>op_base_url = ''https://ntfy.example.com'', op_enable_web_ui = True, op_behind_proxy = True, op_auth_default_access = ''deny-all'',
      op_admin_user = ''admin'', op_admin_password = [], op_baseline_users = [], op_overwrite_passwords = False, op_backup_keep = 10,
      op_cache_duration = ''12h'', op_attachments_enabled = True, op_total_size_limit = ''1G'', op_file_size_limit = ''15M'',
      op_expiry_duration = ''12h'', op_log_level = ''info''\<rparr>"

text \<open>\<open>_get\<close> for the three kinds of option: the default when absent, an \<open>OptionsError\<close> (its message) for a wrong type.\<close>

definition type_error :: "string \<Rightarrow> string \<Rightarrow> string" where
  "type_error key kind = ''option '' @ key @ '' must be '' @ kind"

definition get_str :: "pyval dict \<Rightarrow> string \<Rightarrow> string \<Rightarrow> string + string" where
  "get_str d key def = (case dget d key of None \<Rightarrow> Inr def | Some (PStr s) \<Rightarrow> Inr s | Some _ \<Rightarrow> Inl (type_error key ''str''))"

definition get_bool :: "pyval dict \<Rightarrow> string \<Rightarrow> bool \<Rightarrow> string + bool" where
  "get_bool d key def = (case dget d key of None \<Rightarrow> Inr def | Some (PBool b) \<Rightarrow> Inr b | Some _ \<Rightarrow> Inl (type_error key ''bool''))"

definition get_int :: "pyval dict \<Rightarrow> string \<Rightarrow> int \<Rightarrow> string + int" where
  "get_int d key def = (case dget d key of None \<Rightarrow> Inr def | Some (PInt i) \<Rightarrow> Inr i | Some _ \<Rightarrow> Inl (type_error key ''int''))"

definition get_optional_str :: "pyval dict \<Rightarrow> string \<Rightarrow> string \<Rightarrow> string + string" where
  "get_optional_str d key def = (case dget d key of None \<Rightarrow> Inr def | Some PNone \<Rightarrow> Inr [] | Some (PStr s) \<Rightarrow> Inr s
     | Some _ \<Rightarrow> Inl (type_error key ''str''))"

definition str_or_empty :: "(pyval \<Rightarrow> string) \<Rightarrow> pyval dict \<Rightarrow> string \<Rightarrow> string" where
  "str_or_empty repr d key = (case dget d key of None \<Rightarrow> [] | Some v \<Rightarrow> py_str repr v)"

definition parse_baseline_user :: "(pyval \<Rightarrow> string) \<Rightarrow> pyval \<Rightarrow> string + baseline_user" where
  "parse_baseline_user repr entry = (case entry of
     PDict d \<Rightarrow> (case (case dget d ''write_access'' of None \<Rightarrow> PBool False | Some v \<Rightarrow> v) of
         PBool w \<Rightarrow> Inr \<lparr>bu_username = str_or_empty repr d ''username'', bu_password = str_or_empty repr d ''password'',
           bu_topic = str_or_empty repr d ''topic'', bu_write = w\<rparr>
       | _ \<Rightarrow> Inl ''baseline_users.write_access must be bool'')
   | _ \<Rightarrow> Inl ''option baseline_users entries must be objects'')"

definition parse_baseline :: "(pyval \<Rightarrow> string) \<Rightarrow> pyval dict \<Rightarrow> string + baseline_user list" where
  "parse_baseline repr d =
     (let raw = vget d ''baseline_users'' in
      if \<not> truthy raw then Inr []
      else (case raw of
          PList es \<Rightarrow> fold_sum (\<lambda>e us. sbind (parse_baseline_user repr e) (\<lambda>u. Inr (us @ [u]))) es []
        | _ \<Rightarrow> Inl ''option baseline_users must be a list''))"

definition parse_options :: "(pyval \<Rightarrow> string) \<Rightarrow> pyval dict \<Rightarrow> string + options" where
  "parse_options repr d =
     (let o0 = DEFAULT_OPTIONS in
      sbind (parse_baseline repr d) (\<lambda>users.
      sbind (get_str d ''base_url'' (op_base_url o0)) (\<lambda>base_url.
      sbind (get_bool d ''enable_web_ui'' (op_enable_web_ui o0)) (\<lambda>web_ui.
      sbind (get_bool d ''behind_proxy'' (op_behind_proxy o0)) (\<lambda>proxy.
      sbind (get_str d ''auth_default_access'' (op_auth_default_access o0)) (\<lambda>access.
      sbind (get_str d ''admin_user'' (op_admin_user o0)) (\<lambda>admin.
      sbind (get_str d ''admin_password'' (op_admin_password o0)) (\<lambda>password.
      sbind (get_bool d ''baseline_overwrite_passwords'' (op_overwrite_passwords o0)) (\<lambda>overwrite.
      sbind (get_int d ''backup_keep'' (op_backup_keep o0)) (\<lambda>keep.
      sbind (get_str d ''cache_duration'' (op_cache_duration o0)) (\<lambda>cache.
      sbind (get_bool d ''attachments_enabled'' (op_attachments_enabled o0)) (\<lambda>att.
      sbind (get_optional_str d ''attachment_total_size_limit'' (op_total_size_limit o0)) (\<lambda>total.
      sbind (get_optional_str d ''attachment_file_size_limit'' (op_file_size_limit o0)) (\<lambda>one_file.
      sbind (get_optional_str d ''attachment_expiry_duration'' (op_expiry_duration o0)) (\<lambda>expiry.
      sbind (get_str d ''log_level'' (op_log_level o0)) (\<lambda>level.
        Inr \<lparr>op_base_url = base_url, op_enable_web_ui = web_ui, op_behind_proxy = proxy, op_auth_default_access = access,
          op_admin_user = admin, op_admin_password = password, op_baseline_users = users, op_overwrite_passwords = overwrite,
          op_backup_keep = keep, op_cache_duration = cache, op_attachments_enabled = att, op_total_size_limit = total,
          op_file_size_limit = one_file, op_expiry_duration = expiry, op_log_level = level\<rparr>))))))))))))))))"

text \<open>The class names of the operating-system errors, as they appear in messages.\<close>

definition os_error_name :: "oserr \<Rightarrow> string" where
  "os_error_name e = (case e of ENOENT \<Rightarrow> ''FileNotFoundError'' | EEXIST \<Rightarrow> ''FileExistsError'' | ENOTDIR \<Rightarrow> ''NotADirectoryError''
     | EISDIR \<Rightarrow> ''IsADirectoryError'' | _ \<Rightarrow> ''OSError'')"

definition load_options :: "(pyval \<Rightarrow> string) \<Rightarrow> path \<Rightarrow> (os, string, options) prog" where
  "load_options repr p =
     bnd (lift_exn (\<lambda>e. ''cannot read options: '' @ os_error_name e)
            (catch (bnd (os_read p) (\<lambda>d. ret (Some d))) (\<lambda>e. if e = ENOENT then ret None else raise e)))
       (\<lambda>data. case data of
          None \<Rightarrow> of_sum (parse_options repr [])
        | Some d \<Rightarrow> (case utf8_decode d of
              None \<Rightarrow> raise ''cannot read options: UnicodeDecodeError''
            | Some t \<Rightarrow> (case json_loads t of
                None \<Rightarrow> raise ''cannot read options: JSONDecodeError''
              | Some (PDict o1) \<Rightarrow> of_sum (parse_options repr o1)
              | Some _ \<Rightarrow> raise ''options must be a JSON object'')))"

section \<open>Errors of the command line\<close>

text \<open>The error table of the skeleton with the four codes of ntfy.\<close>

definition NTFY_ERROR_STATUS :: "int dict" where
  "NTFY_ERROR_STATUS = fold (\<lambda>(c, s) t. case register_error_code (\<lambda>_. []) (PStr c) (PInt s) t of Inr t' \<Rightarrow> t' | Inl _ \<Rightarrow> t)
     [(''ntfy_error'', 502), (''db_unavailable'', 503), (''db_unsupported'', 503), (''locked'', 503)] ERROR_STATUS"

definition CLI_ERROR_TO_API :: "string dict" where
  "CLI_ERROR_TO_API = [(''exists'', ''conflict''), (''not_found'', ''not_found''), (''invalid'', ''bad_request''),
     (''provisioned'', ''protected''), (''locked'', ''locked''), (''other'', ''ntfy_error'')]"

definition api_error_from_cli :: "string \<Rightarrow> string \<Rightarrow> string \<times> string" where
  "api_error_from_cli code message = (case dget CLI_ERROR_TO_API code of Some c \<Rightarrow> c | None \<Rightarrow> ''ntfy_error'', message)"

section \<open>Permissions and topics\<close>

definition perm_from_flags :: "bool \<Rightarrow> bool \<Rightarrow> string" where
  "perm_from_flags r w = (if r then (if w then ''rw'' else ''ro'') else (if w then ''wo'' else ''deny''))"

text \<open>None is the \<open>KeyError\<close> for an unknown permission.\<close>

definition flags_from_perm :: "string \<Rightarrow> (bool \<times> bool) option" where
  "flags_from_perm p = dget [(''rw'', (True, True)), (''ro'', (True, False)), (''wo'', (False, True)), (''deny'', (False, False))] p"

definition db_user_to_api :: "string \<Rightarrow> string" where
  "db_user_to_api name = (if name = ''*'' then ''everyone'' else name)"

definition cli_topic_to_db :: "string \<Rightarrow> string" where
  "cli_topic_to_db t = replace ''*'' ''%'' (replace ''_'' [bslash, CHR ''_''] t)"

definition db_topic_to_cli :: "string \<Rightarrow> string" where
  "db_topic_to_cli t = replace ''%'' ''*'' (replace [bslash, CHR ''_''] ''_'' t)"

text \<open>The parts of the pattern between its stars, with anything between them.\<close>

fun suffixes_of :: "string \<Rightarrow> string list" where
  "suffixes_of [] = [[]]"
| "suffixes_of (c # s) = (c # s) # suffixes_of s"

fun match_pieces :: "string list \<Rightarrow> string \<Rightarrow> bool" where
  "match_pieces [] s = (s = [])"
| "match_pieces [p] s = (s = p)"
| "match_pieces (p # q # ps) s = (starts_with p s \<and> list_ex (match_pieces (q # ps)) (suffixes_of (drop (length p) s)))"

definition topic_match :: "string \<Rightarrow> string \<Rightarrow> bool" where
  "topic_match pattern topic \<longleftrightarrow> match_pieces (split_on CHR ''*'' pattern) topic"

definition token_id :: "(bytes \<Rightarrow> string) \<Rightarrow> string \<Rightarrow> string" where
  "token_id sha token = take 12 (sha (utf8_encode token))"

definition token_prefix :: "string \<Rightarrow> string" where "token_prefix token = take 7 token"

definition iso_utc :: "int \<Rightarrow> string" where "iso_utc ts = iso_seconds ts"

section \<open>Rows\<close>

record schema_status =
  ss_version :: "int option"
  ss_supported :: bool
  ss_error :: "string option"

record user_row =
  ur_name :: string
  ur_role :: string
  ur_tier :: "string option"
  ur_provisioned :: bool
  ur_pass_hash :: "string option"

record acl_row =
  ar_user :: string
  ar_topic :: string
  ar_permission :: string
  ar_read :: bool
  ar_write :: bool
  ar_provisioned :: bool

record token_row =
  tr_user :: string
  tr_token_id :: string
  tr_prefix :: string
  tr_label :: string
  tr_expires :: int
  tr_last_access :: int
  tr_last_origin :: string
  tr_provisioned :: bool

record api_user =
  us_name :: string
  us_role :: string
  us_tier :: "string option"
  us_origin :: string
  us_provisioned :: bool
  us_protected_reason :: "string option"
  us_acl_count :: nat
  us_token_count :: nat

record acl_rule =
  rl_user :: string
  rl_topic :: string
  rl_permission :: string
  rl_origin :: string

record token_meta =
  tm_id :: string
  tm_user :: string
  tm_prefix :: string
  tm_label :: string
  tm_expires :: int
  tm_expires_at :: "string option"
  tm_last_access :: int
  tm_last_origin :: string
  tm_origin :: string

record backup =
  bk_name :: string
  bk_size :: nat
  bk_created :: string
  bk_reason :: string

record effective =
  ef_user :: string
  ef_topic :: string
  ef_read :: bool
  ef_write :: bool
  ef_kind :: string
  ef_rule :: "acl_rule option"
  ef_candidates :: "acl_rule list"

definition token_meta_from_row :: "token_row \<Rightarrow> string \<Rightarrow> token_meta" where
  "token_meta_from_row row origin =
     \<lparr>tm_id = tr_token_id row, tm_user = tr_user row, tm_prefix = tr_prefix row, tm_label = tr_label row, tm_expires = tr_expires row,
      tm_expires_at = (if tr_expires row \<noteq> 0 then Some (iso_utc (tr_expires row)) else None),
      tm_last_access = tr_last_access row, tm_last_origin = tr_last_origin row, tm_origin = origin\<rparr>"

section \<open>Facts\<close>

lemma replace_one: "replace [a] r s = concat (map (\<lambda>c. if c = a then r else [c]) s)"
  by (induction s) auto

lemma cli_topic_to_db_map:
  "cli_topic_to_db t = concat (map (\<lambda>c. if c = CHR ''_'' then [bslash, CHR ''_''] else if c = CHR ''*'' then ''%'' else [c]) t)"
  unfolding cli_topic_to_db_def replace_one by (induction t) (auto simp: bslash_def)

lemma perm_flags: "flags_from_perm (perm_from_flags r w) = Some (r, w)"
  by (cases r; cases w) (simp_all add: flags_from_perm_def perm_from_flags_def)

lemma topic_roundtrip:
  assumes "CHR ''%'' \<notin> set t" "bslash \<notin> set t"
  shows "db_topic_to_cli (cli_topic_to_db t) = t"
proof -
  have "replace [bslash, CHR ''_''] ''_'' (cli_topic_to_db t) = map (\<lambda>c. if c = CHR ''*'' then CHR ''%'' else c) t"
    using assms(2) unfolding cli_topic_to_db_map by (induction t) (auto simp: bslash_def)
  moreover have "replace ''%'' ''*'' (map (\<lambda>c. if c = CHR ''*'' then CHR ''%'' else c) t) = t"
    using assms(1) unfolding replace_one by (induction t) auto
  ultimately show ?thesis by (simp add: db_topic_to_cli_def)
qed

text \<open>The stored pattern as SQL reads it in \<open>topic LIKE pattern ESCAPE '\'\<close>: \<open>%\<close> any text, \<open>_\<close> any character, the escape takes the next one literally.\<close>

fun like :: "string \<Rightarrow> string \<Rightarrow> bool" where
  "like [] s = (s = [])"
| "like (c # p) s =
     (if c = bslash then (case p of [] \<Rightarrow> False | d # p' \<Rightarrow> (case s of [] \<Rightarrow> False | x # s' \<Rightarrow> x = d \<and> like p' s'))
      else if c = CHR ''%'' then list_ex (like p) (suffixes_of s)
      else (case s of [] \<Rightarrow> False | x # s' \<Rightarrow> (c = CHR ''_'' \<or> x = c) \<and> like p s'))"

lemma match_pieces_Cons: "ps \<noteq> [] \<Longrightarrow> match_pieces (p # ps) s = (starts_with p s \<and> list_ex (match_pieces ps) (suffixes_of (drop (length p) s)))"
  by (cases ps) auto

lemma match_first: "match_pieces ((c # p) # ps) s = (case s of [] \<Rightarrow> False | x # s' \<Rightarrow> x = c \<and> match_pieces (p # ps) s')"
  by (cases ps; cases s) auto



end
