(* ===== verification/NT_Origins.thy ===== *)
theory NT_Origins
  imports NT_Contract Json_Roundtrip Atomic_File
begin

text \<open>
  \<open>ntfy/app/origins.py\<close>: which source created a user, a rule or a token.  The document is the JSON object the file
  holds; a store keeps it in memory with the signature of the file it was read from.  \<open>stamp\<close> is what \<open>stat\<close> reports of
  a file (inode, time, size).  The lock file is created; mutual exclusion itself is that an operation is one step.
\<close>

section \<open>Documents\<close>

definition SCHEMA :: int where "SCHEMA = 1"
definition DEFAULT_ORIGIN :: string where "DEFAULT_ORIGIN = ''gui''"
definition SECTIONS :: "string list" where "SECTIONS = [''users'', ''acls'', ''tokens'', ''acl_stash'']"

definition token_id_shape :: "string \<Rightarrow> bool" where
  "token_id_shape s \<longleftrightarrow> re_class (\<lambda>c. is_digit c \<or> c \<in> set ''abcdef'') 12 12 s"

definition TOKEN_ID_RE :: "string \<Rightarrow> bool" where "TOKEN_ID_RE s \<longleftrightarrow> re_match_eol token_id_shape s"

definition empty_doc :: "pyval dict" where
  "empty_doc = [(''schema'', PInt SCHEMA), (''users'', PDict []), (''acls'', PDict []), (''tokens'', PDict []), (''acl_stash'', PDict [])]"

definition known_origin :: "pyval \<Rightarrow> bool" where
  "known_origin v \<longleftrightarrow> (case v of PStr s \<Rightarrow> s \<in> set ORIGINS | _ \<Rightarrow> False)"

definition is_schema :: "pyval \<Rightarrow> bool" where
  "is_schema v \<longleftrightarrow> (case v of PInt i \<Rightarrow> i = SCHEMA | PBool b \<Rightarrow> b | PFloat f \<Rightarrow> f = ''1.0'' | _ \<Rightarrow> False)"

definition valid_rule :: "pyval \<Rightarrow> bool" where
  "valid_rule v \<longleftrightarrow> is_dict v \<and> is_str (vget (as_dict v) ''topic'') \<and> is_str (vget (as_dict v) ''permission'')
     \<and> known_origin (vget (as_dict v) ''origin'')"

definition sect :: "pyval dict \<Rightarrow> string \<Rightarrow> pyval dict" where
  "sect d name = as_dict (vget d name)"

definition valid_document :: "pyval \<Rightarrow> bool" where
  "valid_document doc \<longleftrightarrow> (case doc of
     PDict d \<Rightarrow> is_schema (vget d ''schema'') \<and> list_all (\<lambda>s. is_dict (vget d s)) SECTIONS
       \<and> list_all (\<lambda>(k, v). known_origin v) (sect d ''users'')
       \<and> list_all (\<lambda>s. list_all (\<lambda>(u, v). is_dict v \<and> list_all (\<lambda>(k, w). known_origin w) (as_dict v)) (sect d s)) [''acls'', ''tokens'']
       \<and> list_all (\<lambda>(u, v). case v of PList rs \<Rightarrow> list_all valid_rule rs | _ \<Rightarrow> False) (sect d ''acl_stash'')
   | _ \<Rightarrow> False)"

section \<open>Changes of the document\<close>

definition set_sect :: "string \<Rightarrow> pyval dict \<Rightarrow> pyval dict \<Rightarrow> pyval dict" where
  "set_sect name s d = AList.update name (PDict s) d"

definition put_user :: "string \<Rightarrow> string \<Rightarrow> pyval dict \<Rightarrow> pyval dict" where
  "put_user name origin d = set_sect ''users'' (AList.update name (PStr origin) (sect d ''users'')) d"

text \<open>\<open>doc[section].setdefault(user, {})[key] = origin\<close>, and the removal that drops an empty inner object.\<close>

definition put_inner :: "string \<Rightarrow> string \<Rightarrow> string \<Rightarrow> string \<Rightarrow> pyval dict \<Rightarrow> pyval dict" where
  "put_inner name user key origin d =
     set_sect name (AList.update user (PDict (AList.update key (PStr origin) (sect (sect d name) user))) (sect d name)) d"

definition del_inner :: "string \<Rightarrow> string \<Rightarrow> string \<Rightarrow> pyval dict \<Rightarrow> pyval dict" where
  "del_inner name user key d =
     (case dget (sect d name) user of
        None \<Rightarrow> d
      | Some v \<Rightarrow> (let inner = AList.delete key (as_dict v) in
          set_sect name (if inner = [] then AList.delete user (sect d name) else AList.update user (PDict inner) (sect d name)) d))"

definition del_user :: "string \<Rightarrow> pyval dict \<Rightarrow> pyval dict" where
  "del_user name d = fold (\<lambda>s d. set_sect s (AList.delete name (sect d s)) d) SECTIONS d"

record stash_rule =
  sl_topic :: string
  sl_permission :: string
  sl_origin :: string

definition rule_val :: "stash_rule \<Rightarrow> pyval" where
  "rule_val r = PDict [(''topic'', PStr (sl_topic r)), (''permission'', PStr (sl_permission r)), (''origin'', PStr (sl_origin r))]"

definition val_str :: "pyval \<Rightarrow> string" where
  "val_str v = (case v of PStr s \<Rightarrow> s | _ \<Rightarrow> [])"

definition rule_of :: "pyval \<Rightarrow> stash_rule" where
  "rule_of v = \<lparr>sl_topic = val_str (vget (as_dict v) ''topic''), sl_permission = val_str (vget (as_dict v) ''permission''),
     sl_origin = val_str (vget (as_dict v) ''origin'')\<rparr>"

definition put_stash :: "string \<Rightarrow> stash_rule list \<Rightarrow> pyval dict \<Rightarrow> pyval dict" where
  "put_stash user rules d = set_sect ''acl_stash'' (AList.update user (PList (map rule_val rules)) (sect d ''acl_stash'')) d"

definition get_stash :: "string \<Rightarrow> pyval dict \<Rightarrow> stash_rule list" where
  "get_stash user d = (case dget (sect d ''acl_stash'') user of Some (PList rs) \<Rightarrow> map rule_of rs | _ \<Rightarrow> [])"

definition del_stash :: "string \<Rightarrow> pyval dict \<Rightarrow> pyval dict" where
  "del_stash user d = set_sect ''acl_stash'' (AList.delete user (sect d ''acl_stash'')) d"

text \<open>\<open>prune\<close>: the document without the records of what no longer exists, and how many were removed.\<close>

definition prune_users :: "string list \<Rightarrow> pyval dict \<Rightarrow> pyval dict \<times> nat" where
  "prune_users live d =
     (let kept = filter (\<lambda>(u, _). u \<in> set live) (sect d ''users'') in
      (set_sect ''users'' kept d, length (sect d ''users'') - length kept))"

definition prune_inner :: "string \<Rightarrow> (string \<times> string) list \<Rightarrow> pyval dict \<Rightarrow> pyval dict \<times> nat" where
  "prune_inner name live d =
     (let kept = map (\<lambda>(u, v). (u, filter (\<lambda>(k, _). (u, k) \<in> set live) (as_dict v))) (sect d name);
          gone = sum_list (map (\<lambda>(u, v). length (filter (\<lambda>(k, _). (u, k) \<notin> set live) (as_dict v))) (sect d name)) in
      (set_sect name (map (\<lambda>(u, i). (u, PDict i)) (filter (\<lambda>(_, i). i \<noteq> []) kept)) d, gone))"

section \<open>The store\<close>

datatype origin_exn = OriginOs oserr | OriginValue string | OriginCrash string

record origin_store =
  og_os :: os
  og_path :: path
  og_sig :: "(nat \<times> nat \<times> nat) option"
  og_doc :: "pyval dict"

type_synonym 'a origin = "(origin_store, origin_exn, 'a) prog"

type_synonym stamp = "fs \<Rightarrow> path \<Rightarrow> nat \<times> nat \<times> nat"

definition in_og :: "'a io \<Rightarrow> 'a origin" where
  "in_og m = (\<lambda>s. case m (og_os s) of (r, o') \<Rightarrow> ((case r of Inl e \<Rightarrow> Inl (OriginOs e) | Inr x \<Rightarrow> Inr x), s\<lparr>og_os := o'\<rparr>))"

definition signature :: "stamp \<Rightarrow> path \<Rightarrow> (nat \<times> nat \<times> nat) option io" where
  "signature stamp p = catch (andthen (os_stat p) (gets (\<lambda>s. Some (stamp (fsys s) p)))) (\<lambda>_. ret None)"

definition sibling :: "path \<Rightarrow> string \<Rightarrow> path" where
  "sibling p suffix = butlast p @ [last p @ suffix]"

text \<open>Reading the file; bytes that are not UTF-8 raise \<open>UnicodeDecodeError\<close>, which is not an \<open>OSError\<close> and is not caught.\<close>

definition load_doc :: "path \<Rightarrow> (os, origin_exn, pyval dict) prog" where
  "load_doc p =
     bnd (catch (bnd (os_read p) (\<lambda>d. ret (Some d))) (\<lambda>_. ret None)) (\<lambda>raw. case raw of
       None \<Rightarrow> ret empty_doc
     | Some d \<Rightarrow> (case utf8_decode d of
           None \<Rightarrow> raise (OriginCrash ''UnicodeDecodeError'')
         | Some text \<Rightarrow>
             (case json_loads (universal_newlines text) of
                Some doc \<Rightarrow> if valid_document doc then ret (as_dict doc)
                  else andthen (lift_exn OriginOs (catch (os_replace p (sibling p ''.corrupt'')) (\<lambda>_. ret ()))) (ret empty_doc)
              | None \<Rightarrow> andthen (lift_exn OriginOs (catch (os_replace p (sibling p ''.corrupt'')) (\<lambda>_. ret ()))) (ret empty_doc))))"

definition on_og_os :: "(os, origin_exn, 'a) prog \<Rightarrow> 'a origin" where
  "on_og_os m = (\<lambda>s. case m (og_os s) of (r, o') \<Rightarrow> (r, s\<lparr>og_os := o'\<rparr>))"

definition open_store :: "stamp \<Rightarrow> path \<Rightarrow> (os, origin_exn, origin_store) prog" where
  "open_store stamp p = (\<lambda>s.
     case signature stamp p s of
       (Inl e, s1) \<Rightarrow> (Inl (OriginOs e), s1)
     | (Inr sig, s1) \<Rightarrow> (case load_doc p s1 of
         (Inl e, s2) \<Rightarrow> (Inl e, s2)
       | (Inr d, s2) \<Rightarrow> (Inr \<lparr>og_os = s2, og_path = p, og_sig = sig, og_doc = d\<rparr>, s2)))"

definition refresh :: "stamp \<Rightarrow> unit origin" where
  "refresh stamp =
     bnd (gets (\<lambda>s. (og_path s, og_sig s))) (\<lambda>(p, old).
     bnd (in_og (signature stamp p)) (\<lambda>sig.
     if sig = old then ret ()
     else andthen (modify (\<lambda>s. s\<lparr>og_sig := sig\<rparr>))
       (bnd (on_og_os (load_doc p)) (\<lambda>d. modify (\<lambda>s. s\<lparr>og_doc := d\<rparr>)))))"

text \<open>\<open>open(path, "a")\<close>: the lock file is created unless it exists.\<close>

definition open_append :: "path \<Rightarrow> unit io" where
  "open_append p = sys (at_path True p (\<lambda>q f. case node_at f q of
     None \<Rightarrow> Inr ((), AList.update q (NFile [] 420) f) | Some (NFile _ _) \<Rightarrow> Inr ((), f) | Some _ \<Rightarrow> Inl EISDIR))"

definition txn :: "stamp \<Rightarrow> 'a origin \<Rightarrow> 'a origin" where
  "txn stamp body =
     bnd (gets og_path) (\<lambda>p.
     andthen (in_og (mkdir_parents (butlast p)))
     (andthen (in_og (open_append (sibling p ''.lock'')))
     (andthen (refresh stamp) body)))"

definition file_text :: "pyval dict \<Rightarrow> bytes" where
  "file_text d = json_dumps (Some 2) True (sort_vals (PDict d)) @ [newline]"

text \<open>The file is staged beside its target; any failure removes the staged file and is raised again.\<close>

definition install_doc :: "path \<Rightarrow> bytes \<Rightarrow> unit io" where
  "install_doc p data =
     andthen (mkdir_parents (butlast p))
     (bnd (os_mkstemp (butlast p) ''.origins-'' ''.tmp'') (\<lambda>tmp.
       catch (andthen (os_chmod tmp 384) (andthen (os_write tmp data) (andthen os_fsync (os_replace tmp p))))
         (\<lambda>e. andthen (catch (os_unlink False tmp) (\<lambda>_. ret ())) (raise e))))"

definition save_doc :: "stamp \<Rightarrow> unit origin" where
  "save_doc stamp =
     bnd (gets (\<lambda>s. (og_path s, og_doc s))) (\<lambda>(p, d).
     andthen (in_og (install_doc p (file_text d)))
     (bnd (in_og (signature stamp p)) (\<lambda>sig. modify (\<lambda>s. s\<lparr>og_sig := sig\<rparr>))))"

section \<open>Reads\<close>

definition reading :: "stamp \<Rightarrow> (pyval dict \<Rightarrow> 'a) \<Rightarrow> 'a origin" where
  "reading stamp f = andthen (refresh stamp) (gets (\<lambda>s. f (og_doc s)))"

definition doc_user :: "string \<Rightarrow> pyval dict \<Rightarrow> string" where
  "doc_user name d = (case dget (sect d ''users'') name of Some v \<Rightarrow> val_str v | None \<Rightarrow> DEFAULT_ORIGIN)"

definition doc_inner :: "string \<Rightarrow> string \<Rightarrow> string \<Rightarrow> pyval dict \<Rightarrow> string" where
  "doc_inner name user key d = (case dget (sect (sect d name) user) key of Some v \<Rightarrow> val_str v | None \<Rightarrow> DEFAULT_ORIGIN)"

definition get_user :: "stamp \<Rightarrow> string \<Rightarrow> string origin" where
  "get_user stamp name = reading stamp (doc_user name)"

definition get_acl :: "stamp \<Rightarrow> string \<Rightarrow> string \<Rightarrow> string origin" where
  "get_acl stamp user topic = reading stamp (doc_inner ''acls'' user topic)"

definition get_token :: "stamp \<Rightarrow> string \<Rightarrow> string \<Rightarrow> string origin" where
  "get_token stamp user tid = reading stamp (doc_inner ''tokens'' user tid)"

definition snapshot_doc :: "stamp \<Rightarrow> pyval dict origin" where
  "snapshot_doc stamp = reading stamp (\<lambda>d. d)"

section \<open>Writes\<close>

definition check_origin :: "string \<Rightarrow> unit origin" where
  "check_origin origin = guard_raise (origin \<notin> set ORIGINS) (OriginValue ''unknown origin'')"

definition check_token_id :: "string \<Rightarrow> unit origin" where
  "check_token_id t = guard_raise (\<not> TOKEN_ID_RE t) (OriginValue ''invalid token id'')"

text \<open>A change of the document, written through.\<close>

definition commit_doc :: "stamp \<Rightarrow> (pyval dict \<Rightarrow> pyval dict) \<Rightarrow> unit origin" where
  "commit_doc stamp f = andthen (modify (\<lambda>s. s\<lparr>og_doc := f (og_doc s)\<rparr>)) (save_doc stamp)"

definition set_user :: "stamp \<Rightarrow> string \<Rightarrow> string \<Rightarrow> unit origin" where
  "set_user stamp name origin = andthen (check_origin origin) (txn stamp (commit_doc stamp (put_user name origin)))"

definition set_acl :: "stamp \<Rightarrow> string \<Rightarrow> string \<Rightarrow> string \<Rightarrow> unit origin" where
  "set_acl stamp user topic origin = andthen (check_origin origin) (txn stamp (commit_doc stamp (put_inner ''acls'' user topic origin)))"

definition set_token :: "stamp \<Rightarrow> string \<Rightarrow> string \<Rightarrow> string \<Rightarrow> unit origin" where
  "set_token stamp user tid origin = andthen (check_origin origin) (andthen (check_token_id tid)
     (txn stamp (commit_doc stamp (put_inner ''tokens'' user tid origin))))"

definition drop_user :: "stamp \<Rightarrow> string \<Rightarrow> unit origin" where
  "drop_user stamp name = txn stamp (commit_doc stamp (del_user name))"

definition drop_acl :: "stamp \<Rightarrow> string \<Rightarrow> string \<Rightarrow> unit origin" where
  "drop_acl stamp user topic = txn stamp (commit_doc stamp (del_inner ''acls'' user topic))"

definition drop_token :: "stamp \<Rightarrow> string \<Rightarrow> string \<Rightarrow> unit origin" where
  "drop_token stamp user tid = txn stamp (commit_doc stamp (del_inner ''tokens'' user tid))"

definition clear_acls :: "stamp \<Rightarrow> unit origin" where
  "clear_acls stamp = txn stamp (commit_doc stamp (set_sect ''acls'' []))"

definition clear_all :: "stamp \<Rightarrow> unit origin" where
  "clear_all stamp = txn stamp (commit_doc stamp (\<lambda>_. empty_doc))"

definition stash_acl :: "stamp \<Rightarrow> string \<Rightarrow> stash_rule list \<Rightarrow> unit origin" where
  "stash_acl stamp user rules = andthen (for_each rules (\<lambda>r. check_origin (sl_origin r))) (txn stamp (commit_doc stamp (put_stash user rules)))"

definition pop_acl_stash :: "stamp \<Rightarrow> string \<Rightarrow> stash_rule list origin" where
  "pop_acl_stash stamp user = txn stamp (bnd (gets (\<lambda>s. get_stash user (og_doc s))) (\<lambda>rules.
     andthen (commit_doc stamp (del_stash user)) (ret rules)))"

definition prune :: "stamp \<Rightarrow> string list \<Rightarrow> (string \<times> string) list \<Rightarrow> (string \<times> string) list \<Rightarrow> nat origin" where
  "prune stamp live_users live_acls live_tokens =
     txn stamp (bnd (gets og_doc) (\<lambda>d.
       let (d1, n1) = prune_users live_users d; (d2, n2) = prune_inner ''acls'' live_acls d1; (d3, n3) = prune_inner ''tokens'' live_tokens d2 in
       andthen (modify (\<lambda>s. s\<lparr>og_doc := d3\<rparr>))
       (andthen (when_do (n1 + n2 + n3 \<noteq> 0) (save_doc stamp)) (ret (n1 + n2 + n3)))))"

end
