(* ===== verification/Json_Ascii.thy ===== *)
theory Json_Ascii
  imports Json_Roundtrip
begin

text \<open>
  Documents written with \<open>ensure_ascii\<close>: only printable ASCII characters and line feeds, so the encoding and a text-mode
  reader give the text back unchanged.
\<close>

definition printable :: "char \<Rightarrow> bool" where
  "printable c \<longleftrightarrow> c = newline \<or> (32 \<le> (of_char c :: nat) \<and> (of_char c :: nat) < 127)"

lemma printable_digit: "is_digit c \<Longrightarrow> printable c"
  by (auto simp: is_digit_def printable_def Let_def)

lemma printable_nat: "list_all printable (nat_str n)"
proof (induction n rule: nat_str.induct)
  case (1 n)
  have d: "printable (char_of (48 + k))" if "k < 10" for k :: nat
    using that by (simp add: printable_def)
  show ?case using 1 d [of n] d [of "n mod 10"] by (subst nat_str.simps) auto
qed

lemma printable_int: "list_all printable (int_str i)"
  using printable_nat by (auto simp: int_str_def printable_def)

lemma printable_hex: "n < 16 \<Longrightarrow> printable (hex_digit n)"
  by (auto simp: hex_digit_def printable_def)

lemma printable_esc: "list_all printable (esc_char True c)"
proof -
  let ?n = "of_char c :: nat"
  have small: "?n < 256" by simp
  have div: "?n div 16 < 16" using small by (rule less_mult_imp_div_less [of _ 16 16, simplified])
  have const: "printable bslash" "printable dquote" "list_all printable ''u00nrtfb''"
    by (simp_all add: printable_def bslash_def dquote_def)
  have esc: "list_all printable (u_escape c)"
    using printable_hex [OF div] printable_hex [of "?n mod 16"] small const by (simp add: u_escape_def Let_def)
  have "printable c" if "\<not> (?n < 32 \<or> 126 < ?n)" using that by (simp add: printable_def)
  with const esc show ?thesis unfolding esc_char_def Let_def by (simp add: not_less)
qed

lemma printable_str: "list_all printable (dump_str True s)"
proof -
  have "list_all printable (concat (map (esc_char True) s))"
    using printable_esc by (induction s) auto
  then show ?thesis by (simp add: dump_str_def printable_def dquote_def)
qed

lemma printable_join: "list_all printable sep \<Longrightarrow> list_all (list_all printable) ps \<Longrightarrow> list_all printable (join sep ps)"
  by (induction sep ps rule: join.induct) auto

lemma printable_break: "list_all printable (line_break ind l)" and printable_sep: "list_all printable (item_sep ind l)"
  by (auto simp: line_break_def item_sep_def printable_def list_all_iff split: option.splits)

lemma printable_chars [simp]:
  "printable CHR ''[''" "printable CHR '']''" "printable CHR ''{''" "printable CHR ''}''" "printable CHR '':''" "printable CHR '' ''"
  "list_all printable ''null''" "list_all printable ''true''" "list_all printable ''false''"
  "printable CHR ''n''" "printable CHR ''u''" "printable CHR ''l''" "printable CHR ''t''" "printable CHR ''r''" "printable CHR ''e''"
  "printable CHR ''f''" "printable CHR ''a''" "printable CHR ''s''" "printable newline"
  by (simp_all add: printable_def)

lemma printable_ser: "storable v \<Longrightarrow> list_all printable (ser ind True l v)"
proof (induction v arbitrary: l)
  case (PList vs)
  have "list_all (list_all printable) (map (ser ind True (Suc l)) vs)"
    using PList by (auto simp: list_all_iff)
  note j = printable_join [OF printable_sep this]
  show ?case using j printable_break by simp
next
  case (PDict d)
  have "list_all (list_all printable) (map (\<lambda>(k, v). dump_str True k @ '': '' @ ser ind True (Suc l) v) d)"
    using PDict printable_str by (fastforce simp: list_all_iff)
  note j = printable_join [OF printable_sep this]
  show ?case using j printable_break by simp
qed (simp_all add: printable_int printable_str)

lemma printable_decode: "list_all printable s \<Longrightarrow> utf8_decode s = Some s"
  by (induction s) (auto simp: printable_def newline_def)

lemma printable_lines: "list_all printable s \<Longrightarrow> universal_newlines s = s"
proof -
  assume s: "list_all printable s"
  have cr: "\<not> printable (CHR 0x0D)" by (simp add: printable_def newline_def)
  have "replace [CHR 0x0D, newline] [newline] s = s" using s
  proof (induction s)
    case (Cons c s)
    with cr have "c \<noteq> CHR 0x0D" by auto
    with Cons show ?case by simp
  qed simp
  moreover have "map (\<lambda>c. if c = CHR 0x0D then newline else c) s = s" using s cr by (induction s) auto
  ultimately show ?thesis by (simp only: universal_newlines_def)
qed

section \<open>Sorting the keys\<close>

lemma map_of_insort: "fst x \<notin> fst ` set d \<Longrightarrow> map_of (insort_key fst x d) = map_of (x # d)"
  by (induction d) (auto simp: fun_upd_twist)

lemma map_of_sort: "distinct (map fst d) \<Longrightarrow> map_of (sort_key fst d) = map_of d"
  by (induction d) (simp_all add: map_of_insort)

lemma keys_insort: "map fst (insort_key fst x d) = insort (fst x) (map fst d)"
  by (induction d) auto

lemma distinct_keys_sort: "distinct (map fst d) \<Longrightarrow> distinct (map fst (sort_key fst d))"
  by (induction d) (simp_all add: keys_insort distinct_insort)

lemma sort_vals_dget: "distinct (map fst d) \<Longrightarrow> dget (as_dict (sort_vals (PDict d))) k = map_option sort_vals (dget d k)"
proof -
  assume d: "distinct (map fst d)"
  have m: "map_of (map (\<lambda>(k, v). (k, sort_vals v)) d) k = map_option sort_vals (dget d k)" by (induction d) auto
  have "distinct (map fst (map (\<lambda>(k, v). (k, sort_vals v)) d))" using d by (simp add: comp_def case_prod_unfold)
  from map_of_sort [OF this] m show ?thesis by (simp only: sort_vals.simps as_dict.simps)
qed

end
