(* ===== verification/NT_Origins_Proofs.thy ===== *)
theory NT_Origins_Proofs
  imports NT_Origins Json_Ascii
begin

text \<open>
  The origin store refines a book of four maps: each change of the document is the abstract change, the file written is
  read back by any process as the same book, and a failed write leaves the file alone.
\<close>

section \<open>The abstract book\<close>

record book =
  ob_user :: "string \<Rightarrow> string option"
  ob_acl :: "string \<times> string \<Rightarrow> string option"
  ob_token :: "string \<times> string \<Rightarrow> string option"
  ob_stash :: "string \<Rightarrow> stash_rule list"

definition book_of :: "pyval dict \<Rightarrow> book" where
  "book_of d =
     \<lparr>ob_user = (\<lambda>n. map_option val_str (dget (sect d ''users'') n)),
      ob_acl = (\<lambda>(u, t). map_option val_str (dget (sect (sect d ''acls'') u) t)),
      ob_token = (\<lambda>(u, t). map_option val_str (dget (sect (sect d ''tokens'') u) t)),
      ob_stash = (\<lambda>u. get_stash u d)\<rparr>"

datatype origin_op = SetUser string string | SetAcl string string string | SetToken string string string
  | DropUser string | DropAcl string string | DropToken string string | ClearAcls | ClearAll
  | Stash string "stash_rule list" | PopStash string

text \<open>What the store's methods do to the document, and what they mean for the book.\<close>

fun apply_op :: "origin_op \<Rightarrow> pyval dict \<Rightarrow> pyval dict" where
  "apply_op (SetUser n g) = put_user n g"
| "apply_op (SetAcl u t g) = put_inner ''acls'' u t g"
| "apply_op (SetToken u t g) = put_inner ''tokens'' u t g"
| "apply_op (DropUser n) = del_user n"
| "apply_op (DropAcl u t) = del_inner ''acls'' u t"
| "apply_op (DropToken u t) = del_inner ''tokens'' u t"
| "apply_op ClearAcls = set_sect ''acls'' []"
| "apply_op ClearAll = (\<lambda>_. empty_doc)"
| "apply_op (Stash u rs) = put_stash u rs"
| "apply_op (PopStash u) = del_stash u"

definition empty_book :: book where
  "empty_book = \<lparr>ob_user = (\<lambda>_. None), ob_acl = (\<lambda>_. None), ob_token = (\<lambda>_. None), ob_stash = (\<lambda>_. [])\<rparr>"

fun spec_op :: "origin_op \<Rightarrow> book \<Rightarrow> book" where
  "spec_op (SetUser n g) b = b\<lparr>ob_user := (ob_user b)(n \<mapsto> g)\<rparr>"
| "spec_op (SetAcl u t g) b = b\<lparr>ob_acl := (ob_acl b)((u, t) \<mapsto> g)\<rparr>"
| "spec_op (SetToken u t g) b = b\<lparr>ob_token := (ob_token b)((u, t) \<mapsto> g)\<rparr>"
| "spec_op (DropUser n) b = \<lparr>ob_user = (ob_user b)(n := None), ob_acl = (\<lambda>(u, t). if u = n then None else ob_acl b (u, t)),
     ob_token = (\<lambda>(u, t). if u = n then None else ob_token b (u, t)), ob_stash = (ob_stash b)(n := [])\<rparr>"
| "spec_op (DropAcl u t) b = b\<lparr>ob_acl := (ob_acl b)((u, t) := None)\<rparr>"
| "spec_op (DropToken u t) b = b\<lparr>ob_token := (ob_token b)((u, t) := None)\<rparr>"
| "spec_op ClearAcls b = b\<lparr>ob_acl := (\<lambda>_. None)\<rparr>"
| "spec_op ClearAll b = empty_book"
| "spec_op (Stash u rs) b = b\<lparr>ob_stash := (ob_stash b)(u := rs)\<rparr>"
| "spec_op (PopStash u) b = b\<lparr>ob_stash := (ob_stash b)(u := [])\<rparr>"

section \<open>Sections of a document\<close>

lemma vget_update [simp]: "vget (AList.update k v d) l = (if l = k then v else vget d l)"
  by (simp add: vget_def)

lemma vget_delete [simp]: "vget (AList.delete k d) l = (if l = k then PNone else vget d l)"
  by (simp add: vget_def)

lemma sect_set [simp]: "sect (set_sect n s d) m = (if m = n then s else sect d m)"
  by (simp add: sect_def set_sect_def)

lemma sect_update [simp]: "sect (AList.update k v d) l = (if l = k then as_dict v else sect d l)"
  by (simp add: sect_def)

lemma sect_delete [simp]: "sect (AList.delete k d) l = (if l = k then [] else sect d l)"
  by (simp add: sect_def)

lemma get_stash_set [simp]:
  "get_stash u (set_sect n s d) = (if n = ''acl_stash'' then (case dget s u of Some (PList rs) \<Rightarrow> map rule_of rs | _ \<Rightarrow> []) else get_stash u d)"
  by (simp add: get_stash_def)

lemma rule_roundtrip [simp]: "rule_of (rule_val r) = r"
  by (cases r) (simp add: rule_of_def rule_val_def vget_def val_str_def)

lemma rule_list [simp]: "map (rule_of \<circ> rule_val) rs = rs"
  by (induction rs) simp_all

lemma sect_Nil [simp]: "sect [] k = []"
  by (simp add: sect_def vget_def)

lemma inner_deleted:
  "sect (sect (del_inner n u k d) m) w = (if m = n \<and> w = u then AList.delete k (sect (sect d n) u) else sect (sect d m) w)"
proof (cases "dget (sect d n) u")
  case None
  then have "sect (sect d n) u = []" by (simp add: sect_def vget_def)
  with None show ?thesis by (simp add: del_inner_def)
next
  case (Some v)
  then have "sect (sect d n) u = as_dict v" by (simp add: sect_def vget_def)
  with Some show ?thesis by (auto simp: del_inner_def Let_def)
qed

lemma del_inner_other: "m \<noteq> n \<Longrightarrow> sect (del_inner n u k d) m = sect d m" "n \<noteq> ''acl_stash'' \<Longrightarrow> get_stash w (del_inner n u k d) = get_stash w d"
  by (auto simp: del_inner_def Let_def split: option.splits)

lemma del_user_sect: "sect (del_user n d) m = (if m \<in> set SECTIONS then AList.delete n (sect d m) else sect d m)"
  by (simp add: del_user_def SECTIONS_def)

lemma stash_delete: "get_stash u (del_user n d) = (if u = n then [] else get_stash u d)"
  by (simp add: get_stash_def del_user_sect SECTIONS_def)

lemma map_option_upd: "map_option f ((m(k \<mapsto> v)) x) = ((\<lambda>x. map_option f (m x))(k \<mapsto> f v)) x"
  by simp

text \<open>Every change of the document is the abstract change.\<close>

lemma op_refines: "book_of (apply_op op d) = spec_op op (book_of d)"
proof (cases op)
  case (DropAcl u t)
  then show ?thesis by (auto simp: book_of_def inner_deleted del_inner_other fun_eq_iff)
next
  case (DropToken u t)
  then show ?thesis by (auto simp: book_of_def inner_deleted del_inner_other fun_eq_iff)
next
  case (DropUser n)
  then show ?thesis by (auto simp: book_of_def del_user_sect SECTIONS_def stash_delete fun_eq_iff)
next
  case (Stash u rs)
  then show ?thesis by (auto simp: book_of_def put_stash_def get_stash_def fun_eq_iff)
next
  case (PopStash u)
  then show ?thesis by (auto simp: book_of_def del_stash_def get_stash_def fun_eq_iff)
next
  case ClearAll
  then show ?thesis by (auto simp: book_of_def empty_book_def empty_doc_def sect_def vget_def get_stash_def fun_eq_iff)
qed (auto simp: book_of_def put_user_def put_inner_def put_stash_def del_stash_def val_str_def fun_eq_iff)

section \<open>Documents stay valid\<close>

text \<open>What the methods check before they write.\<close>

fun op_ok :: "origin_op \<Rightarrow> bool" where
  "op_ok (SetUser n g) \<longleftrightarrow> g \<in> set ORIGINS"
| "op_ok (SetAcl u t g) \<longleftrightarrow> g \<in> set ORIGINS"
| "op_ok (SetToken u t g) \<longleftrightarrow> g \<in> set ORIGINS"
| "op_ok (Stash u rs) \<longleftrightarrow> list_all (\<lambda>r. sl_origin r \<in> set ORIGINS) rs"
| "op_ok _ \<longleftrightarrow> True"

text \<open>The shape of a document as a property of its sections.\<close>

definition users_ok :: "pyval dict \<Rightarrow> bool" where "users_ok s \<longleftrightarrow> (\<forall>v \<in> snd ` set s. known_origin v)"
definition inner_ok :: "pyval dict \<Rightarrow> bool" where "inner_ok s \<longleftrightarrow> (\<forall>v \<in> snd ` set s. is_dict v \<and> users_ok (as_dict v))"
definition stash_ok :: "pyval dict \<Rightarrow> bool" where
  "stash_ok s \<longleftrightarrow> (\<forall>v \<in> snd ` set s. case v of PList rs \<Rightarrow> list_all valid_rule rs | _ \<Rightarrow> False)"

definition good_doc :: "pyval dict \<Rightarrow> bool" where
  "good_doc d \<longleftrightarrow> is_schema (vget d ''schema'') \<and> (\<forall>s \<in> set SECTIONS. is_dict (vget d s))
     \<and> users_ok (sect d ''users'') \<and> inner_ok (sect d ''acls'') \<and> inner_ok (sect d ''tokens'') \<and> stash_ok (sect d ''acl_stash'')"

lemma valid_good: "valid_document (PDict d) = good_doc d"
  by (auto simp: valid_document_def good_doc_def users_ok_def inner_ok_def stash_ok_def list_all_iff SECTIONS_def case_prod_unfold)

lemma values_update: "snd ` set (AList.update k v d) \<subseteq> insert v (snd ` set d)"
  by (induction d) auto

lemma values_delete: "snd ` set (AList.delete k d) \<subseteq> snd ` set d"
  by (auto simp: AList.delete_eq)

lemma all_update: "(\<forall>v \<in> snd ` set s. P v) \<Longrightarrow> P w \<Longrightarrow> (\<forall>v \<in> snd ` set (AList.update k w s). P v)"
  using values_update [of k w s] by blast

lemma users_ok_update: "users_ok s \<Longrightarrow> known_origin v \<Longrightarrow> users_ok (AList.update k v s)"
  unfolding users_ok_def using values_update [of k v s] by blast

lemma users_ok_delete: "users_ok s \<Longrightarrow> users_ok (AList.delete k s)"
  unfolding users_ok_def using values_delete [of k s] by blast

lemma inner_ok_update: "inner_ok s \<Longrightarrow> users_ok i \<Longrightarrow> inner_ok (AList.update k (PDict i) s)"
  unfolding inner_ok_def by (rule all_update) simp_all

lemma inner_ok_delete: "inner_ok s \<Longrightarrow> inner_ok (AList.delete k s)"
  unfolding inner_ok_def using values_delete [of k s] by blast

lemma stash_ok_update: "stash_ok s \<Longrightarrow> list_all valid_rule rs \<Longrightarrow> stash_ok (AList.update k (PList rs) s)"
  unfolding stash_ok_def by (rule all_update) simp_all

lemma stash_ok_delete: "stash_ok s \<Longrightarrow> stash_ok (AList.delete k s)"
  unfolding stash_ok_def using values_delete [of k s] by blast

lemma inner_ok_sect: "inner_ok s \<Longrightarrow> users_ok (sect s u)"
proof (cases "dget s u")
  case (Some v)
  assume "inner_ok s"
  then have "users_ok (as_dict v)" using Some by (force simp: inner_ok_def dest!: map_of_SomeD)
  with Some show ?thesis by (simp add: sect_def vget_def)
qed (simp add: sect_def vget_def users_ok_def)

lemma rules_valid: "list_all (\<lambda>r. sl_origin r \<in> set ORIGINS) rs \<Longrightarrow> list_all valid_rule (map rule_val rs)"
  by (auto simp: list_all_iff valid_rule_def rule_val_def vget_def known_origin_def)

lemma vget_set_sect [simp]: "vget (set_sect n s d) m = (if m = n then PDict s else vget d m)"
  by (simp add: set_sect_def)

lemma put_inner_good: "good_doc d \<Longrightarrow> g \<in> set ORIGINS \<Longrightarrow> n \<in> {''acls'', ''tokens''} \<Longrightarrow> good_doc (put_inner n u k g d)"
proof -
  assume d: "good_doc d" and g: "g \<in> set ORIGINS" and n: "n \<in> {''acls'', ''tokens''}"
  have "inner_ok (sect d n)" using d n by (auto simp: good_doc_def)
  moreover have "users_ok (AList.update k (PStr g) (sect (sect d n) u))"
    by (rule users_ok_update [OF inner_ok_sect [OF calculation]]) (simp add: known_origin_def g)
  ultimately have "inner_ok (AList.update u (PDict (AList.update k (PStr g) (sect (sect d n) u))) (sect d n))"
    by (rule inner_ok_update)
  with d n show ?thesis by (auto simp: good_doc_def put_inner_def SECTIONS_def)
qed

lemma del_inner_good: "good_doc d \<Longrightarrow> n \<in> {''acls'', ''tokens''} \<Longrightarrow> good_doc (del_inner n u k d)"
proof (cases "dget (sect d n) u")
  case (Some v)
  assume d: "good_doc d" and n: "n \<in> {''acls'', ''tokens''}"
  have "inner_ok (sect d n)" using d n by (auto simp: good_doc_def)
  then have "users_ok (as_dict v)" using Some by (force simp: inner_ok_def dest!: map_of_SomeD)
  with d n Some show ?thesis
    by (auto simp: good_doc_def del_inner_def Let_def SECTIONS_def intro!: inner_ok_update users_ok_delete inner_ok_delete)
qed (simp add: del_inner_def)

lemma del_user_good: "good_doc d \<Longrightarrow> good_doc (del_user n d)"
  by (simp add: good_doc_def del_user_def SECTIONS_def users_ok_delete inner_ok_delete stash_ok_delete)

lemma empty_good: "good_doc empty_doc"
  by (simp add: good_doc_def empty_doc_def vget_def sect_def is_schema_def SECTIONS_def users_ok_def inner_ok_def stash_ok_def)

lemma op_good: "good_doc d \<Longrightarrow> op_ok op \<Longrightarrow> good_doc (apply_op op d)"
proof (cases op)
  case (Stash u rs)
  assume "good_doc d" "op_ok op"
  with Stash show ?thesis by (auto simp: good_doc_def put_stash_def SECTIONS_def intro!: stash_ok_update rules_valid)
qed (auto simp: put_inner_good del_inner_good del_user_good empty_good,
     auto simp: good_doc_def put_user_def del_stash_def SECTIONS_def known_origin_def inner_ok_def intro: users_ok_update stash_ok_delete)

section \<open>Documents are read back as they were written\<close>

text \<open>A document that JSON can hold: distinct keys at every level and no floats.\<close>

definition wf_doc :: "pyval dict \<Rightarrow> bool" where
  "wf_doc d \<longleftrightarrow> distinct (keys d) \<and> (\<forall>v \<in> snd ` set d. storable v)"

lemma storable_dict [simp]: "storable (PDict d) = wf_doc d"
  by (auto simp: wf_doc_def)

declare storable.simps(3) [simp del]

lemma storable_update: "wf_doc d \<Longrightarrow> storable v \<Longrightarrow> wf_doc (AList.update k v d)"
  unfolding wf_doc_def using all_update [of d storable v k] distinct_update [of d k v] by blast

lemma storable_delete: "wf_doc d \<Longrightarrow> wf_doc (AList.delete k d)"
  unfolding wf_doc_def using values_delete [of k d] distinct_delete [of d k] by blast

lemma storable_dget: "wf_doc d \<Longrightarrow> dget d k = Some v \<Longrightarrow> storable v"
  by (force simp: wf_doc_def dest: map_of_SomeD)

lemma storable_sect: "wf_doc d \<Longrightarrow> wf_doc (sect d n)"
proof (cases "dget d n")
  case (Some v)
  assume "wf_doc d"
  from storable_dget [OF this Some] Some show ?thesis by (cases v) (auto simp: sect_def vget_def wf_doc_def)
qed (simp add: sect_def vget_def wf_doc_def)

lemma storable_set: "wf_doc d \<Longrightarrow> wf_doc s \<Longrightarrow> wf_doc (set_sect n s d)"
  unfolding set_sect_def by (rule storable_update) simp_all

lemmas storable_ops = storable_set storable_update storable_delete storable_sect

lemma storable_rules: "storable (PList (map rule_val rs))"
  by (auto simp: rule_val_def wf_doc_def)

lemma storable_inner: "wf_doc d \<Longrightarrow> wf_doc (del_inner n u k d)"
proof (cases "dget (sect d n) u")
  case (Some v)
  assume d: "wf_doc d"
  have "wf_doc (as_dict v)" using storable_dget [OF storable_sect [OF d] Some] by (cases v) (auto simp: wf_doc_def)
  then have "wf_doc (AList.delete k (as_dict v))" by (rule storable_delete)
  then show ?thesis using Some d
    by (simp add: del_inner_def Let_def storable_ops)
qed (simp add: del_inner_def)

lemma op_storable: "wf_doc d \<Longrightarrow> wf_doc (apply_op op d)"
proof (cases op)
  case (Stash u rs)
  assume "wf_doc d"
  then show ?thesis unfolding Stash apply_op.simps put_stash_def
    by (intro storable_set storable_update storable_sect storable_rules)
next
  case ClearAll
  then show ?thesis by (simp add: empty_doc_def wf_doc_def)
next
  case ClearAcls
  assume "wf_doc d"
  then show ?thesis unfolding ClearAcls apply_op.simps by (rule storable_set) (simp add: wf_doc_def)
qed (simp_all add: put_user_def put_inner_def del_user_def del_stash_def SECTIONS_def storable_inner storable_ops)

definition sorted_doc :: "pyval dict \<Rightarrow> pyval dict" where
  "sorted_doc d = as_dict (sort_vals (PDict d))"

lemma storable_distinct: "wf_doc d \<Longrightarrow> distinct (map fst d)"
  by (simp add: wf_doc_def)

lemma vget_sorted: "wf_doc d \<Longrightarrow> vget (sorted_doc d) k = sort_vals (vget d k)"
  by (simp add: vget_def sorted_doc_def sort_vals_dget storable_distinct del: sort_vals.simps(2) split: option.split)

lemma dget_sorted: "wf_doc d \<Longrightarrow> dget (sorted_doc d) k = map_option sort_vals (dget d k)"
  by (simp add: sorted_doc_def sort_vals_dget storable_distinct del: sort_vals.simps(2))

lemma as_dict_sorted: "as_dict (sort_vals v) = (if is_dict v then sorted_doc (as_dict v) else [])"
  by (cases v) (simp_all add: sorted_doc_def)

lemma sect_sorted: "wf_doc d \<Longrightarrow> sect (sorted_doc d) n = sorted_doc (sect d n)"
  by (cases "vget d n") (simp_all add: sect_def vget_sorted as_dict_sorted, simp_all add: sorted_doc_def)

lemma val_str_sorted [simp]: "val_str (sort_vals v) = val_str v" "known_origin (sort_vals v) = known_origin v" "is_str (sort_vals v) = is_str v"
  "is_dict (sort_vals v) = is_dict v" "is_schema (sort_vals v) = is_schema v"
  by (cases v; simp add: val_str_def known_origin_def is_schema_def)+

lemma sorted_values: "snd ` set (sorted_doc d) = sort_vals ` snd ` set d"
  by (force simp: sorted_doc_def)

lemma storable_as_dict: "storable v \<Longrightarrow> wf_doc (as_dict v)"
  by (cases v) (auto simp: wf_doc_def)

lemma storable_value: "wf_doc d \<Longrightarrow> v \<in> snd ` set d \<Longrightarrow> storable v"
  unfolding wf_doc_def by blast

lemma valid_rule_sorted: "storable v \<Longrightarrow> valid_rule (sort_vals v) = valid_rule v"
  using storable_as_dict [of v] by (auto simp: valid_rule_def as_dict_sorted vget_sorted)

lemma rule_of_sorted: "storable v \<Longrightarrow> is_dict v \<Longrightarrow> rule_of (sort_vals v) = rule_of v"
  using storable_as_dict [of v] by (auto simp: rule_of_def as_dict_sorted vget_sorted)

lemma users_ok_sorted: "users_ok (sorted_doc s) = users_ok s"
  by (simp add: users_ok_def sorted_values)

lemma inner_ok_sorted: "inner_ok s \<Longrightarrow> inner_ok (sorted_doc s)"
  by (auto simp: inner_ok_def sorted_values as_dict_sorted users_ok_sorted)

lemma stash_ok_value: "stash_ok s \<Longrightarrow> v \<in> snd ` set s \<Longrightarrow> \<exists>rs. v = PList rs \<and> list_all valid_rule rs"
  unfolding stash_ok_def by (cases v) (drule bspec, assumption, simp)+

lemma stash_ok_sorted: "wf_doc s \<Longrightarrow> stash_ok s \<Longrightarrow> stash_ok (sorted_doc s)"
proof -
  assume s: "wf_doc s" "stash_ok s"
  have "case sort_vals v of PList rs \<Rightarrow> list_all valid_rule rs | _ \<Rightarrow> False" if "v \<in> snd ` set s" for v
    using stash_ok_value [OF s(2) that] storable_value [OF s(1) that] by (auto simp: list_all_iff valid_rule_sorted)
  then show ?thesis by (auto simp: stash_ok_def sorted_values)
qed

lemma good_sorted: "good_doc d \<Longrightarrow> wf_doc d \<Longrightarrow> good_doc (sorted_doc d)"
  by (simp add: good_doc_def vget_sorted sect_sorted users_ok_sorted inner_ok_sorted stash_ok_sorted storable_sect)

lemma stash_sorted: "good_doc d \<Longrightarrow> wf_doc d \<Longrightarrow> get_stash u (sorted_doc d) = get_stash u d"
proof -
  assume g: "good_doc d" and s: "wf_doc d"
  note s' = storable_sect [OF s, of "''acl_stash''"]
  have rules: "map (rule_of \<circ> sort_vals) rs = map rule_of rs" if "dget (sect d ''acl_stash'') u = Some (PList rs)" for rs
  proof -
    have "list_all valid_rule rs" using g that by (force simp: good_doc_def stash_ok_def dest!: map_of_SomeD)
    moreover have "storable (PList rs)" by (rule storable_dget [OF s' that])
    ultimately show ?thesis by (auto simp: list_all_iff valid_rule_def rule_of_sorted)
  qed
  show ?thesis
  proof (cases "dget (sect d ''acl_stash'') u")
    case None
    then show ?thesis using s s' by (simp add: get_stash_def sect_sorted dget_sorted)
  next
    case (Some v)
    then show ?thesis using s s' rules by (cases v) (simp_all add: get_stash_def sect_sorted dget_sorted)
  qed
qed

lemma book_sorted: "good_doc d \<Longrightarrow> wf_doc d \<Longrightarrow> book_of (sorted_doc d) = book_of d"
proof -
  assume g: "good_doc d" and s: "wf_doc d"
  have opt: "map_option val_str (map_option sort_vals x) = map_option val_str x" for x by (cases x) simp_all
  show ?thesis using s
    by (auto simp: book_of_def sect_sorted dget_sorted storable_sect stash_sorted [OF g s] opt fun_eq_iff)
qed

lemma file_reads_back:
  assumes "wf_doc d"
  shows "utf8_decode (file_text d) = Some (file_text d)" "json_loads (universal_newlines (file_text d)) = Some (sort_vals (PDict d))"
proof -
  have st: "storable (sort_vals v)" if "storable v" for v
    using that
  proof (induction v rule: sort_vals.induct)
    case (2 d)
    let ?m = "map (\<lambda>(k, v). (k, sort_vals v)) d"
    have d: "distinct (keys d)" and v: "\<And>x. x \<in> set d \<Longrightarrow> storable (snd x)" using 2(2) by (auto simp: wf_doc_def)
    have "keys ?m = keys d" by (simp add: comp_def case_prod_unfold)
    with d have "distinct (map fst (sort_key fst ?m))"
      by (simp only: distinct_keys_sort)
    moreover have "storable (sort_vals (snd x))" if "x \<in> set d" for x
      using 2(1) [OF that prod.collapse v [OF that]] .
    ultimately show ?case by (auto simp: wf_doc_def)
  qed auto
  have "list_all printable (file_text d)"
    using printable_ser [OF st, of "PDict d"] assms by (simp add: file_text_def json_dumps_def)
  then show "utf8_decode (file_text d) = Some (file_text d)" "json_loads (universal_newlines (file_text d)) = Some (sort_vals (PDict d))"
    using loads_dumps [OF st, of "PDict d" "Some 2" True 1] assms by (simp_all add: printable_decode printable_lines file_text_def)
qed

section \<open>The file is replaced whole\<close>

definition staged_name :: "string \<Rightarrow> string" where
  "staged_name t = ''.origins-'' @ t @ ''.tmp''"

lemma plain_staged: "plain_name (staged_name t)"
  by (auto simp: plain_name_def staged_name_def)

definition shows_file :: "string \<Rightarrow> bytes \<Rightarrow> (string \<Rightarrow> node option) \<Rightarrow> bool" where
  "shows_file x data v \<longleftrightarrow> (\<exists>m. v x = Some (NFile data m))"

lemma install_doc_rule:
  fixes x d old data
  defines "G \<equiv> \<lambda>v. v x = old \<or> shows_file x data v"
  assumes x: "plain_name x" and ne: "\<And>t. staged_name t \<noteq> x"
  shows "valid (dirst B d G (\<lambda>v. v x = old)) (install_doc (d @ [x]) data)
    (\<lambda>_. dirst B d G (shows_file x data)) (\<lambda>_. dirst B d G (\<lambda>v. v x = old))"
proof -
  let ?R = "\<lambda>v. v x = old" and ?H = "\<lambda>t data v. v x = old \<and> shows_file (staged_name t) data v"
  let ?E = "\<lambda>_. dirst B d G (\<lambda>v. v x = old)"
  have G: "G v" if "v x = old" for v using that by (simp add: G_def)
  have tmp: "valid (dirst B d G ?R) (os_mkstemp d ''.origins-'' ''.tmp'')
      (\<lambda>p. dirst B d G (\<lambda>v. \<exists>t. p = d @ [staged_name t] \<and> ?H t [] v)) ?E"
  proof (rule valid_weaken)
    show "valid (dirst B d G ?R) (os_mkstemp d ''.origins-'' ''.tmp'')
        (\<lambda>p. dirst B d G (\<lambda>v. \<exists>t v'. p = d @ [''.origins-'' @ t @ ''.tmp''] \<and> ?R v' \<and> v' (''.origins-'' @ t @ ''.tmp'') = None
           \<and> v = v'(''.origins-'' @ t @ ''.tmp'' := Some (NFile [] 384)))) ?E"
    proof (rule dir_mkstemp, unfold staged_name_def [symmetric])
      show "plain_name (staged_name t)" for t by (rule plain_staged)
      show "G (v(staged_name t := Some (NFile [] 384)))" if "v x = old" for v t
        by (rule G) (use that ne [of t] in simp)
    qed
    show "dirst B d G (\<lambda>v. \<exists>t. p = d @ [staged_name t] \<and> ?H t [] v) s"
      if "dirst B d G (\<lambda>v. \<exists>t v'. p = d @ [''.origins-'' @ t @ ''.tmp''] \<and> ?R v' \<and> v' (''.origins-'' @ t @ ''.tmp'') = None
           \<and> v = v'(''.origins-'' @ t @ ''.tmp'' := Some (NFile [] 384))) s" for p s
    proof (rule dirst_mono [OF that [folded staged_name_def]])
      fix v assume "\<exists>t v'. p = d @ [staged_name t] \<and> v' x = old \<and> v' (staged_name t) = None \<and> v = v'(staged_name t := Some (NFile [] 384))"
      then obtain t v' where p: "p = d @ [staged_name t]" and v: "v' x = old" "v = v'(staged_name t := Some (NFile [] 384))" by blast
      have "?H t [] v" using v ne [of t] by (simp add: shows_file_def)
      with p show "\<exists>t. p = d @ [staged_name t] \<and> ?H t [] v" by blast
    qed
  qed simp_all
  have rest: "valid (dirst B d G (?H t []))
      (catch (andthen (os_chmod (d @ [staged_name t]) 384) (andthen (os_write (d @ [staged_name t]) data)
          (andthen os_fsync (os_replace (d @ [staged_name t]) (d @ [x])))))
        (\<lambda>e. andthen (catch (os_unlink False (d @ [staged_name t])) (\<lambda>_. ret ())) (raise e)))
      (\<lambda>_. dirst B d G (shows_file x data)) ?E" for t
  proof (rule valid_catch)
    have h1: "valid (dirst B d G (?H t [])) (os_chmod (d @ [staged_name t]) 384) (\<lambda>_. dirst B d G (?H t [])) ?E"
      by (rule valid_exn [OF dir_chmod [OF plain_staged, where R = "?H t []" and Q = "?H t []"]])
        (use ne G in \<open>auto simp: shows_file_def elim!: dirst_mono\<close>)
    have h2: "valid (dirst B d G (?H t [])) (os_write (d @ [staged_name t]) data) (\<lambda>_. dirst B d G (?H t data)) ?E"
      by (rule valid_exn [OF dir_write [OF plain_staged, where R = "?H t []" and Q = "?H t data"]])
        (use ne G in \<open>auto simp: shows_file_def elim!: dirst_mono\<close>)
    have h3: "valid (dirst B d G (?H t data)) os_fsync (\<lambda>_. dirst B d G (?H t data)) ?E"
      by (rule valid_exn [OF dir_fsync]) (auto elim!: dirst_mono)
    have h4: "valid (dirst B d G (?H t data)) (os_replace (d @ [staged_name t]) (d @ [x])) (\<lambda>_. dirst B d G (shows_file x data)) ?E"
      by (rule valid_exn [OF dir_replace [OF plain_staged x ne, where R = "?H t data" and Q = "shows_file x data"]])
        (auto simp: shows_file_def G_def elim!: dirst_mono)
    show "valid (dirst B d G (?H t [])) (andthen (os_chmod (d @ [staged_name t]) 384) (andthen (os_write (d @ [staged_name t]) data)
          (andthen os_fsync (os_replace (d @ [staged_name t]) (d @ [x]))))) (\<lambda>_. dirst B d G (shows_file x data)) ?E"
      by (rule valid_andthen [OF h1 valid_andthen [OF h2 valid_andthen [OF h3 h4]]])
    have unlink: "valid (dirst B d G ?R) (os_unlink False (d @ [staged_name t])) (\<lambda>_. dirst B d G ?R) ?E"
      by (rule dir_unlink [OF plain_staged]) (use ne G in auto)
    show "valid (dirst B d G ?R) (andthen (catch (os_unlink False (d @ [staged_name t])) (\<lambda>_. ret ())) (raise e))
        (\<lambda>_. dirst B d G (shows_file x data)) ?E" for e
      by (rule valid_andthen [OF valid_catch [OF unlink]]) (auto intro: valid_ret valid_raise)
  qed
  show ?thesis unfolding install_doc_def butlast_snoc
  proof (rule valid_andthen [OF dir_mkdir_parents], rule valid_bnd [OF tmp])
    fix p
    show "valid (dirst B d G (\<lambda>v. \<exists>t. p = d @ [staged_name t] \<and> ?H t [] v))
        (catch (andthen (os_chmod p 384) (andthen (os_write p data) (andthen os_fsync (os_replace p (d @ [x])))))
          (\<lambda>e. andthen (catch (os_unlink False p) (\<lambda>_. ret ())) (raise e))) (\<lambda>_. dirst B d G (shows_file x data)) ?E"
    proof (cases "\<exists>t. p = d @ [staged_name t]")
      case True
      then obtain t where p: "p = d @ [staged_name t]" ..
      show ?thesis by (rule valid_weaken [OF rest [of t, folded p]]) (auto simp: p elim!: dirst_mono)
    qed (auto simp: valid_def dirst_def)
  qed
qed

section \<open>Written through\<close>

lemma signature_keeps: "keeps (dirst B d G R) (signature stamp p)"
  unfolding signature_def
  by (rule valid_catch [where E' = "\<lambda>_. dirst B d G R"], rule valid_andthen [OF dir_stat])
    (auto simp: valid_def)

lemma start_here: "plain_dir (fsys s) d \<Longrightarrow> G (view d (fsys s)) \<Longrightarrow> R (view d (fsys s)) \<Longrightarrow>
  dirst (node_at (fsys s), trace s) d G R s"
  unfolding dirst_def snd_conv by (rule conjI [OF since_start]) (simp_all add: outside_def)

lemma commit_result:
  assumes d: "plain_dir (fsys (og_os s)) d" and p: "og_path s = d @ [x]" and x: "plain_name x" "\<And>t. x \<noteq> ''.origins-'' @ t @ ''.tmp''"
    and run: "commit_doc stamp f s = (r, s')"
  shows "plain_dir (fsys (og_os s')) d \<and> og_doc s' = f (og_doc s)
    \<and> (case r of Inr _ \<Rightarrow> shows_file x (file_text (f (og_doc s))) (view d (fsys (og_os s')))
       | Inl _ \<Rightarrow> view d (fsys (og_os s')) x = view d (fsys (og_os s)) x)"
proof -
  let ?o = "og_os s" and ?data = "file_text (f (og_doc s))"
  let ?G = "\<lambda>v. v x = view d (fsys ?o) x \<or> shows_file x ?data v" and ?B = "(node_at (fsys ?o), trace ?o)"
  have ne: "staged_name t \<noteq> x" for t using x(2) [of t] by (auto simp: staged_name_def)
  have pre: "dirst ?B d ?G (\<lambda>v. v x = view d (fsys ?o) x) ?o" by (rule start_here [OF d]) simp_all
  note rule = install_doc_rule [OF x(1) ne, where B = ?B and d = d and old = "view d (fsys ?o) x" and data = ?data]
  obtain r1 o1 where i: "install_doc (d @ [x]) ?data ?o = (r1, o1)" by (cases "install_doc (d @ [x]) ?data ?o")
  show ?thesis
  proof (cases r1)
    case (Inl e)
    with valid_Inl [OF rule pre] i have "dirst ?B d ?G (\<lambda>v. v x = view d (fsys ?o) x) o1" by simp
    from dirst_now [OF this] run i Inl show ?thesis
      by (auto simp: commit_doc_def save_doc_def andthen_def bnd_app in_og_def p)
  next
    case (Inr u)
    with valid_Inr [OF rule pre] i have o1: "dirst ?B d ?G (shows_file x ?data) o1" by simp
    obtain r2 o2 where g: "signature stamp (d @ [x]) o1 = (r2, o2)" by (cases "signature stamp (d @ [x]) o1")
    have o2: "dirst ?B d ?G (shows_file x ?data) o2" by (rule keepsD [OF signature_keeps o1 g])
    have "\<exists>sig. r2 = Inr sig" using g by (auto simp: signature_def catch_app split: sum.splits prod.splits)
    then obtain sig where "r2 = Inr sig" ..
    with dirst_now [OF o2] run i Inr g show ?thesis
      by (auto simp: commit_doc_def save_doc_def andthen_def bnd_app in_og_def p)
  qed
qed

text \<open>What a fresh process reads.\<close>

lemma load_result:
  assumes "plain_dir (fsys s) d" "plain_name x" "shows_file x (file_text doc) (view d (fsys s))" "faults s = []"
    and "good_doc doc" "wf_doc doc"
  shows "\<exists>s'. load_doc (d @ [x]) s = (Inr (sorted_doc doc), s')"
proof -
  obtain m where "node_at (fsys s) (d @ [x]) = Some (NFile (file_text doc) m)"
    using assms(3) by (auto simp: shows_file_def view_def)
  then have "\<exists>s'. os_read (d @ [x]) s = (Inr (file_text doc), s')"
    using assms(1,2,4) by (simp add: os_read_def sys_def Let_def at_path_child read_act_def)
  then obtain s' where r: "os_read (d @ [x]) s = (Inr (file_text doc), s')" ..
  have sorted: "sort_vals (PDict doc) = PDict (sorted_doc doc)" by (simp add: sorted_doc_def)
  have good: "valid_document (PDict (sorted_doc doc))"
    unfolding valid_good by (rule good_sorted [OF assms(5,6)])
  have "load_doc (d @ [x]) s = (Inr (sorted_doc doc), s')"
    using file_reads_back [of doc] assms(6) good
    by (simp add: load_doc_def bnd_app catch_app r sorted del: sort_vals.simps)
  then show ?thesis ..
qed


definition demo_store :: origin_store where
  "demo_store = \<lparr>og_os = \<lparr>fsys = [([''data''], NDir)], faults = [], rnd = [''aa''], trace = []\<rparr>, og_path = [''data'', ''origins.json''],
     og_sig = None, og_doc = empty_doc\<rparr>"


end
