(* ===== verification/NT_Ctx.thy ===== *)
theory NT_Ctx
  imports NT_Origins "HOL-Library.Product_Lexorder"
begin

text \<open>
  The runtime context of the ntfy add-on: \<open>ntfy/app/context.py\<close>, the reader of \<open>auth.db\<close> (\<open>authdb.py\<close>) and the adapter of
  the ntfy command line (\<open>ntfycli.py\<close>).  The server ntfy is not part of the repository.  Its database is a set of
  tables; a query returns what its SQL says of them, or fails as the fault script says.  Its command line is a list of
  answers, one per call, each with what the call does to the tables.
\<close>

section \<open>State\<close>

record db_user =
  du_id :: nat
  du_name :: string
  du_role :: string
  du_tier :: "string option"
  du_provisioned :: bool
  du_pass :: string

record db_access =
  da_user_id :: nat
  da_topic :: string
  da_read :: bool
  da_write :: bool
  da_provisioned :: bool

record db_token =
  dt_user_id :: nat
  dt_token :: string
  dt_label :: string
  dt_expires :: int
  dt_last_access :: int
  dt_last_origin :: string
  dt_provisioned :: bool

record auth_tables =
  at_versions :: "int list"
  at_users :: "db_user list"
  at_access :: "db_access list"
  at_tokens :: "db_token list"

datatype sql_fault = SqlOperational string | SqlOther

datatype cli_outcome = CliTimeout | CliNoStart string | CliExit int string string

datatype nt_exn = ApiErr (nx_code: string) (nx_message: string) | CliErr string string int | ValueErr string | OsErr oserr | Crash string

record ctx =
  nt_options :: options
  nt_paths :: paths
  nt_environ :: "string dict"
  nt_os :: os
  nt_db :: "auth_tables option"
  nt_sql :: "sql_fault option list"
  nt_answers :: "(cli_outcome \<times> (auth_tables \<Rightarrow> auth_tables)) list"
  nt_calls :: "(string list \<times> string dict) list"
  nt_sleeps :: nat
  nt_sig :: "(nat \<times> nat \<times> nat) option"
  nt_doc :: "pyval dict"
  nt_clock :: int
  nt_log :: "string list"

type_synonym 'a nt = "(ctx, nt_exn, 'a) prog"

definition api_fail :: "string \<Rightarrow> string \<Rightarrow> 'a nt" where
  "api_fail code message = raise (ApiErr code message)"

definition api_when :: "bool \<Rightarrow> string \<Rightarrow> string \<Rightarrow> unit nt" where
  "api_when b code message = guard_raise b (ApiErr code message)"

definition on_nt_os :: "'a io \<Rightarrow> 'a nt" where
  "on_nt_os m = (\<lambda>s. case m (nt_os s) of (r, o') \<Rightarrow> ((case r of Inl e \<Rightarrow> Inl (OsErr e) | Inr x \<Rightarrow> Inr x), s\<lparr>nt_os := o'\<rparr>))"

text \<open>An operation of the origin store, on the file system the context shares with it.\<close>

definition origin_err :: "origin_exn \<Rightarrow> nt_exn" where
  "origin_err e = (case e of OriginOs x \<Rightarrow> OsErr x | OriginValue m \<Rightarrow> ValueErr m | OriginCrash t \<Rightarrow> Crash t)"

definition store_of :: "ctx \<Rightarrow> origin_store" where
  "store_of s = \<lparr>og_os = nt_os s, og_path = pa_origins_file (nt_paths s), og_sig = nt_sig s, og_doc = nt_doc s\<rparr>"

definition on_origins :: "'a origin \<Rightarrow> 'a nt" where
  "on_origins m = (\<lambda>s. case m (store_of s) of (r, st) \<Rightarrow>
     ((case r of Inl e \<Rightarrow> Inl (origin_err e) | Inr x \<Rightarrow> Inr x), s\<lparr>nt_os := og_os st, nt_sig := og_sig st, nt_doc := og_doc st\<rparr>))"

section \<open>Reading auth.db\<close>

definition db_user_name :: "string \<Rightarrow> string" where
  "db_user_name name = (if name \<in> {''everyone'', ''*''} then ''*'' else name)"

text \<open>One query on its own connection.\<close>

definition sql_error :: "sql_fault \<Rightarrow> nt_exn" where
  "sql_error f = ApiErr (case f of SqlOperational text \<Rightarrow>
       if contains ''locked'' (lower text) \<or> contains ''busy'' (lower text) then ''locked'' else ''db_unavailable''
     | SqlOther \<Rightarrow> ''db_unavailable'') ''auth database cannot be read''"

definition db_query :: "(auth_tables \<Rightarrow> 'a) \<Rightarrow> 'a nt" where
  "db_query f = (\<lambda>s. case nt_db s of
     None \<Rightarrow> (Inl (ApiErr ''db_unavailable'' ''auth database does not exist yet''), s)
   | Some t \<Rightarrow> (case nt_sql s of
       Some fault # rest \<Rightarrow> (Inl (sql_error fault), s\<lparr>nt_sql := rest\<rparr>)
     | _ \<Rightarrow> (Inr (f t), s\<lparr>nt_sql := tl (nt_sql s)\<rparr>)))"

definition check_schema :: "schema_status nt" where
  "check_schema =
     bnd (gets nt_db) (\<lambda>db. case db of
       None \<Rightarrow> ret \<lparr>ss_version = None, ss_supported = False, ss_error = Some ''db_unavailable''\<rparr>
     | Some _ \<Rightarrow> catch
         (bnd (db_query at_versions) (\<lambda>rows.
            let version = (case rows of [] \<Rightarrow> None | v # _ \<Rightarrow> Some v);
                supported = (case version of Some v \<Rightarrow> v \<in> set SUPPORTED_AUTH_SCHEMAS | None \<Rightarrow> False) in
            ret \<lparr>ss_version = version, ss_supported = supported, ss_error = (if supported then None else Some ''db_unsupported'')\<rparr>))
         (\<lambda>e. case e of ApiErr code _ \<Rightarrow>
              ret \<lparr>ss_version = None, ss_supported = False,
                ss_error = Some (if code = ''db_unavailable'' then ''db_unsupported'' else code)\<rparr>
            | _ \<Rightarrow> raise e))"

definition ensure_supported :: "unit nt" where
  "ensure_supported =
     bnd check_schema (\<lambda>st. case ss_error st of
       None \<Rightarrow> ret ()
     | Some e \<Rightarrow>
         if e = ''db_unavailable'' then api_fail ''db_unavailable'' ''auth database is not available''
         else if e = ''locked'' then api_fail ''locked'' ''auth database is locked''
         else api_fail ''db_unsupported'' (''auth schema version '' @ (case ss_version st of Some v \<Rightarrow> int_str v | None \<Rightarrow> ''None'') @ '' is not supported''))"

definition select_users :: "auth_tables \<Rightarrow> db_user list" where
  "select_users t = sort_key du_name (at_users t)"

definition list_users :: "bool \<Rightarrow> user_row list nt" where
  "list_users include_hash =
     andthen ensure_supported
     (bnd (db_query select_users) (\<lambda>rows.
      ret (map (\<lambda>u. \<lparr>ur_name = db_user_to_api (du_name u), ur_role = du_role u, ur_tier = du_tier u, ur_provisioned = du_provisioned u,
         ur_pass_hash = (if include_hash then Some (du_pass u) else None)\<rparr>) rows)))"

text \<open>\<open>user_access JOIN user\<close>, all rows or those of one user.\<close>

definition wanted_user :: "string option \<Rightarrow> db_user \<Rightarrow> bool" where
  "wanted_user user u \<longleftrightarrow> (case user of None \<Rightarrow> True | Some n \<Rightarrow> du_name u = db_user_name n)"

definition select_access :: "string option \<Rightarrow> auth_tables \<Rightarrow> (db_user \<times> db_access) list" where
  "select_access user t = concat (map (\<lambda>a. map (\<lambda>u. (u, a)) (filter (\<lambda>u. du_id u = da_user_id a \<and> wanted_user user u) (at_users t))) (at_access t))"

definition acl_row_of :: "db_user \<times> db_access \<Rightarrow> acl_row" where
  "acl_row_of = (\<lambda>(u, a). \<lparr>ar_user = db_user_to_api (du_name u), ar_topic = db_topic_to_cli (da_topic a),
     ar_permission = perm_from_flags (da_read a) (da_write a), ar_read = da_read a, ar_write = da_write a, ar_provisioned = da_provisioned a\<rparr>)"

definition acl_rows :: "string option \<Rightarrow> acl_row list nt" where
  "acl_rows user = andthen ensure_supported (bnd (db_query (select_access user)) (\<lambda>rows.
     ret (sort_key (\<lambda>r. (ar_user r, ar_topic r)) (map acl_row_of rows))))"

definition list_acl :: "acl_row list nt" where "list_acl = acl_rows None"

definition snapshot_acl :: "string \<Rightarrow> acl_row list nt" where "snapshot_acl user = acl_rows (Some user)"

definition select_tokens :: "string option \<Rightarrow> auth_tables \<Rightarrow> (db_user \<times> db_token) list" where
  "select_tokens user t = sort_key (\<lambda>(u, k). (du_name u, dt_last_access k, dt_label k))
     (concat (map (\<lambda>k. map (\<lambda>u. (u, k)) (filter (\<lambda>u. du_id u = dt_user_id k \<and> wanted_user user u) (at_users t))) (at_tokens t)))"

definition token_rows :: "string option \<Rightarrow> (db_user \<times> db_token) list nt" where
  "token_rows user = andthen ensure_supported (db_query (select_tokens user))"

definition list_tokens :: "(bytes \<Rightarrow> string) \<Rightarrow> string option \<Rightarrow> token_row list nt" where
  "list_tokens sha user = bnd (token_rows user) (\<lambda>rows. ret (map (\<lambda>(u, k).
     \<lparr>tr_user = db_user_to_api (du_name u), tr_token_id = token_id sha (dt_token k), tr_prefix = token_prefix (dt_token k),
      tr_label = dt_label k, tr_expires = dt_expires k, tr_last_access = dt_last_access k, tr_last_origin = dt_last_origin k,
      tr_provisioned = dt_provisioned k\<rparr>) rows))"

definition db_reveal_token :: "(bytes \<Rightarrow> string) \<Rightarrow> string \<Rightarrow> string \<Rightarrow> string option nt" where
  "db_reveal_token sha user tid = bnd (token_rows (Some user)) (\<lambda>rows.
     ret (map_option (\<lambda>(u, k). dt_token k) (List.find (\<lambda>(u, k). token_id sha (dt_token k) = tid) rows)))"

record db_counts =
  ct_users :: nat
  ct_acl_rules :: nat
  ct_tokens :: nat

definition db_count :: "db_counts nt" where
  "db_count = andthen ensure_supported
     (bnd (db_query (\<lambda>t. length (filter (\<lambda>u. du_name u \<noteq> ''*'') (at_users t)))) (\<lambda>users.
      bnd (db_query (\<lambda>t. length (at_access t))) (\<lambda>acl.
      bnd (db_query (\<lambda>t. length (at_tokens t))) (\<lambda>toks.
      ret \<lparr>ct_users = users, ct_acl_rules = acl, ct_tokens = toks\<rparr>))))"

definition has_user :: "string \<Rightarrow> bool nt" where
  "has_user name = andthen ensure_supported (db_query (\<lambda>t. list_ex (\<lambda>u. du_name u = db_user_name name) (at_users t)))"

section \<open>The command line\<close>

definition TOKEN_LENGTH :: nat where "TOKEN_LENGTH = 32"

text \<open>\<open>token (tk_[a-z0-9]{29}) created for user\<close>, searched anywhere in the output.\<close>

fun find_token :: "string \<Rightarrow> string option" where
  "find_token [] = None"
| "find_token (c # s) =
     (let t = take TOKEN_LENGTH (drop 6 (c # s)) in
      if starts_with ''token '' (c # s) \<and> token_shape t \<and> starts_with '' created for user'' (drop (6 + TOKEN_LENGTH) (c # s)) then Some t
      else find_token s)"

definition cli_classify :: "string \<Rightarrow> string" where
  "cli_classify text =
     (let low = lower text in
      if contains ''provisioned'' low then ''provisioned''
      else if contains ''already exists'' low then ''exists''
      else if contains ''does not exist'' low \<or> contains ''not found'' low then ''not_found''
      else if contains ''invalid argument'' low \<or> contains ''must be'' low then ''invalid''
      else if contains ''database is locked'' low then ''locked'' else ''other'')"

definition LOCK_RETRIES :: nat where "LOCK_RETRIES = 3"

definition cli_env :: "ctx \<Rightarrow> string option \<Rightarrow> string dict" where
  "cli_env s password =
     (let env = AList.delete ''NTFY_PASSWORD'' (AList.update ''NTFY_AUTH_FILE'' (path_str (pa_auth_db (nt_paths s)))
          (AList.update ''NTFY_CONFIG_FILE'' (path_str (pa_server_yml (nt_paths s))) (nt_environ s))) in
      case password of Some p \<Rightarrow> AList.update ''NTFY_PASSWORD'' p env | None \<Rightarrow> env)"

text \<open>One start of the program: logged, and the next answer taken; without one it cannot be started.\<close>

definition cli_spawn :: "string list \<Rightarrow> string option \<Rightarrow> cli_outcome nt" where
  "cli_spawn args password = (\<lambda>s.
     let s' = s\<lparr>nt_calls := nt_calls s @ [(args, cli_env s password)], nt_answers := tl (nt_answers s)\<rparr> in
     case nt_answers s of
       [] \<Rightarrow> (Inr (CliNoStart ''FileNotFoundError''), s')
     | (out, act) # _ \<Rightarrow> (Inr out, s'\<lparr>nt_db := map_option act (nt_db s)\<rparr>))"

text \<open>At most \<open>n\<close> more attempts after this one; only a locked database is tried again, after a pause.\<close>

fun cli_attempt :: "nat \<Rightarrow> string list \<Rightarrow> string option \<Rightarrow> string nt" where
  "cli_attempt n args password = bnd (cli_spawn args password) (\<lambda>out. case out of
     CliTimeout \<Rightarrow> raise (CliErr ''other'' ''ntfy CLI timed out'' 1)
   | CliNoStart t \<Rightarrow> raise (CliErr ''other'' (''cannot run ntfy CLI: '' @ t) 1)
   | CliExit rc stdout stderr \<Rightarrow>
       if rc = 0 then ret stdout
       else (let message = strip (if stdout \<noteq> [] then stdout else stderr); code = cli_classify message in
         case n of
           0 \<Rightarrow> raise (CliErr code message rc)
         | Suc m \<Rightarrow> if code = ''locked'' then andthen (modify (\<lambda>s. s\<lparr>nt_sleeps := Suc (nt_sleeps s)\<rparr>)) (cli_attempt m args password)
             else raise (CliErr code message rc)))"

declare cli_attempt.simps [simp del]

definition cli_run :: "string list \<Rightarrow> string option \<Rightarrow> string nt" where
  "cli_run args password = cli_attempt LOCK_RETRIES args password"

text \<open>Validation before anything is started.\<close>

definition value_check :: "bool \<Rightarrow> string \<Rightarrow> unit nt" where
  "value_check ok message = guard_raise (\<not> ok) (ValueErr message)"

definition check_user :: "bool \<Rightarrow> string \<Rightarrow> unit nt" where
  "check_user allow_everyone name = value_check (allow_everyone \<and> name = ''everyone'' \<or> USERNAME_RE name) ''invalid user name''"

definition check_password :: "string \<Rightarrow> unit nt" where
  "check_password p = value_check (p \<noteq> []) ''password must not be empty''"

definition check_role :: "string \<Rightarrow> unit nt" where
  "check_role r = value_check (r \<in> {''user'', ''admin''}) ''role must be user or admin''"

definition check_topic :: "string \<Rightarrow> unit nt" where
  "check_topic t = value_check (CHR ''%'' \<notin> set t \<and> TOPIC_PATTERN_RE t) ''invalid topic pattern''"

definition user_add :: "string \<Rightarrow> string \<Rightarrow> string \<Rightarrow> unit nt" where
  "user_add name password role =
     andthen (check_user False name) (andthen (check_role role) (andthen (check_password password)
       (andthen (cli_run [''user'', ''add'', ''--role='' @ role, name] (Some password)) (ret ()))))"

definition user_change_pass :: "string \<Rightarrow> string \<Rightarrow> unit nt" where
  "user_change_pass name password =
     andthen (check_user False name) (andthen (check_password password)
       (andthen (cli_run [''user'', ''change-pass'', name] (Some password)) (ret ())))"

definition user_delete :: "string \<Rightarrow> unit nt" where
  "user_delete name = andthen (check_user False name) (andthen (cli_run [''user'', ''del'', name] None) (ret ()))"

definition user_change_role :: "string \<Rightarrow> string \<Rightarrow> unit nt" where
  "user_change_role name role = andthen (check_user False name) (andthen (check_role role)
     (andthen (cli_run [''user'', ''change-role'', name, role] None) (ret ())))"

definition access_set :: "string \<Rightarrow> string \<Rightarrow> string \<Rightarrow> unit nt" where
  "access_set user topic permission =
     andthen (check_user True user) (andthen (check_topic topic)
       (andthen (value_check (permission \<in> set PERMISSIONS) ''invalid permission'')
         (andthen (cli_run [''access'', user, topic, permission] None) (ret ()))))"

definition access_reset :: "string option \<Rightarrow> string option \<Rightarrow> unit nt" where
  "access_reset user topic =
     (case user of
        None \<Rightarrow> andthen (value_check (topic = None) ''topic requires a user'') (andthen (cli_run [''access'', ''--reset''] None) (ret ()))
      | Some u \<Rightarrow> andthen (check_user True u)
          (case topic of
             None \<Rightarrow> andthen (cli_run [''access'', ''--reset'', u] None) (ret ())
           | Some t \<Rightarrow> andthen (check_topic t) (andthen (cli_run [''access'', ''--reset'', u, t] None) (ret ()))))"

definition opt_arg :: "string \<Rightarrow> string option \<Rightarrow> string list" where
  "opt_arg flag v = (case v of Some x \<Rightarrow> if x = [] then [] else [flag @ x] | None \<Rightarrow> [])"

definition token_add :: "string \<Rightarrow> string option \<Rightarrow> string option \<Rightarrow> string nt" where
  "token_add user label expires =
     andthen (check_user False user)
     (andthen (value_check (case label of Some l \<Rightarrow> l = [] \<or> LABEL_RE l | None \<Rightarrow> True) ''invalid label'')
     (andthen (value_check (case expires of Some e \<Rightarrow> e = [] \<or> DURATION_RE e | None \<Rightarrow> True) ''invalid expiry duration'')
     (bnd (cli_run ([''token'', ''add''] @ opt_arg ''--label='' label @ opt_arg ''--expires='' expires @ [user]) None) (\<lambda>out.
      case find_token out of None \<Rightarrow> raise (CliErr ''other'' ''unexpected token add output'' 1) | Some t \<Rightarrow> ret t))))"

definition token_remove :: "string \<Rightarrow> string \<Rightarrow> unit nt" where
  "token_remove user token = andthen (check_user False user) (andthen (value_check (TOKEN_RE token) ''invalid token'')
     (andthen (cli_run [''token'', ''remove'', user, token] None) (ret ())))"

end
