(* ===== verification/Spec2Isabelle.thy ===== *)
theory Spec2Isabelle
  imports SS_Loop SS_Bitwarden_Proofs SS_Sources_Proofs AU_Server NT_Origins_Proofs NT_Ctx
begin

text \<open>
  Home Assistant add-ons: a verification development.
\<close>

end
